(* ===== verification/Bridge_Prelude.thy ===== *)
theory Bridge_Prelude
  imports Main "HOL-Library.Word"
begin

text \<open>
  Shared vocabulary of the development: the machine integers and byte arrays of the Rust
  sources, Rust's \<^verbatim>\<open>Result\<close> extended by the outcome of a panic, the \<^verbatim>\<open>?\<close> operator, the
  checked integer operations of the standard library, the byte views of integers and arrays,
  and the call environment every ink! message reads.  The lemmas declared here carry the
  component proofs: \<open>result_elims\<close> decomposes a successful chain of \<^verbatim>\<open>?\<close> steps,
  \<open>result_errors\<close> a failed one, and
  \<open>checked_arith\<close> turns checked operations into arithmetic on natural numbers.
\<close>

named_theorems result_elims \<open>characterisations of a step that returned Ok\<close>
named_theorems result_errors \<open>characterisations of a step that returned Err\<close>
named_theorems checked_arith \<open>checked machine arithmetic, read on natural numbers\<close>

section \<open>Machine types\<close>

type_synonym u8 = "8 word"
type_synonym u32 = "32 word"
type_synonym u64 = "64 word"
type_synonym u128 = "128 word"

text \<open>
  A Rust array \<^verbatim>\<open>[u8; 32]\<close> has \<open>2 ^ 256\<close> values; it is a 256-bit word here and
  \<open>array_bytes\<close> below lists its bytes.  The ink! \<^verbatim>\<open>AccountId\<close> is a newtype of such an
  array, and every \<^verbatim>\<open>.into()\<close> between the two in the sources keeps the bytes.
\<close>

type_synonym bytes32 = "256 word"
type_synonym account_id = bytes32

text \<open>Ethereum's \<^verbatim>\<open>uint256\<close> and \<^verbatim>\<open>address\<close>; a \<^verbatim>\<open>bytes32\<close> is the word its big-endian bytes spell.\<close>

type_synonym u256 = "256 word"
type_synonym eth_address = "160 word"

section \<open>Results and panics\<close>

text \<open>
  Rust's \<^verbatim>\<open>Result<T, E>\<close>, with a third value for a computation that panics (a trap in a
  contract, \<^verbatim>\<open>expect\<close>, \<^verbatim>\<open>panic!\<close>).
\<close>

datatype ('a, 'e) result = Ok 'a | Err 'e | Panic

fun try_res :: "('a, 'e) result \<Rightarrow> ('a \<Rightarrow> ('b, 'e) result) \<Rightarrow> ('b, 'e) result" where
  "try_res (Ok a) k = k a"
| "try_res (Err e) k = Err e"
| "try_res Panic k = Panic"

fun map_err :: "('e \<Rightarrow> 'f) \<Rightarrow> ('a, 'e) result \<Rightarrow> ('a, 'f) result" where
  "map_err f (Ok a) = Ok a"
| "map_err f (Err e) = Err (f e)"
| "map_err f Panic = Panic"

fun map_ok :: "('a \<Rightarrow> 'b) \<Rightarrow> ('a, 'e) result \<Rightarrow> ('b, 'e) result" where
  "map_ok f (Ok a) = Ok (f a)"
| "map_ok f (Err e) = Err e"
| "map_ok f Panic = Panic"

fun ok_or :: "'a option \<Rightarrow> 'e \<Rightarrow> ('a, 'e) result" where
  "ok_or (Some a) e = Ok a"
| "ok_or None e = Err e"

fun unwrap_or :: "'a option \<Rightarrow> 'a \<Rightarrow> 'a" where
  "unwrap_or (Some a) d = a"
| "unwrap_or None d = d"

fun is_ok :: "('a, 'e) result \<Rightarrow> bool" where
  "is_ok (Ok a) = True"
| "is_ok (Err e) = False"
| "is_ok Panic = False"

text \<open>The state a transaction leaves behind: an error or a trap reverts every change.\<close>

fun commit :: "'s \<Rightarrow> ('s, 'e) result \<Rightarrow> 's" where
  "commit s (Ok s') = s'"
| "commit s (Err e) = s"
| "commit s Panic = s"

text \<open>The statement \<^verbatim>\<open>_ = call();\<close>: an error leaves the state as it was, a trap is still a trap.\<close>

fun ignore_err :: "'s \<Rightarrow> ('s, 'e) result \<Rightarrow> ('s, 'f) result" where
  "ignore_err s (Ok s') = Ok s'"
| "ignore_err s (Err e) = Ok s"
| "ignore_err s Panic = Panic"

lemma try_res_assoc: "try_res (try_res m f) g = try_res m (\<lambda>a. try_res (f a) g)"
  by (cases m) simp_all

lemma try_res_Err [result_errors]: "try_res m k = Err e \<longleftrightarrow> m = Err e \<or> (\<exists>a. m = Ok a \<and> k a = Err e)"
  by (cases m) simp_all

lemma map_err_Err [result_errors]: "map_err f m = Err e \<longleftrightarrow> (\<exists>e'. m = Err e' \<and> e = f e')"
  by (cases m) auto

lemma ignore_err_Ok [result_elims]: "ignore_err s r = Ok s' \<longleftrightarrow> r \<noteq> Panic \<and> s' = commit s r"
  by (cases r) auto

lemma ignore_err_Err [result_errors]: "ignore_err s r = Err e \<longleftrightarrow> False"
  by (cases r) simp_all

lemma try_res_Ok [result_elims]:
  "try_res m k = Ok b \<longleftrightarrow> (\<exists>a. m = Ok a \<and> k a = Ok b)"
  by (cases m) auto

lemma map_err_Ok [result_elims]: "map_err f m = Ok b \<longleftrightarrow> m = Ok b"
  by (cases m) auto

lemma map_ok_Ok [result_elims]: "map_ok f m = Ok b \<longleftrightarrow> (\<exists>a. m = Ok a \<and> b = f a)"
  by (cases m) auto

lemma ok_or_Ok [result_elims]: "ok_or m e = Ok a \<longleftrightarrow> m = Some a"
  by (cases m) auto

lemma is_ok_iff: "is_ok m \<longleftrightarrow> (\<exists>a. m = Ok a)"
  by (cases m) auto

lemma ok_or_not_Panic [simp]: "ok_or m e \<noteq> Panic"
  by (cases m) auto

lemma ok_or_Err [simp]: "ok_or m e = Err f \<longleftrightarrow> m = None \<and> f = e"
  by (cases m) auto

lemma unwrap_or_eq: "unwrap_or m d = (case m of None \<Rightarrow> d | Some a \<Rightarrow> a)"
  by (cases m) auto

lemma commit_cases: "(\<exists>s'. r = Ok s' \<and> commit s r = s') \<or> commit s r = s"
  by (cases r) auto

lemma commit_preserves:
  assumes "P s" and "\<And>s'. r = Ok s' \<Longrightarrow> P s'"
  shows "P (commit s r)"
  using assms by (cases r) auto

section \<open>Checked integer arithmetic\<close>

definition checked_add :: "'a::len word \<Rightarrow> 'a word \<Rightarrow> 'a word option" where
  "checked_add a b = (if unat a + unat b < 2 ^ LENGTH('a) then Some (a + b) else None)"

definition checked_sub :: "'a::len word \<Rightarrow> 'a word \<Rightarrow> 'a word option" where
  "checked_sub a b = (if b \<le> a then Some (a - b) else None)"

definition checked_mul :: "'a::len word \<Rightarrow> 'a word \<Rightarrow> 'a word option" where
  "checked_mul a b = (if unat a * unat b < 2 ^ LENGTH('a) then Some (a * b) else None)"

definition checked_div :: "'a::len word \<Rightarrow> 'a word \<Rightarrow> 'a word option" where
  "checked_div a b = (if b = 0 then None else Some (a div b))"

definition saturating_sub :: "'a::len word \<Rightarrow> 'a word \<Rightarrow> 'a word" where
  "saturating_sub a b = (if b \<le> a then a - b else 0)"

lemma unat_bound: "unat (w :: 'a::len word) < 2 ^ LENGTH('a)"
  by (rule unsigned_less)

lemma unat_of_nat_small: "n < 2 ^ LENGTH('a) \<Longrightarrow> unat (of_nat n :: 'a::len word) = n"
  by (simp add: unat_of_nat)

lemma checked_add_Some [checked_arith]:
  "checked_add a b = Some c \<longleftrightarrow> unat c = unat a + unat b"
proof
  assume "checked_add a b = Some c"
  then show "unat c = unat a + unat b"
    by (auto simp: checked_add_def unat_word_ariths split: if_splits)
next
  assume c: "unat c = unat a + unat b"
  then have "unat a + unat b < 2 ^ LENGTH('a)"
    using unat_bound [of c] by simp
  moreover from this have "unat (a + b) = unat c"
    by (simp add: c unat_word_ariths)
  then have "a + b = c"
    by (simp add: word_unat_eq_iff)
  ultimately show "checked_add a b = Some c"
    by (simp add: checked_add_def)
qed

lemma checked_add_None [checked_arith]:
  "checked_add a b = None \<longleftrightarrow> 2 ^ LENGTH('a) \<le> unat a + unat (b :: 'a::len word)"
  by (auto simp: checked_add_def)

lemma checked_sub_Some [checked_arith]:
  "checked_sub a b = Some c \<longleftrightarrow> b \<le> a \<and> c = a - b"
  by (auto simp: checked_sub_def)

lemma checked_mul_Some [checked_arith]:
  "checked_mul a b = Some c \<longleftrightarrow> unat c = unat a * unat b"
proof
  assume "checked_mul a b = Some c"
  then show "unat c = unat a * unat b"
    by (auto simp: checked_mul_def unat_word_ariths split: if_splits)
next
  assume c: "unat c = unat a * unat b"
  then have "unat a * unat b < 2 ^ LENGTH('a)"
    using unat_bound [of c] by simp
  moreover from this have "unat (a * b) = unat c"
    by (simp add: c unat_word_ariths)
  then have "a * b = c"
    by (simp add: word_unat_eq_iff)
  ultimately show "checked_mul a b = Some c"
    by (simp add: checked_mul_def)
qed

lemma checked_mul_None [checked_arith]:
  "checked_mul a b = None \<longleftrightarrow> 2 ^ LENGTH('a) \<le> unat a * unat (b :: 'a::len word)"
  by (auto simp: checked_mul_def)

lemma checked_div_Some [checked_arith]:
  "checked_div a b = Some c \<longleftrightarrow> b \<noteq> 0 \<and> c = a div b"
  by (auto simp: checked_div_def)

lemma unat_saturating_sub [checked_arith]:
  "unat (saturating_sub a b) = unat a - unat b"
  by (auto simp: saturating_sub_def unat_sub word_le_nat_alt)

section \<open>Byte views\<close>

text \<open>
  \<^verbatim>\<open>to_le_bytes\<close> of an unsigned integer, and the bytes of a \<^verbatim>\<open>[u8; 32]\<close> in array order
  (index 0 is the most significant byte of the word that stands for the array).
\<close>

definition to_le_bytes :: "'a::len word \<Rightarrow> u8 list" where
  "to_le_bytes w = map (\<lambda>i. ucast (drop_bit (8 * i) w)) [0..<LENGTH('a) div 8]"

definition array_bytes :: "bytes32 \<Rightarrow> u8 list" where
  "array_bytes w = rev (to_le_bytes w)"

definition array_of_bytes :: "u8 list \<Rightarrow> bytes32" where
  "array_of_bytes bs = horner_sum unsigned (2 ^ 8) (rev bs)"

lemma length_to_le_bytes [simp]:
  "length (to_le_bytes (w :: 'a::len word)) = LENGTH('a) div 8"
  by (simp add: to_le_bytes_def)

lemma length_array_bytes [simp]: "length (array_bytes a) = 32"
  by (simp add: array_bytes_def)

lemma to_le_bytes_inject:
  fixes v w :: "'a::len word"
  assumes len: "8 dvd LENGTH('a)" and eq: "to_le_bytes v = to_le_bytes w"
  shows "v = w"
proof (rule bit_word_eqI)
  fix n assume n: "n < LENGTH('a)"
  let ?i = "n div 8"
  have i: "?i < LENGTH('a) div 8"
    using n len by (auto elim!: dvdE)
  have "(ucast (drop_bit (8 * ?i) v) :: u8) = ucast (drop_bit (8 * ?i) w)"
    using arg_cong [OF eq, of "\<lambda>xs. xs ! ?i"] i by (simp add: to_le_bytes_def)
  then have "bit (ucast (drop_bit (8 * ?i) v) :: u8) (n mod 8)
           = bit (ucast (drop_bit (8 * ?i) w) :: u8) (n mod 8)"
    by simp
  then show "bit v n = bit w n"
    by (simp add: bit_simps)
qed

lemma to_le_bytes_u128_inject [simp]:
  "to_le_bytes (v :: u128) = to_le_bytes w \<longleftrightarrow> v = w"
  by (auto intro: to_le_bytes_inject)

lemma array_bytes_inject [simp]: "array_bytes v = array_bytes w \<longleftrightarrow> v = w"
  by (auto simp: array_bytes_def intro: to_le_bytes_inject)

lemma horner_bytes:
  "horner_sum unsigned (2 ^ 8) (map (\<lambda>i. ucast (drop_bit (8 * i) w) :: u8) [0..<n]) = take_bit (8 * n) (w :: bytes32)"
proof (induction n)
  case (Suc n)
  let ?b = "ucast (ucast (drop_bit (8 * n) w) :: u8) :: bytes32"
  have "horner_sum unsigned (2 ^ 8) (map (\<lambda>i. ucast (drop_bit (8 * i) w) :: u8) [0..<Suc n]) =
        take_bit (8 * n) w + push_bit (8 * n) ?b"
    using Suc by (simp add: horner_sum_append push_bit_eq_mult power_mult)
  also have "\<dots> = or (take_bit (8 * n) w) (push_bit (8 * n) ?b)"
    by (rule disjunctive_add) (auto simp: bit_simps)
  also have "\<dots> = take_bit (8 * Suc n) w"
    by (rule bit_word_eqI) (auto simp: bit_simps)
  finally show ?case .
qed simp

lemma array_of_bytes_inverse [simp]: "array_of_bytes (array_bytes w) = w"
proof -
  have "array_of_bytes (array_bytes w) = take_bit (8 * 32) w"
    using horner_bytes [of w 32]
    by (simp only: array_of_bytes_def array_bytes_def to_le_bytes_def rev_rev_ident) simp
  then show ?thesis by (simp add: take_bit_word_eq_self)
qed

lemma ucast_up_inject:
  assumes "LENGTH('a) \<le> LENGTH('b)"
  shows "(ucast (x :: 'a::len word) :: 'b::len word) = ucast y \<longleftrightarrow> x = y"
proof -
  have "unat (ucast z :: 'b word) = unat z" for z :: "'a word"
  proof -
    have "unat z < 2 ^ LENGTH('b)"
      by (rule less_le_trans [OF unsigned_less power_increasing]) (use assms in simp_all)
    then show ?thesis by (simp add: unsigned_ucast_eq take_bit_nat_eq_self)
  qed
  then show ?thesis by (metis word_unat_eq_iff)
qed

section \<open>Call environment\<close>

text \<open>
  What a message reads through \<^verbatim>\<open>self.env()\<close>: the immediate caller, the value sent along,
  the address of the contract itself and the timestamp of the block (milliseconds).
\<close>

record call_env =
  caller :: account_id
  transferred_value :: u128
  self_account :: account_id
  block_timestamp :: u64

text \<open>The environment a callee sees when the contract of \<open>env\<close> calls it without value.\<close>

definition callee_env :: "call_env \<Rightarrow> account_id \<Rightarrow> call_env" where
  "callee_env env callee =
     env\<lparr>caller := self_account env, transferred_value := 0, self_account := callee\<rparr>"

lemma callee_env_simps [simp]:
  "caller (callee_env env a) = self_account env"
  "self_account (callee_env env a) = a"
  "transferred_value (callee_env env a) = 0"
  "block_timestamp (callee_env env a) = block_timestamp env"
  by (simp_all add: callee_env_def)

text \<open>
  \<^verbatim>\<open>ink::env::Error\<close> only ever occurs as its \<^verbatim>\<open>Debug\<close> rendering, the string the
  \<^verbatim>\<open>From<InkEnvError>\<close> conversions of the contracts store.
\<close>

type_synonym ink_env_error = string

lemma count_list_distinct: "distinct xs \<Longrightarrow> x \<in> set xs \<Longrightarrow> count_list xs x = 1"
  by (induction xs) (auto simp: count_list_0_iff)

end
