(* ===== verification/Ownable2Step.thy ===== *)
theory Ownable2Step
  imports Bridge_Prelude
begin

text \<open>
  The crate \<^verbatim>\<open>azero/contracts/ownable2step\<close>: the stored data, its operations, and the trait
  \<^verbatim>\<open>Ownable2Step\<close> as a locale.  The locale's laws are what the trait's documentation promises
  (the owner nominates, only the nominee can accept, the owner changes at acceptance only);
  its lemmas are proved once and reach the bridge, the token and the oracle contracts through
  one interpretation each.
\<close>

section \<open>Data and operations\<close>

datatype ownable2step_error =
    CallerNotOwner account_id
  | CallerNotPendingOwner account_id
  | NoPendingOwner
  | Ownable_Custom string

type_synonym 'a ownable2step_result = "('a, ownable2step_error) result"

record ownable2step_data =
  owner :: account_id
  pending_owner :: "account_id option"

definition ownable_new :: "account_id \<Rightarrow> ownable2step_data" where
  "ownable_new new_owner = \<lparr>owner = new_owner, pending_owner = None\<rparr>"

definition ownable_ensure_owner ::
  "account_id \<Rightarrow> ownable2step_data \<Rightarrow> unit ownable2step_result" where
  "ownable_ensure_owner who d = (if who \<noteq> owner d then Err (CallerNotOwner who) else Ok ())"

definition ownable_transfer_ownership ::
  "account_id \<Rightarrow> account_id \<Rightarrow> ownable2step_data \<Rightarrow> ownable2step_data ownable2step_result" where
  "ownable_transfer_ownership who new_owner d =
     try_res (ownable_ensure_owner who d) (\<lambda>_. Ok (d\<lparr>pending_owner := Some new_owner\<rparr>))"

definition ownable_accept_ownership ::
  "account_id \<Rightarrow> ownable2step_data \<Rightarrow> ownable2step_data ownable2step_result" where
  "ownable_accept_ownership who d =
     try_res (ok_or (pending_owner d) NoPendingOwner) (\<lambda>pending.
     if who \<noteq> pending then Err (CallerNotPendingOwner who)
     else Ok (d\<lparr>owner := pending, pending_owner := None\<rparr>))"

definition ownable_get_owner :: "ownable2step_data \<Rightarrow> account_id ownable2step_result" where
  "ownable_get_owner d = Ok (owner d)"

definition ownable_get_pending_owner ::
  "ownable2step_data \<Rightarrow> account_id ownable2step_result" where
  "ownable_get_pending_owner d = ok_or (pending_owner d) NoPendingOwner"

lemmas ownable_defs =
  ownable_new_def ownable_ensure_owner_def ownable_transfer_ownership_def
  ownable_accept_ownership_def ownable_get_owner_def ownable_get_pending_owner_def

lemma ownable_ensure_owner_Ok [result_elims]:
  "ownable_ensure_owner who d = Ok u \<longleftrightarrow> who = owner d"
  by (auto simp: ownable_ensure_owner_def)

lemma ownable_ensure_owner_not_Panic [simp]: "ownable_ensure_owner who d \<noteq> Panic"
  by (simp add: ownable_ensure_owner_def)

section \<open>The trait as an interface\<close>

text \<open>One call of the two state-changing messages, with the account that makes it.\<close>

datatype ownership_call = Transfer_Call account_id account_id | Accept_Call account_id

text \<open>
  \<open>valid\<close> is the part of the contract's state the trait relies on: for the contracts that
  keep the data in a \<^verbatim>\<open>Lazy\<close> cell, that the cell has been written.
\<close>

locale ownable2step =
  fixes valid :: "'s \<Rightarrow> bool"
    and get_owner :: "'s \<Rightarrow> account_id ownable2step_result"
    and get_pending_owner :: "'s \<Rightarrow> account_id ownable2step_result"
    and transfer_ownership :: "account_id \<Rightarrow> account_id \<Rightarrow> 's \<Rightarrow> 's ownable2step_result"
    and accept_ownership :: "account_id \<Rightarrow> 's \<Rightarrow> 's ownable2step_result"
    and ensure_owner :: "account_id \<Rightarrow> 's \<Rightarrow> unit ownable2step_result"
  assumes owner_exists: "valid s \<Longrightarrow> \<exists>a. get_owner s = Ok a"
    and ensure_owner_iff: "valid s \<Longrightarrow> ensure_owner c s = Ok () \<longleftrightarrow> get_owner s = Ok c"
    and transfer_by_owner: "valid s \<Longrightarrow> get_owner s = Ok c \<Longrightarrow>
      \<exists>s'. transfer_ownership c n s = Ok s' \<and> valid s' \<and> get_owner s' = Ok c \<and>
           get_pending_owner s' = Ok n"
    and transfer_by_other: "valid s \<Longrightarrow> get_owner s \<noteq> Ok c \<Longrightarrow>
      transfer_ownership c n s = Err (CallerNotOwner c)"
    and accept_by_pending: "valid s \<Longrightarrow> get_pending_owner s = Ok c \<Longrightarrow>
      \<exists>s'. accept_ownership c s = Ok s' \<and> valid s' \<and> get_owner s' = Ok c \<and>
           get_pending_owner s' = Err NoPendingOwner"
    and accept_by_other: "valid s \<Longrightarrow> get_pending_owner s = Ok p \<Longrightarrow> c \<noteq> p \<Longrightarrow>
      accept_ownership c s = Err (CallerNotPendingOwner c)"
    and accept_without_pending: "valid s \<Longrightarrow> get_pending_owner s = Err e \<Longrightarrow>
      accept_ownership c s = Err e"
    and pending_not_Panic: "valid s \<Longrightarrow> get_pending_owner s \<noteq> Panic"
begin

definition run_call :: "ownership_call \<Rightarrow> 's \<Rightarrow> 's" where
  "run_call k s = (case k of
      Transfer_Call c n \<Rightarrow> commit s (transfer_ownership c n s)
    | Accept_Call c \<Rightarrow> commit s (accept_ownership c s))"

definition run_calls :: "ownership_call list \<Rightarrow> 's \<Rightarrow> 's" where
  "run_calls ks s = fold run_call ks s"

lemma transfer_call_cases:
  assumes "valid s"
  shows "(get_owner s = Ok c \<and> get_owner (run_call (Transfer_Call c n) s) = get_owner s \<and>
           get_pending_owner (run_call (Transfer_Call c n) s) = Ok n \<and>
           valid (run_call (Transfer_Call c n) s)) \<or>
         (get_owner s \<noteq> Ok c \<and> run_call (Transfer_Call c n) s = s)"
proof (cases "get_owner s = Ok c")
  case True
  with transfer_by_owner [OF assms, of c n] show ?thesis
    by (auto simp: run_call_def)
next
  case False
  with transfer_by_other [OF assms, of c n] show ?thesis
    by (simp add: run_call_def)
qed

lemma accept_call_cases:
  assumes "valid s"
  shows "(get_pending_owner s = Ok c \<and> get_owner (run_call (Accept_Call c) s) = Ok c \<and>
           get_pending_owner (run_call (Accept_Call c) s) = Err NoPendingOwner \<and>
           valid (run_call (Accept_Call c) s)) \<or>
         (get_pending_owner s \<noteq> Ok c \<and> run_call (Accept_Call c) s = s)"
proof (cases "get_pending_owner s")
  case (Ok p)
  show ?thesis
  proof (cases "c = p")
    case True
    with Ok accept_by_pending [OF assms, of c] show ?thesis
      by (auto simp: run_call_def)
  next
    case False
    with Ok accept_by_other [OF assms, of p c] show ?thesis
      by (simp add: run_call_def)
  qed
next
  case (Err e)
  with accept_without_pending [OF assms, of e c] show ?thesis
    by (simp add: run_call_def)
next
  case Panic
  with pending_not_Panic [OF assms] show ?thesis by simp
qed

lemma run_call_valid: "valid s \<Longrightarrow> valid (run_call k s)"
  using transfer_call_cases accept_call_cases by (cases k) metis+

text \<open>Only calls made by the owner or by the nominee have an effect.\<close>

lemma run_call_by_stranger:
  assumes "valid s" and "get_owner s \<noteq> Ok c" and "get_pending_owner s \<noteq> Ok c"
  shows "run_call (Transfer_Call c n) s = s" and "run_call (Accept_Call c) s = s"
  using transfer_call_cases [OF assms(1), of c n] accept_call_cases [OF assms(1), of c] assms
  by auto

lemma run_calls_by_strangers:
  assumes "valid s" and "get_owner s = Ok a"
    and "\<forall>k \<in> set ks. case k of Transfer_Call c n \<Rightarrow> c \<noteq> a
                              | Accept_Call c \<Rightarrow> get_pending_owner s \<noteq> Ok c"
  shows "run_calls ks s = s"
  using assms(3)
proof (induction ks)
  case Nil
  then show ?case by (simp add: run_calls_def)
next
  case (Cons k ks)
  have "run_call k s = s"
    using transfer_call_cases [OF assms(1)] accept_call_cases [OF assms(1)] assms(2) Cons.prems
    by (cases k) force+
  with Cons show ?case by (simp add: run_calls_def)
qed

text \<open>
  Two-step hand-over: after a nomination and an acceptance the nominee is the owner, nothing
  is pending and the former owner is refused.
\<close>

lemma handover:
  assumes "valid s" and "get_owner s = Ok a"
  obtains s1 s2 where "transfer_ownership a n s = Ok s1" and "get_owner s1 = Ok a"
    and "accept_ownership n s1 = Ok s2" and "get_owner s2 = Ok n"
    and "get_pending_owner s2 = Err NoPendingOwner" and "valid s2"
    and "a \<noteq> n \<Longrightarrow> transfer_ownership a m s2 = Err (CallerNotOwner a)"
proof -
  from transfer_by_owner [OF assms, of n] obtain s1
    where s1: "transfer_ownership a n s = Ok s1" "valid s1" "get_owner s1 = Ok a"
      "get_pending_owner s1 = Ok n" by blast
  from accept_by_pending [OF s1(2,4)] obtain s2
    where s2: "accept_ownership n s1 = Ok s2" "valid s2" "get_owner s2 = Ok n"
      "get_pending_owner s2 = Err NoPendingOwner" by blast
  have "transfer_ownership a m s2 = Err (CallerNotOwner a)" if "a \<noteq> n"
    using transfer_by_other [OF s2(2), of a m] s2(3) that by simp
  with s1 s2 that show thesis by blast
qed

end

section \<open>The data structure implements the trait\<close>

interpretation own_data: ownable2step
  "\<lambda>_. True" ownable_get_owner ownable_get_pending_owner
  ownable_transfer_ownership ownable_accept_ownership ownable_ensure_owner
  by unfold_locales (auto simp: ownable_defs split: option.splits)

end
