(* ===== verification/Token_Contract.thy ===== *)
theory Token_Contract
  imports Ownable2Step
begin

text \<open>
  The PSP22 token contract of the bridge (\<^verbatim>\<open>azero/contracts/token\<close>) and the traits it
  implements (\<^verbatim>\<open>azero/contracts/psp22-traits\<close>).  The ledger itself, \<^verbatim>\<open>PSP22Data\<close>, belongs to the
  crate \<^verbatim>\<open>psp22\<close>, which is not part of the repository: it is the parameter \<open>'d psp22_lib\<close>,
  a record of its operations over an abstract ledger type \<open>'d\<close>.  What the contracts rely on
  is stated as predicates over that record (\<open>psp22_mint_law\<close>, \<open>psp22_burn_law\<close>,
  \<open>psp22_transfer_from_law\<close>), which the properties name as hypotheses.
\<close>

section \<open>The PSP22 library as a parameter\<close>

text \<open>
  Of \<^verbatim>\<open>PSP22Error\<close> the contracts only build \<^verbatim>\<open>Custom\<close>; the other constructors are passed on
  unseen and are numbered here.
\<close>

datatype psp22_error = PSP22_Custom string | PSP22_Lib nat

datatype psp22_event =
    Psp22_Transfer "account_id option" "account_id option" u128
  | Psp22_Approval account_id account_id u128

type_synonym 'd psp22_update = "('d \<times> psp22_event list, psp22_error) result"

record 'd psp22_lib =
  psp22_new :: "u128 \<Rightarrow> account_id \<Rightarrow> 'd"
  psp22_total_supply :: "'d \<Rightarrow> u128"
  psp22_balance_of :: "'d \<Rightarrow> account_id \<Rightarrow> u128"
  psp22_allowance :: "'d \<Rightarrow> account_id \<Rightarrow> account_id \<Rightarrow> u128"
  psp22_transfer :: "account_id \<Rightarrow> account_id \<Rightarrow> u128 \<Rightarrow> 'd \<Rightarrow> 'd psp22_update"
  psp22_transfer_from :: "account_id \<Rightarrow> account_id \<Rightarrow> account_id \<Rightarrow> u128 \<Rightarrow> 'd \<Rightarrow> 'd psp22_update"
  psp22_approve :: "account_id \<Rightarrow> account_id \<Rightarrow> u128 \<Rightarrow> 'd \<Rightarrow> 'd psp22_update"
  psp22_increase_allowance :: "account_id \<Rightarrow> account_id \<Rightarrow> u128 \<Rightarrow> 'd \<Rightarrow> 'd psp22_update"
  psp22_decrease_allowance :: "account_id \<Rightarrow> account_id \<Rightarrow> u128 \<Rightarrow> 'd \<Rightarrow> 'd psp22_update"
  psp22_mint :: "account_id \<Rightarrow> u128 \<Rightarrow> 'd \<Rightarrow> 'd psp22_update"
  psp22_burn :: "account_id \<Rightarrow> u128 \<Rightarrow> 'd \<Rightarrow> 'd psp22_update"

text \<open>
  The documented effect of the three ledger operations the bridge uses, for calls that
  succeed: minting credits one account and the supply, burning debits them, a transfer
  between two different accounts moves the value.
\<close>

definition psp22_mint_law :: "'d psp22_lib \<Rightarrow> bool" where
  "psp22_mint_law L \<longleftrightarrow> (\<forall>to v d d' evs. psp22_mint L to v d = Ok (d', evs) \<longrightarrow>
     unat (psp22_balance_of L d' to) = unat (psp22_balance_of L d to) + unat v \<and>
     (\<forall>a. a \<noteq> to \<longrightarrow> psp22_balance_of L d' a = psp22_balance_of L d a) \<and>
     unat (psp22_total_supply L d') = unat (psp22_total_supply L d) + unat v)"

definition psp22_burn_law :: "'d psp22_lib \<Rightarrow> bool" where
  "psp22_burn_law L \<longleftrightarrow> (\<forall>from v d d' evs. psp22_burn L from v d = Ok (d', evs) \<longrightarrow>
     unat (psp22_balance_of L d from) = unat (psp22_balance_of L d' from) + unat v \<and>
     (\<forall>a. a \<noteq> from \<longrightarrow> psp22_balance_of L d' a = psp22_balance_of L d a) \<and>
     unat (psp22_total_supply L d) = unat (psp22_total_supply L d') + unat v)"

definition psp22_transfer_from_law :: "'d psp22_lib \<Rightarrow> bool" where
  "psp22_transfer_from_law L \<longleftrightarrow> (\<forall>by from to v d d' evs.
     psp22_transfer_from L by from to v d = Ok (d', evs) \<longrightarrow> from \<noteq> to \<longrightarrow>
     unat (psp22_balance_of L d from) = unat (psp22_balance_of L d' from) + unat v \<and>
     unat (psp22_balance_of L d' to) = unat (psp22_balance_of L d to) + unat v \<and>
     (\<forall>a. a \<noteq> from \<and> a \<noteq> to \<longrightarrow> psp22_balance_of L d' a = psp22_balance_of L d a) \<and>
     psp22_total_supply L d' = psp22_total_supply L d)"

lemma psp22_mint_lawD:
  assumes "psp22_mint_law L" and "psp22_mint L to v d = Ok (d', evs)"
  shows "unat (psp22_balance_of L d' to) = unat (psp22_balance_of L d to) + unat v"
    and "a \<noteq> to \<Longrightarrow> psp22_balance_of L d' a = psp22_balance_of L d a"
    and "unat (psp22_total_supply L d') = unat (psp22_total_supply L d) + unat v"
  using assms unfolding psp22_mint_law_def by blast+

lemma psp22_burn_lawD:
  assumes "psp22_burn_law L" and "psp22_burn L from v d = Ok (d', evs)"
  shows "unat (psp22_balance_of L d from) = unat (psp22_balance_of L d' from) + unat v"
    and "a \<noteq> from \<Longrightarrow> psp22_balance_of L d' a = psp22_balance_of L d a"
    and "unat (psp22_total_supply L d) = unat (psp22_total_supply L d') + unat v"
  using assms unfolding psp22_burn_law_def by blast+

lemma psp22_transfer_from_lawD:
  assumes "psp22_transfer_from_law L" and "psp22_transfer_from L by from to v d = Ok (d', evs)"
    and "from \<noteq> to"
  shows "unat (psp22_balance_of L d from) = unat (psp22_balance_of L d' from) + unat v"
    and "unat (psp22_balance_of L d' to) = unat (psp22_balance_of L d to) + unat v"
    and "a \<noteq> from \<Longrightarrow> a \<noteq> to \<Longrightarrow> psp22_balance_of L d' a = psp22_balance_of L d a"
    and "psp22_total_supply L d' = psp22_total_supply L d"
  using assms unfolding psp22_transfer_from_law_def by blast+

section \<open>Storage and events\<close>

datatype token_event =
    Token_Approval account_id account_id u128
  | Token_Transfer "account_id option" "account_id option" u128
  | Token_TransferOwnershipInitiated account_id
  | Token_TransferOwnershipAccepted account_id

text \<open>\<open>token_events\<close> is the log of the events the contract has emitted.\<close>

record 'd token =
  token_data :: 'd
  token_ownable_data :: ownable2step_data
  token_name :: "string option"
  token_symbol :: "string option"
  token_decimals :: u8
  minter_burner :: account_id
  token_events :: "token_event list"

definition token_new ::
  "'d psp22_lib \<Rightarrow> call_env \<Rightarrow> u128 \<Rightarrow> string option \<Rightarrow> string option \<Rightarrow> u8 \<Rightarrow> account_id \<Rightarrow>
   'd token" where
  "token_new L env total_supply name symbol decimals minter_burner_account =
     \<lparr>token_data = psp22_new L total_supply (caller env),
      token_ownable_data = ownable_new (caller env),
      token_name = name, token_symbol = symbol, token_decimals = decimals,
      minter_burner = minter_burner_account, token_events = []\<rparr>"

fun token_event_of :: "psp22_event \<Rightarrow> token_event" where
  "token_event_of (Psp22_Transfer from to value) = Token_Transfer from to value"
| "token_event_of (Psp22_Approval owner_account spender amount) =
     Token_Approval owner_account spender amount"

fun token_emit_events :: "psp22_event list \<Rightarrow> 'd token \<Rightarrow> 'd token" where
  "token_emit_events [] t = t"
| "token_emit_events (event # events) t =
     token_emit_events events (t\<lparr>token_events := token_events t @ [token_event_of event]\<rparr>)"

lemma token_emit_events_eq:
  "token_emit_events evs t = t\<lparr>token_events := token_events t @ map token_event_of evs\<rparr>"
  by (induction evs arbitrary: t) simp_all

lemma token_emit_events_simps [simp]:
  "token_data (token_emit_events evs t) = token_data t"
  "token_ownable_data (token_emit_events evs t) = token_ownable_data t"
  "minter_burner (token_emit_events evs t) = minter_burner t"
  by (simp_all add: token_emit_events_eq)

section \<open>Roles\<close>

definition token_ownable_ensure_owner ::
  "call_env \<Rightarrow> 'd token \<Rightarrow> unit ownable2step_result" where
  "token_ownable_ensure_owner env t = ownable_ensure_owner (caller env) (token_ownable_data t)"

definition token_ensure_owner :: "call_env \<Rightarrow> 'd token \<Rightarrow> (unit, psp22_error) result" where
  "token_ensure_owner env t =
     map_err (\<lambda>_. PSP22_Custom ''Caller has to be the owner.'') (token_ownable_ensure_owner env t)"

definition token_set_minter_burner ::
  "call_env \<Rightarrow> account_id \<Rightarrow> 'd token \<Rightarrow> ('d token, psp22_error) result" where
  "token_set_minter_burner env new_minter_burner t =
     try_res (token_ensure_owner env t) (\<lambda>_. Ok (t\<lparr>minter_burner := new_minter_burner\<rparr>))"

definition token_minter :: "'d token \<Rightarrow> account_id" where
  "token_minter t = minter_burner t"

definition token_burner :: "'d token \<Rightarrow> account_id" where
  "token_burner t = minter_burner t"

definition token_ensure_minter :: "call_env \<Rightarrow> 'd token \<Rightarrow> (unit, psp22_error) result" where
  "token_ensure_minter env t =
     (if caller env \<noteq> token_minter t then Err (PSP22_Custom ''Caller has to be the minter.'')
      else Ok ())"

definition token_ensure_burner :: "call_env \<Rightarrow> 'd token \<Rightarrow> (unit, psp22_error) result" where
  "token_ensure_burner env t =
     (if caller env \<noteq> token_burner t then Err (PSP22_Custom ''Caller has to be the burner.'')
      else Ok ())"

section \<open>PSP22 messages\<close>

text \<open>
  \<open>token_apply\<close> is the shared tail of the PSP22 messages: store what the ledger operation
  left in \<^verbatim>\<open>self.data\<close>, emit its events, return \<^verbatim>\<open>Ok(())\<close>.
\<close>

definition token_apply :: "'d psp22_update \<Rightarrow> 'd token \<Rightarrow> ('d token, psp22_error) result" where
  "token_apply r t = try_res r (\<lambda>(d, events). Ok (token_emit_events events (t\<lparr>token_data := d\<rparr>)))"

definition token_total_supply :: "'d psp22_lib \<Rightarrow> 'd token \<Rightarrow> u128" where
  "token_total_supply L t = psp22_total_supply L (token_data t)"

definition token_balance_of :: "'d psp22_lib \<Rightarrow> 'd token \<Rightarrow> account_id \<Rightarrow> u128" where
  "token_balance_of L t who = psp22_balance_of L (token_data t) who"

definition token_allowance :: "'d psp22_lib \<Rightarrow> 'd token \<Rightarrow> account_id \<Rightarrow> account_id \<Rightarrow> u128" where
  "token_allowance L t who spender = psp22_allowance L (token_data t) who spender"

definition token_transfer ::
  "'d psp22_lib \<Rightarrow> call_env \<Rightarrow> account_id \<Rightarrow> u128 \<Rightarrow> 'd token \<Rightarrow> ('d token, psp22_error) result" where
  "token_transfer L env to value t =
     token_apply (psp22_transfer L (caller env) to value (token_data t)) t"

definition token_transfer_from ::
  "'d psp22_lib \<Rightarrow> call_env \<Rightarrow> account_id \<Rightarrow> account_id \<Rightarrow> u128 \<Rightarrow> 'd token \<Rightarrow>
   ('d token, psp22_error) result" where
  "token_transfer_from L env from to value t =
     token_apply (psp22_transfer_from L (caller env) from to value (token_data t)) t"

definition token_approve ::
  "'d psp22_lib \<Rightarrow> call_env \<Rightarrow> account_id \<Rightarrow> u128 \<Rightarrow> 'd token \<Rightarrow> ('d token, psp22_error) result" where
  "token_approve L env spender value t =
     token_apply (psp22_approve L (caller env) spender value (token_data t)) t"

definition token_increase_allowance ::
  "'d psp22_lib \<Rightarrow> call_env \<Rightarrow> account_id \<Rightarrow> u128 \<Rightarrow> 'd token \<Rightarrow> ('d token, psp22_error) result" where
  "token_increase_allowance L env spender delta_value t =
     token_apply (psp22_increase_allowance L (caller env) spender delta_value (token_data t)) t"

definition token_decrease_allowance ::
  "'d psp22_lib \<Rightarrow> call_env \<Rightarrow> account_id \<Rightarrow> u128 \<Rightarrow> 'd token \<Rightarrow> ('d token, psp22_error) result" where
  "token_decrease_allowance L env spender delta_value t =
     token_apply (psp22_decrease_allowance L (caller env) spender delta_value (token_data t)) t"

definition token_mint ::
  "'d psp22_lib \<Rightarrow> call_env \<Rightarrow> account_id \<Rightarrow> u128 \<Rightarrow> 'd token \<Rightarrow> ('d token, psp22_error) result" where
  "token_mint L env to value t =
     try_res (token_ensure_minter env t) (\<lambda>_. token_apply (psp22_mint L to value (token_data t)) t)"

definition token_burn ::
  "'d psp22_lib \<Rightarrow> call_env \<Rightarrow> u128 \<Rightarrow> 'd token \<Rightarrow> ('d token, psp22_error) result" where
  "token_burn L env value t =
     try_res (token_ensure_burner env t) (\<lambda>_.
       token_apply (psp22_burn L (caller env) value (token_data t)) t)"

section \<open>Ownership messages\<close>

definition token_get_owner :: "'d token \<Rightarrow> account_id ownable2step_result" where
  "token_get_owner t = ownable_get_owner (token_ownable_data t)"

definition token_get_pending_owner :: "'d token \<Rightarrow> account_id ownable2step_result" where
  "token_get_pending_owner t = ownable_get_pending_owner (token_ownable_data t)"

definition token_transfer_ownership ::
  "call_env \<Rightarrow> account_id \<Rightarrow> 'd token \<Rightarrow> 'd token ownable2step_result" where
  "token_transfer_ownership env new_owner t =
     try_res (ownable_transfer_ownership (caller env) new_owner (token_ownable_data t)) (\<lambda>d.
       Ok (t\<lparr>token_ownable_data := d,
             token_events := token_events t @ [Token_TransferOwnershipInitiated new_owner]\<rparr>))"

text \<open>The acceptance message emits the \<^emph>\<open>initiated\<close> event, as the source does.\<close>

definition token_accept_ownership :: "call_env \<Rightarrow> 'd token \<Rightarrow> 'd token ownable2step_result" where
  "token_accept_ownership env t =
     (let new_owner = caller env in
      try_res (ownable_accept_ownership new_owner (token_ownable_data t)) (\<lambda>d.
        Ok (t\<lparr>token_ownable_data := d,
              token_events := token_events t @ [Token_TransferOwnershipInitiated new_owner]\<rparr>)))"

lemmas token_ownable_defs =
  token_get_owner_def token_get_pending_owner_def token_transfer_ownership_def
  token_accept_ownership_def token_ownable_ensure_owner_def

interpretation own_token: ownable2step
  "\<lambda>_. True" token_get_owner token_get_pending_owner
  "\<lambda>c. token_transfer_ownership (env\<lparr>caller := c\<rparr>)"
  "\<lambda>c. token_accept_ownership (env\<lparr>caller := c\<rparr>)"
  "\<lambda>c. token_ownable_ensure_owner (env\<lparr>caller := c\<rparr>)" for env
  by unfold_locales
    (auto simp: token_ownable_defs ownable_defs Let_def split: option.splits)

section \<open>The token as a mintable and burnable ledger\<close>

text \<open>
  What the bridge relies on when it calls a token: the ledger changes through the library
  operation only, and only for the account that holds the role.
\<close>

lemma token_apply_Ok [result_elims]:
  "token_apply r t = Ok t' \<longleftrightarrow>
     (\<exists>d evs. r = Ok (d, evs) \<and> t' = token_emit_events evs (t\<lparr>token_data := d\<rparr>))"
  by (auto simp: token_apply_def result_elims)

lemma token_ensure_minter_Ok [result_elims]:
  "token_ensure_minter env t = Ok u \<longleftrightarrow> caller env = minter_burner t"
  by (auto simp: token_ensure_minter_def token_minter_def)

lemma token_ensure_burner_Ok [result_elims]:
  "token_ensure_burner env t = Ok u \<longleftrightarrow> caller env = minter_burner t"
  by (auto simp: token_ensure_burner_def token_burner_def)

lemma token_mint_Ok:
  assumes "psp22_mint_law L" and "token_mint L env to v t = Ok t'"
  shows "caller env = minter_burner t"
    and "unat (token_balance_of L t' to) = unat (token_balance_of L t to) + unat v"
    and "a \<noteq> to \<Longrightarrow> token_balance_of L t' a = token_balance_of L t a"
    and "unat (token_total_supply L t') = unat (token_total_supply L t) + unat v"
    and "minter_burner t' = minter_burner t"
  using assms
  by (auto simp: token_mint_def token_balance_of_def token_total_supply_def result_elims
      dest: psp22_mint_lawD)

lemma token_burn_Ok:
  assumes "psp22_burn_law L" and "token_burn L env v t = Ok t'"
  shows "caller env = minter_burner t"
    and "unat (token_balance_of L t (caller env)) = unat (token_balance_of L t' (caller env)) + unat v"
    and "a \<noteq> caller env \<Longrightarrow> token_balance_of L t' a = token_balance_of L t a"
    and "unat (token_total_supply L t) = unat (token_total_supply L t') + unat v"
    and "minter_burner t' = minter_burner t"
  using assms
  by (auto simp: token_burn_def token_balance_of_def token_total_supply_def result_elims
      dest: psp22_burn_lawD)

lemma token_transfer_from_Ok:
  assumes "psp22_transfer_from_law L" and "token_transfer_from L env from to v t = Ok t'"
    and "from \<noteq> to"
  shows "unat (token_balance_of L t from) = unat (token_balance_of L t' from) + unat v"
    and "unat (token_balance_of L t' to) = unat (token_balance_of L t to) + unat v"
    and "a \<noteq> from \<Longrightarrow> a \<noteq> to \<Longrightarrow> token_balance_of L t' a = token_balance_of L t a"
    and "token_total_supply L t' = token_total_supply L t"
    and "minter_burner t' = minter_burner t"
  using assms
  by (auto simp: token_transfer_from_def token_balance_of_def token_total_supply_def result_elims
      dest: psp22_transfer_from_lawD)

section \<open>The Mintable and Burnable traits as an interface\<close>

datatype supply_call = Mint_Call account_id account_id u128 | Burn_Call account_id u128

text \<open>
  \<^verbatim>\<open>Mintable\<close> and \<^verbatim>\<open>Burnable\<close> of \<^verbatim>\<open>psp22-traits\<close>, with the contract the bridge relies on: one
  account holds the role, everyone else is refused, and no supply call moves the role.
\<close>

locale supply_role =
  fixes minter :: "'t \<Rightarrow> account_id"
    and mint :: "account_id \<Rightarrow> account_id \<Rightarrow> u128 \<Rightarrow> 't \<Rightarrow> ('t, psp22_error) result"
    and burn :: "account_id \<Rightarrow> u128 \<Rightarrow> 't \<Rightarrow> ('t, psp22_error) result"
  assumes mint_refused: "c \<noteq> minter t \<Longrightarrow> \<exists>e. mint c to v t = Err e"
    and burn_refused: "c \<noteq> minter t \<Longrightarrow> \<exists>e. burn c v t = Err e"
    and mint_keeps_role: "mint c to v t = Ok t' \<Longrightarrow> minter t' = minter t"
    and burn_keeps_role: "burn c v t = Ok t' \<Longrightarrow> minter t' = minter t"
begin

definition run_supply :: "supply_call \<Rightarrow> 't \<Rightarrow> 't" where
  "run_supply k t = (case k of
      Mint_Call c to v \<Rightarrow> commit t (mint c to v t)
    | Burn_Call c v \<Rightarrow> commit t (burn c v t))"

lemma run_supply_refused:
  assumes "case k of Mint_Call c to v \<Rightarrow> c \<noteq> minter t | Burn_Call c v \<Rightarrow> c \<noteq> minter t"
  shows "run_supply k t = t"
proof (cases k)
  case (Mint_Call c to v)
  with assms mint_refused [of c t to v] show ?thesis by (auto simp: run_supply_def)
next
  case (Burn_Call c v)
  with assms burn_refused [of c t v] show ?thesis by (auto simp: run_supply_def)
qed

lemma minter_run_supply: "minter (run_supply k t) = minter t"
  by (cases k)
    (auto simp: run_supply_def intro: commit_preserves [where P = "\<lambda>t'. minter t' = minter t"]
      dest: mint_keeps_role burn_keeps_role)

lemma runs_supply_refused:
  assumes "\<forall>k \<in> set ks. case k of Mint_Call c to v \<Rightarrow> c \<noteq> minter t | Burn_Call c v \<Rightarrow> c \<noteq> minter t"
  shows "fold run_supply ks t = t"
  using assms by (induction ks) (auto simp: run_supply_refused)

lemma minter_runs_supply: "minter (fold run_supply ks t) = minter t"
  by (induction ks arbitrary: t) (simp_all add: minter_run_supply)

end

interpretation supply_token: supply_role
  token_minter
  "\<lambda>c. token_mint L (env\<lparr>caller := c\<rparr>)"
  "\<lambda>c. token_burn L (env\<lparr>caller := c\<rparr>)" for L env
  by unfold_locales
    (auto simp: token_mint_def token_burn_def token_ensure_minter_def token_ensure_burner_def
      token_minter_def token_burner_def result_elims)

end
