(* ===== verification/Gas_Oracle.thy ===== *)
theory Gas_Oracle
  imports Ownable2Step
begin

text \<open>
  The gas price oracle contract (\<^verbatim>\<open>azero/contracts/gas-price-oracle/contract\<close>) and its trait
  \<^verbatim>\<open>EthGasPriceOracle\<close>, as the interface the bridge calls.
\<close>

datatype oracle_error = Oracle_Ownable ownable2step_error | Oracle_InkEnvError string

datatype oracle_event =
    PriceUpdated u128 u64
  | Oracle_TransferOwnershipInitiated account_id
  | Oracle_TransferOwnershipAccepted account_id
  | ContractUpgraded bytes32

text \<open>
  The ghost fields hold what the environment records for the contract: the code hash set by
  an upgrade and the emitted events.
\<close>

record gas_oracle =
  oracle_ownable_data :: ownable2step_data
  last_update :: u64
  last_price :: u128
  reserved :: "unit option"
  oracle_code_hash :: bytes32
  oracle_events :: "oracle_event list"

definition oracle_new :: "call_env \<Rightarrow> bytes32 \<Rightarrow> account_id \<Rightarrow> u128 \<Rightarrow> gas_oracle" where
  "oracle_new env code owner_account init_price =
     \<lparr>oracle_ownable_data = ownable_new owner_account,
      last_update = block_timestamp env,
      last_price = init_price,
      reserved = None,
      oracle_code_hash = code,
      oracle_events = []\<rparr>"

definition oracle_ensure_owner :: "call_env \<Rightarrow> gas_oracle \<Rightarrow> unit ownable2step_result" where
  "oracle_ensure_owner env o' = ownable_ensure_owner (caller env) (oracle_ownable_data o')"

definition oracle_update_price ::
  "call_env \<Rightarrow> u128 \<Rightarrow> gas_oracle \<Rightarrow> (gas_oracle, oracle_error) result" where
  "oracle_update_price env new_price o' =
     try_res (map_err Oracle_Ownable (oracle_ensure_owner env o')) (\<lambda>_.
       let o1 = o'\<lparr>last_update := block_timestamp env, last_price := new_price\<rparr>
       in Ok (o1\<lparr>oracle_events := oracle_events o1 @ [PriceUpdated new_price (last_update o1)]\<rparr>))"

text \<open>\<^verbatim>\<open>set_code_hash\<close> is a host function; it either fails or replaces the code hash.\<close>

definition oracle_upgrade_contract ::
  "(bytes32 \<Rightarrow> (unit, ink_env_error) result) \<Rightarrow> call_env \<Rightarrow> bytes32 \<Rightarrow> gas_oracle \<Rightarrow>
   (gas_oracle, oracle_error) result" where
  "oracle_upgrade_contract set_code_hash env code_hash o' =
     try_res (map_err Oracle_Ownable (oracle_ensure_owner env o')) (\<lambda>_.
     try_res (map_err Oracle_InkEnvError (set_code_hash code_hash)) (\<lambda>_.
       Ok (o'\<lparr>oracle_code_hash := code_hash,
              oracle_events := oracle_events o' @ [ContractUpgraded code_hash]\<rparr>)))"

definition oracle_get_price :: "gas_oracle \<Rightarrow> u128 \<times> u64" where
  "oracle_get_price o' = (last_price o', last_update o')"

definition oracle_get_owner :: "gas_oracle \<Rightarrow> account_id ownable2step_result" where
  "oracle_get_owner o' = ownable_get_owner (oracle_ownable_data o')"

definition oracle_get_pending_owner :: "gas_oracle \<Rightarrow> account_id ownable2step_result" where
  "oracle_get_pending_owner o' = ownable_get_pending_owner (oracle_ownable_data o')"

definition oracle_transfer_ownership ::
  "call_env \<Rightarrow> account_id \<Rightarrow> gas_oracle \<Rightarrow> gas_oracle ownable2step_result" where
  "oracle_transfer_ownership env new_owner o' =
     try_res (ownable_transfer_ownership (caller env) new_owner (oracle_ownable_data o')) (\<lambda>d.
       Ok (o'\<lparr>oracle_ownable_data := d,
              oracle_events := oracle_events o' @ [Oracle_TransferOwnershipInitiated new_owner]\<rparr>))"

definition oracle_accept_ownership :: "call_env \<Rightarrow> gas_oracle \<Rightarrow> gas_oracle ownable2step_result" where
  "oracle_accept_ownership env o' =
     (let new_owner = caller env in
      try_res (ownable_accept_ownership new_owner (oracle_ownable_data o')) (\<lambda>d.
        Ok (o'\<lparr>oracle_ownable_data := d,
               oracle_events := oracle_events o' @ [Oracle_TransferOwnershipAccepted new_owner]\<rparr>)))"

lemmas oracle_ownable_defs =
  oracle_get_owner_def oracle_get_pending_owner_def oracle_transfer_ownership_def
  oracle_accept_ownership_def oracle_ensure_owner_def

interpretation own_oracle: ownable2step
  "\<lambda>_. True" oracle_get_owner oracle_get_pending_owner
  "\<lambda>c. oracle_transfer_ownership (env\<lparr>caller := c\<rparr>)"
  "\<lambda>c. oracle_accept_ownership (env\<lparr>caller := c\<rparr>)"
  "\<lambda>c. oracle_ensure_owner (env\<lparr>caller := c\<rparr>)" for env
  by unfold_locales
    (auto simp: oracle_ownable_defs ownable_defs Let_def split: option.splits)

lemma oracle_update_price_Ok:
  "oracle_update_price env p o' = Ok o'' \<longleftrightarrow>
     caller env = owner (oracle_ownable_data o') \<and>
     o'' = o'\<lparr>last_update := block_timestamp env, last_price := p,
             oracle_events := oracle_events o' @ [PriceUpdated p (block_timestamp env)]\<rparr>"
  by (auto simp: oracle_update_price_def oracle_ensure_owner_def result_elims Let_def)

end
