(* ===== verification/Shared_Hash.thy ===== *)
theory Shared_Hash
  imports Bridge_Prelude
begin

text \<open>
  The crate \<^verbatim>\<open>azero/contracts/shared\<close>: the hash that identifies a cross-chain transfer request.
  Keccak-256 is a host function and a parameter \<open>keccak\<close>; what is proved is about its input.
\<close>

text \<open>
  \<^verbatim>\<open>concat_u8_arrays\<close>, in \<^verbatim>\<open>shared/src/helpers.rs\<close> and, with the same body, in
  \<^verbatim>\<open>relayer/src/helpers.rs\<close>.
\<close>

definition concat_u8_arrays :: "u8 list list \<Rightarrow> u8 list" where
  "concat_u8_arrays arrays = foldl (\<lambda>result array. result @ array) [] arrays"

lemma concat_u8_arrays_eq: "concat_u8_arrays xss = concat xss"
proof -
  have "foldl (@) acc xss = acc @ concat xss" for acc
    by (induction xss arbitrary: acc) auto
  then show ?thesis by (simp add: concat_u8_arrays_def)
qed

definition keccak256 :: "(u8 list \<Rightarrow> bytes32) \<Rightarrow> u8 list \<Rightarrow> bytes32" where
  "keccak256 hash_bytes input = hash_bytes input"

definition request_data :: "u128 \<Rightarrow> account_id \<Rightarrow> u128 \<Rightarrow> account_id \<Rightarrow> u128 \<Rightarrow> u8 list" where
  "request_data committee token_address amount receiver_address nonce =
     concat [to_le_bytes committee, array_bytes token_address, to_le_bytes amount,
             array_bytes receiver_address, to_le_bytes nonce]"

definition hash_request_data ::
  "(u8 list \<Rightarrow> bytes32) \<Rightarrow> u128 \<Rightarrow> account_id \<Rightarrow> u128 \<Rightarrow> account_id \<Rightarrow> u128 \<Rightarrow> bytes32" where
  "hash_request_data keccak committee token_address amount receiver_address nonce =
     keccak256 keccak (request_data committee token_address amount receiver_address nonce)"

lemma length_request_data: "length (request_data c t a r n) = 112"
  by (simp add: request_data_def)

text \<open>The five fields have fixed widths, so the concatenation determines them.\<close>

lemma request_data_inject:
  "request_data c t a r n = request_data c' t' a' r' n' \<longleftrightarrow>
     c = c' \<and> t = t' \<and> a = a' \<and> r = r' \<and> n = n'"
  by (auto simp: request_data_def append_eq_append_conv)

lemma hash_request_data_collision:
  assumes "hash_request_data keccak c t a r n = hash_request_data keccak c' t' a' r' n'"
    and "(c, t, a, r, n) \<noteq> (c', t', a', r', n')"
  shows "request_data c t a r n \<noteq> request_data c' t' a' r' n' \<and>
         keccak (request_data c t a r n) = keccak (request_data c' t' a' r' n')"
  using assms by (auto simp: hash_request_data_def keccak256_def request_data_inject)

end
