(* ===== verification/Most_Contract.thy ===== *)
theory Most_Contract
  imports Token_Contract Gas_Oracle Shared_Hash
begin

text \<open>
  The bridge contract \<^verbatim>\<open>azero/contracts/most\<close>: its storage, every message, the helper functions,
  and the dispatch of a message by the contracts runtime.  A message that returns \<^verbatim>\<open>Err\<close> or
  traps leaves no change, so its model returns a new state on \<open>Ok\<close> only.

  Parameters: \<open>keccak\<close> (the Keccak-256 host function), \<open>L\<close> (the \<^verbatim>\<open>psp22\<close> crate) and \<open>R\<close>
  (the contracts runtime: native transfers, the gas limit of the oracle call, code upgrades).
  A contract built for wasm32 has a 32-bit \<^verbatim>\<open>usize\<close>, and the crate is built with overflow
  checks off, so a plain \<^verbatim>\<open>+\<close> on integers wraps.  \<^verbatim>\<open>Mapping::new()\<close> is a handle that carries
  no entries: with a \<^verbatim>\<open>ManualKey\<close> it reads and writes the cells already stored under that key.
\<close>

section \<open>Constants, events, errors\<close>

type_synonym committee_id = u128

definition GAS_ORACLE_MAX_AGE :: u64 where
  "GAS_ORACLE_MAX_AGE = 24 * 60 * 60 * 1000"

definition ORACLE_CALL_GAS_LIMIT :: u64 where
  "ORACLE_CALL_GAS_LIMIT = 2000000000"

definition BASE_FEE_BUFFER_PERCENTAGE :: u128 where
  "BASE_FEE_BUFFER_PERCENTAGE = 20"

definition ETH_ZERO_ADDRESS :: bytes32 where
  "ETH_ZERO_ADDRESS = 0"

text \<open>Fields in the order of the source's structs.\<close>

datatype most_event =
    CrosschainTransferRequest committee_id bytes32 u128 bytes32 u128
  | RequestProcessed bytes32 bytes32
  | RequestSigned bytes32 account_id
  | HaltedStateChanged bool bool account_id
  | SignedProcessedRequest bytes32 account_id
  | TransferOwnershipInitiated account_id
  | TransferOwnershipAccepted account_id
  | RequestAlreadySigned bytes32 account_id

datatype most_error =
    Constructor
  | InvalidThreshold
  | DuplicateCommitteeMember
  | ZeroTransferAmount
  | NotInCommittee
  | NoSuchCommittee
  | HashDoesNotMatchData
  | PSP22 psp22_error
  | Ownable ownable2step_error
  | UnsupportedPair
  | InkEnvError string
  | Error_RequestAlreadySigned
  | BaseFeeTooLow
  | Arithmetic
  | CorruptedStorage
  | IsHalted
  | HaltRequired
  | NoMintPermission
  | ZeroAddress

section \<open>Storage\<close>

record request =
  signature_count :: u128

definition default_request :: request where
  "default_request = \<lparr>signature_count = 0\<rparr>"

datatype request_status = Pending u32 | Processed | RequestHashNotKnown

record most_data =
  d_request_nonce :: u128
  d_committee_id :: committee_id
  d_pocket_money :: u128
  d_pocket_money_balance :: u128
  d_relay_gas_usage :: u128
  d_min_gas_price :: u128
  d_max_gas_price :: u128
  d_default_gas_price :: u128
  d_gas_price_oracle :: "account_id option"
  d_is_halted :: bool

text \<open>
  The \<^verbatim>\<open>Lazy\<close> cells are options (a cell may be absent or corrupt), each \<^verbatim>\<open>Mapping\<close> a map.  The
  last two fields are what the environment records: the code hash and the emitted events.
\<close>

record most =
  data_cell :: "most_data option"
  ownable_cell :: "ownable2step_data option"
  pending_requests :: "bytes32 \<rightharpoonup> request"
  signatures :: "(bytes32 \<times> account_id) \<rightharpoonup> unit"
  processed_requests :: "bytes32 \<rightharpoonup> unit"
  committees :: "(committee_id \<times> account_id) \<rightharpoonup> unit"
  committee_sizes :: "committee_id \<rightharpoonup> u128"
  signature_thresholds :: "committee_id \<rightharpoonup> u128"
  supported_pairs :: "bytes32 \<rightharpoonup> bytes32"
  collected_committee_rewards :: "committee_id \<rightharpoonup> u128"
  paid_out_member_rewards :: "(account_id \<times> committee_id) \<rightharpoonup> u128"
  most_code_hash :: bytes32
  most_events :: "most_event list"

text \<open>
  The part of the chain a message of the bridge can reach: its own storage, the token and
  oracle contracts by address, and the native balances.
\<close>

record 'd chain =
  bridge :: most
  tokens :: "account_id \<rightharpoonup> 'd token"
  oracles :: "account_id \<rightharpoonup> gas_oracle"
  native :: "account_id \<Rightarrow> u128"

record runtime =
  rt_transfer :: "(account_id \<Rightarrow> u128) \<Rightarrow> account_id \<Rightarrow> account_id \<Rightarrow> u128 \<Rightarrow>
                  (account_id \<Rightarrow> u128, ink_env_error) result"
  rt_completes :: "u64 \<Rightarrow> account_id \<Rightarrow> bool"
  rt_set_code_hash :: "bytes32 \<Rightarrow> (unit, ink_env_error) result"

definition emit_event :: "most_event \<Rightarrow> most \<Rightarrow> most" where
  "emit_event e m = m\<lparr>most_events := most_events m @ [e]\<rparr>"

section \<open>Reading the cells\<close>

definition read_data :: "most \<Rightarrow> (most_data, most_error) result" where
  "read_data m = ok_or (data_cell m) CorruptedStorage"

definition set_data :: "most_data \<Rightarrow> most \<Rightarrow> most" where
  "set_data d m = m\<lparr>data_cell := Some d\<rparr>"

definition read_ownable_data :: "most \<Rightarrow> ownable2step_data ownable2step_result" where
  "read_ownable_data m = ok_or (ownable_cell m) (Ownable_Custom ''CorruptedStorage'')"

definition is_halted :: "most \<Rightarrow> (bool, most_error) result" where
  "is_halted m = try_res (read_data m) (\<lambda>data. Ok (d_is_halted data))"

definition ensure_halted :: "most \<Rightarrow> (unit, most_error) result" where
  "ensure_halted m = try_res (is_halted m) (\<lambda>h. case h of True \<Rightarrow> Ok () | False \<Rightarrow> Err HaltRequired)"

definition ensure_not_halted :: "most \<Rightarrow> (unit, most_error) result" where
  "ensure_not_halted m = try_res (is_halted m) (\<lambda>h. case h of True \<Rightarrow> Err IsHalted | False \<Rightarrow> Ok ())"

definition ensure_owner :: "call_env \<Rightarrow> most \<Rightarrow> unit ownable2step_result" where
  "ensure_owner env m = try_res (read_ownable_data m) (ownable_ensure_owner (caller env))"

text \<open>\<^verbatim>\<open>self.ensure_owner()?\<close> inside a message that returns \<^verbatim>\<open>MostError\<close>.\<close>

definition owner_only :: "call_env \<Rightarrow> most \<Rightarrow> (unit, most_error) result" where
  "owner_only env m = map_err Ownable (ensure_owner env m)"

section \<open>Committee checks\<close>

definition has_duplicate :: "account_id list \<Rightarrow> bool" where
  "has_duplicate committee =
     list_ex (\<lambda>i. list_ex (\<lambda>j. committee ! i = committee ! j) [i + 1..<length committee])
             [0..<length committee]"

definition check_committee :: "account_id list \<Rightarrow> u128 \<Rightarrow> (unit, most_error) result" where
  "check_committee committee threshold =
     (if threshold = 0 \<or> length committee < unat (ucast threshold :: u32) then Err InvalidThreshold
      else if has_duplicate committee then Err DuplicateCommitteeMember
      else Ok ())"

definition insert_committee ::
  "committee_id \<Rightarrow> account_id list \<Rightarrow> ((committee_id \<times> account_id) \<rightharpoonup> unit) \<Rightarrow>
   ((committee_id \<times> account_id) \<rightharpoonup> unit)" where
  "insert_committee cid committee cs = foldl (\<lambda>cs account. cs((cid, account) \<mapsto> ())) cs committee"

definition most_new ::
  "bytes32 \<Rightarrow> account_id list \<Rightarrow> u128 \<Rightarrow> u128 \<Rightarrow> u128 \<Rightarrow> u128 \<Rightarrow> u128 \<Rightarrow> u128 \<Rightarrow> account_id option \<Rightarrow>
   account_id \<Rightarrow> (most, most_error) result" where
  "most_new code committee signature_threshold pocket_money relay_gas_usage min_gas_price
      max_gas_price default_gas_price gas_price_oracle owner_account =
     try_res (check_committee committee signature_threshold) (\<lambda>_.
     let cid = 0 in
     Ok \<lparr>data_cell = Some \<lparr>
           d_request_nonce = 0,
           d_committee_id = cid,
           d_pocket_money = pocket_money,
           d_pocket_money_balance = 0,
           d_relay_gas_usage = relay_gas_usage,
           d_min_gas_price = min_gas_price,
           d_max_gas_price = max_gas_price,
           d_default_gas_price = default_gas_price,
           d_gas_price_oracle = gas_price_oracle,
           d_is_halted = True\<rparr>,
         ownable_cell = Some (ownable_new owner_account),
         pending_requests = Map.empty,
         signatures = Map.empty,
         processed_requests = Map.empty,
         committees = insert_committee cid committee Map.empty,
         committee_sizes = [cid \<mapsto> of_nat (length committee)],
         signature_thresholds = [cid \<mapsto> signature_threshold],
         supported_pairs = Map.empty,
         collected_committee_rewards = Map.empty,
         paid_out_member_rewards = Map.empty,
         most_code_hash = code,
         most_events = []\<rparr>)"

section \<open>Getters\<close>

definition get_request_nonce :: "most \<Rightarrow> (u128, most_error) result" where
  "get_request_nonce m = try_res (read_data m) (\<lambda>data. Ok (d_request_nonce data))"

definition get_pocket_money :: "most \<Rightarrow> (u128, most_error) result" where
  "get_pocket_money m = try_res (read_data m) (\<lambda>data. Ok (d_pocket_money data))"

definition get_pocket_money_balance :: "most \<Rightarrow> (u128, most_error) result" where
  "get_pocket_money_balance m = try_res (read_data m) (\<lambda>data. Ok (d_pocket_money_balance data))"

definition get_current_committee_id :: "most \<Rightarrow> (u128, most_error) result" where
  "get_current_committee_id m = try_res (read_data m) (\<lambda>data. Ok (d_committee_id data))"

definition get_collected_committee_rewards :: "committee_id \<Rightarrow> most \<Rightarrow> u128" where
  "get_collected_committee_rewards cid m = unwrap_or (collected_committee_rewards m cid) 0"

definition get_paid_out_member_rewards :: "committee_id \<Rightarrow> account_id \<Rightarrow> most \<Rightarrow> u128" where
  "get_paid_out_member_rewards cid member m = unwrap_or (paid_out_member_rewards m (member, cid)) 0"

definition is_in_committee :: "committee_id \<Rightarrow> account_id \<Rightarrow> most \<Rightarrow> bool" where
  "is_in_committee cid account m = (committees m (cid, account) \<noteq> None)"

definition only_committee_member ::
  "committee_id \<Rightarrow> account_id \<Rightarrow> most \<Rightarrow> (unit, most_error) result" where
  "only_committee_member cid account m =
     (case is_in_committee cid account m of True \<Rightarrow> Ok () | False \<Rightarrow> Err NotInCommittee)"

definition get_outstanding_member_rewards ::
  "committee_id \<Rightarrow> account_id \<Rightarrow> most \<Rightarrow> (u128, most_error) result" where
  "get_outstanding_member_rewards cid member m =
     try_res (only_committee_member cid member m) (\<lambda>_.
     try_res (ok_or (committee_sizes m cid) NoSuchCommittee) (\<lambda>size.
     try_res (ok_or (checked_div (get_collected_committee_rewards cid m) size) Arithmetic) (\<lambda>total_amount.
     let collected_amount = get_paid_out_member_rewards cid member m in
     Ok (saturating_sub total_amount collected_amount))))"

definition request_status :: "bytes32 \<Rightarrow> most \<Rightarrow> request_status" where
  "request_status hashed_request m =
     (if processed_requests m hashed_request \<noteq> None then Processed
      else case pending_requests m hashed_request of
        Some r \<Rightarrow> Pending (ucast (signature_count r))
      | None \<Rightarrow> RequestHashNotKnown)"

text \<open>
  The oracle call: \<^verbatim>\<open>try_invoke\<close> with a gas limit either yields what \<^verbatim>\<open>get_price\<close> of the oracle
  contract at that address returns, or one of the failures the \<^verbatim>\<open>_\<close> arm collects.
\<close>

definition invoke_get_price :: "runtime \<Rightarrow> account_id \<Rightarrow> 'd chain \<Rightarrow> (u128 \<times> u64) option" where
  "invoke_get_price R address w =
     (case oracles w address of
        None \<Rightarrow> None
      | Some orc \<Rightarrow> if rt_completes R ORACLE_CALL_GAS_LIMIT address
                   then Some (oracle_get_price orc) else None)"

definition current_gas_price :: "runtime \<Rightarrow> call_env \<Rightarrow> most_data \<Rightarrow> 'd chain \<Rightarrow> u128" where
  "current_gas_price R env data w =
     (case d_gas_price_oracle data of
        Some gas_price_oracle_address \<Rightarrow>
          (case invoke_get_price R gas_price_oracle_address w of
             Some (gas_price, timestamp) \<Rightarrow>
               if timestamp + GAS_ORACLE_MAX_AGE < block_timestamp env then d_default_gas_price data
               else if gas_price < d_min_gas_price data then d_min_gas_price data
               else if gas_price > d_max_gas_price data then d_max_gas_price data
               else gas_price
           | None \<Rightarrow> d_default_gas_price data)
      | None \<Rightarrow> d_default_gas_price data)"

definition get_base_fee :: "runtime \<Rightarrow> call_env \<Rightarrow> 'd chain \<Rightarrow> (u128, most_error) result" where
  "get_base_fee R env w =
     try_res (read_data (bridge w)) (\<lambda>data.
     let gas_price = current_gas_price R env data w in
     try_res (ok_or (checked_mul gas_price (d_relay_gas_usage data)) Arithmetic) (\<lambda>cost.
     try_res (ok_or (checked_mul cost (100 + BASE_FEE_BUFFER_PERCENTAGE)) Arithmetic) (\<lambda>buffered.
     try_res (ok_or (checked_div buffered 100) Arithmetic) (\<lambda>base_fee.
     Ok base_fee))))"

section \<open>Calls to other contracts\<close>

definition call_token ::
  "account_id \<Rightarrow> ('d token \<Rightarrow> ('d token, psp22_error) result) \<Rightarrow> 'd chain \<Rightarrow>
   ('d chain, psp22_error) result" where
  "call_token token message w =
     (case tokens w token of
        None \<Rightarrow> Panic
      | Some t \<Rightarrow> map_ok (\<lambda>t'. w\<lparr>tokens := (tokens w)(token \<mapsto> t')\<rparr>) (message t))"

definition mint_to ::
  "'d psp22_lib \<Rightarrow> call_env \<Rightarrow> account_id \<Rightarrow> account_id \<Rightarrow> u128 \<Rightarrow> 'd chain \<Rightarrow>
   ('d chain, psp22_error) result" where
  "mint_to L env token to amount w = call_token token (token_mint L (callee_env env token) to amount) w"

definition burn_from ::
  "'d psp22_lib \<Rightarrow> call_env \<Rightarrow> account_id \<Rightarrow> account_id \<Rightarrow> u128 \<Rightarrow> 'd chain \<Rightarrow>
   ('d chain, psp22_error) result" where
  "burn_from L env token from amount w =
     try_res (call_token token
       (token_transfer_from L (callee_env env token) from (self_account env) amount) w)
     (call_token token (token_burn L (callee_env env token) amount))"

definition transfer_native ::
  "runtime \<Rightarrow> call_env \<Rightarrow> account_id \<Rightarrow> u128 \<Rightarrow> 'd chain \<Rightarrow> ('d chain, ink_env_error) result" where
  "transfer_native R env to amount w =
     map_ok (\<lambda>n. w\<lparr>native := n\<rparr>) (rt_transfer R (native w) (self_account env) to amount)"

definition on_bridge :: "(most \<Rightarrow> most) \<Rightarrow> 'd chain \<Rightarrow> 'd chain" where
  "on_bridge f w = w\<lparr>bridge := f (bridge w)\<rparr>"

section \<open>Sending and receiving requests\<close>

definition send_request ::
  "'d psp22_lib \<Rightarrow> runtime \<Rightarrow> call_env \<Rightarrow> bytes32 \<Rightarrow> u128 \<Rightarrow> bytes32 \<Rightarrow> 'd chain \<Rightarrow>
   ('d chain, most_error) result" where
  "send_request L R env src_token_address amount dest_receiver_address w =
     try_res (ensure_not_halted (bridge w)) (\<lambda>_.
     if dest_receiver_address = ETH_ZERO_ADDRESS then Err ZeroAddress
     else if amount = 0 then Err ZeroTransferAmount
     else
     try_res (read_data (bridge w)) (\<lambda>data.
     try_res (ok_or (supported_pairs (bridge w) src_token_address) UnsupportedPair) (\<lambda>dest_token_address.
     try_res (get_base_fee R env w) (\<lambda>current_base_fee.
     let transferred_fee = transferred_value env in
     if transferred_fee < current_base_fee then Err BaseFeeTooLow
     else
     let sender = caller env in
     \<comment> \<open>burn the psp22 tokens\<close>
     try_res (map_err PSP22 (burn_from L env src_token_address sender amount w)) (\<lambda>w.
     try_res (ok_or (checked_add
         (unwrap_or (collected_committee_rewards (bridge w) (d_committee_id data)) 0)
         current_base_fee) Arithmetic) (\<lambda>base_fee_total.
     let w = on_bridge (\<lambda>m. m\<lparr>collected_committee_rewards :=
               (collected_committee_rewards m)(d_committee_id data \<mapsto> base_fee_total)\<rparr>) w;
         nonce = d_request_nonce data in
     try_res (ok_or (checked_add nonce 1) Arithmetic) (\<lambda>next_nonce.
     let data = data\<lparr>d_request_nonce := next_nonce\<rparr>;
         w = on_bridge (set_data data) w in
     \<comment> \<open>return surplus if any\<close>
     try_res (case checked_sub transferred_fee current_base_fee of
           Some surplus \<Rightarrow>
             if surplus > 0 then map_err InkEnvError (transfer_native R env sender surplus w) else Ok w
         | None \<Rightarrow> Ok w) (\<lambda>w.
     Ok (on_bridge (emit_event (CrosschainTransferRequest (d_committee_id data) dest_token_address
           amount dest_receiver_address nonce)) w)))))))))"

text \<open>
  The code at the end of \<^verbatim>\<open>receive_request\<close>, once the vote has been counted.  The decremented
  pocket-money balance stays in the local \<^verbatim>\<open>data\<close>: the source does not write it back.
\<close>

definition execute_request ::
  "'d psp22_lib \<Rightarrow> runtime \<Rightarrow> call_env \<Rightarrow> bytes32 \<Rightarrow> bytes32 \<Rightarrow> u128 \<Rightarrow> bytes32 \<Rightarrow> most_data \<Rightarrow>
   'd chain \<Rightarrow> ('d chain, most_error) result" where
  "execute_request L R env request_hash dest_token_address amount dest_receiver_address data w =
     try_res (map_err PSP22 (mint_to L env dest_token_address dest_receiver_address amount w)) (\<lambda>w.
     \<comment> \<open>bootstrap account with pocket money\<close>
     try_res (if d_pocket_money_balance data \<ge> d_pocket_money data then
         \<comment> \<open>don't revert if the transfer fails\<close>
         try_res (ignore_err w (transfer_native R env dest_receiver_address (d_pocket_money data) w)) (\<lambda>w.
         try_res (ok_or (checked_sub (d_pocket_money_balance data) (d_pocket_money data)) Arithmetic)
           (\<lambda>balance. let data = data\<lparr>d_pocket_money_balance := balance\<rparr> in Ok w))
       else Ok w) (\<lambda>w.
     \<comment> \<open>mark it as processed\<close>
     Ok (on_bridge (\<lambda>m. emit_event (RequestProcessed request_hash dest_token_address)
           (m\<lparr>processed_requests := (processed_requests m)(request_hash \<mapsto> ()),
              pending_requests := (pending_requests m)(request_hash := None)\<rparr>)) w)))"

definition receive_request ::
  "(u8 list \<Rightarrow> bytes32) \<Rightarrow> 'd psp22_lib \<Rightarrow> runtime \<Rightarrow> call_env \<Rightarrow> bytes32 \<Rightarrow> committee_id \<Rightarrow> bytes32 \<Rightarrow>
   u128 \<Rightarrow> bytes32 \<Rightarrow> u128 \<Rightarrow> 'd chain \<Rightarrow> ('d chain, most_error) result" where
  "receive_request keccak L R env request_hash cid dest_token_address amount dest_receiver_address
      nonce w =
     try_res (ensure_not_halted (bridge w)) (\<lambda>_.
     let signer = caller env in
     try_res (only_committee_member cid signer (bridge w)) (\<lambda>_.
     try_res (read_data (bridge w)) (\<lambda>data.
     if processed_requests (bridge w) request_hash \<noteq> None then
       Ok (on_bridge (emit_event (SignedProcessedRequest request_hash signer)) w)
     else if signatures (bridge w) (request_hash, signer) \<noteq> None then
       Ok (on_bridge (emit_event (RequestAlreadySigned request_hash signer)) w)
     else
     let hash = hash_request_data keccak cid dest_token_address amount dest_receiver_address nonce in
     if request_hash \<noteq> hash then Err HashDoesNotMatchData
     else
     let request = unwrap_or (pending_requests (bridge w) request_hash) default_request in
     \<comment> \<open>record vote\<close>
     try_res (ok_or (checked_add (signature_count request) 1) Arithmetic) (\<lambda>count.
     let request = request\<lparr>signature_count := count\<rparr>;
         w = on_bridge (\<lambda>m. emit_event (RequestSigned request_hash signer)
               (m\<lparr>signatures := (signatures m)((request_hash, signer) \<mapsto> ())\<rparr>)) w in
     try_res (ok_or (signature_thresholds (bridge w) (d_committee_id data)) InvalidThreshold)
       (\<lambda>signature_threshold.
     if signature_count request \<ge> signature_threshold then
       execute_request L R env request_hash dest_token_address amount dest_receiver_address data w
     else
       Ok (on_bridge (\<lambda>m. m\<lparr>pending_requests := (pending_requests m)(request_hash \<mapsto> request)\<rparr>) w))))))"

section \<open>Rewards, funding, code\<close>

definition payout_rewards ::
  "runtime \<Rightarrow> call_env \<Rightarrow> committee_id \<Rightarrow> account_id \<Rightarrow> 'd chain \<Rightarrow> ('d chain, most_error) result" where
  "payout_rewards R env cid member w =
     try_res (ensure_not_halted (bridge w)) (\<lambda>_.
     let paid_out_rewards = get_paid_out_member_rewards cid member (bridge w) in
     try_res (get_outstanding_member_rewards cid member (bridge w)) (\<lambda>outstanding_rewards.
     if outstanding_rewards > 0 then
       try_res (map_err InkEnvError (transfer_native R env member outstanding_rewards w)) (\<lambda>w.
       try_res (ok_or (checked_add paid_out_rewards outstanding_rewards) Arithmetic) (\<lambda>total.
       Ok (on_bridge (\<lambda>m. m\<lparr>paid_out_member_rewards :=
             (paid_out_member_rewards m)((member, cid) \<mapsto> total)\<rparr>) w)))
     else Ok w))"

definition fund_pocket_money :: "call_env \<Rightarrow> most \<Rightarrow> (most, most_error) result" where
  "fund_pocket_money env m =
     (let funds = transferred_value env in
      try_res (read_data m) (\<lambda>data.
      try_res (ok_or (checked_add (d_pocket_money_balance data) funds) Arithmetic) (\<lambda>balance.
      Ok (set_data (data\<lparr>d_pocket_money_balance := balance\<rparr>) m))))"

definition set_code :: "runtime \<Rightarrow> call_env \<Rightarrow> bytes32 \<Rightarrow> most \<Rightarrow> (most, most_error) result" where
  "set_code R env code_hash m =
     try_res (owner_only env m) (\<lambda>_.
     try_res (map_err InkEnvError (rt_set_code_hash R code_hash)) (\<lambda>_.
     Ok (m\<lparr>most_code_hash := code_hash\<rparr>)))"

section \<open>Setters\<close>

definition remove_pair :: "call_env \<Rightarrow> bytes32 \<Rightarrow> most \<Rightarrow> (most, most_error) result" where
  "remove_pair env from m =
     try_res (owner_only env m) (\<lambda>_.
     try_res (ensure_halted m) (\<lambda>_.
     Ok (m\<lparr>supported_pairs := (supported_pairs m)(from := None)\<rparr>)))"

definition add_pair ::
  "call_env \<Rightarrow> bytes32 \<Rightarrow> bytes32 \<Rightarrow> 'd chain \<Rightarrow> ('d chain, most_error) result" where
  "add_pair env from to w =
     try_res (owner_only env (bridge w)) (\<lambda>_.
     try_res (ensure_halted (bridge w)) (\<lambda>_.
     case tokens w from of
       None \<Rightarrow> Panic
     | Some psp22 \<Rightarrow>
         if token_minter psp22 \<noteq> self_account env then Err NoMintPermission
         else Ok (on_bridge (\<lambda>m. m\<lparr>supported_pairs := (supported_pairs m)(from \<mapsto> to)\<rparr>) w)))"

definition set_gas_price_oracle ::
  "call_env \<Rightarrow> account_id \<Rightarrow> most \<Rightarrow> (most, most_error) result" where
  "set_gas_price_oracle env gas_price_oracle m =
     try_res (owner_only env m) (\<lambda>_.
     try_res (read_data m) (\<lambda>data.
     Ok (set_data (data\<lparr>d_gas_price_oracle := Some gas_price_oracle\<rparr>) m)))"

definition set_committee ::
  "call_env \<Rightarrow> account_id list \<Rightarrow> u128 \<Rightarrow> most \<Rightarrow> (most, most_error) result" where
  "set_committee env committee signature_threshold m =
     try_res (owner_only env m) (\<lambda>_.
     try_res (ensure_halted m) (\<lambda>_.
     try_res (check_committee committee signature_threshold) (\<lambda>_.
     try_res (read_data m) (\<lambda>data.
     let cid = d_committee_id data + 1;
         m = m\<lparr>committees := insert_committee cid committee (committees m)\<rparr>;
         data = data\<lparr>d_committee_id := cid\<rparr>;
         m = set_data data m in
     Ok (m\<lparr>signature_thresholds := (signature_thresholds m)(cid \<mapsto> signature_threshold)\<rparr>)))))"

definition set_halted :: "call_env \<Rightarrow> bool \<Rightarrow> most \<Rightarrow> (most, most_error) result" where
  "set_halted env new_state m =
     try_res (owner_only env m) (\<lambda>_.
     try_res (read_data m) (\<lambda>data.
     let previous_state = d_is_halted data in
     if new_state \<noteq> previous_state then
       Ok (emit_event (HaltedStateChanged previous_state new_state (caller env))
             (set_data (data\<lparr>d_is_halted := new_state\<rparr>) m))
     else Ok m))"

definition recover_psp22 ::
  "'d psp22_lib \<Rightarrow> call_env \<Rightarrow> account_id \<Rightarrow> account_id \<Rightarrow> u128 \<Rightarrow> 'd chain \<Rightarrow>
   ('d chain, most_error) result" where
  "recover_psp22 L env token receiver amount w =
     try_res (owner_only env (bridge w)) (\<lambda>_.
     map_err PSP22 (call_token token (token_transfer L (callee_env env token) receiver amount) w))"

definition recover_azero ::
  "runtime \<Rightarrow> call_env \<Rightarrow> account_id \<Rightarrow> u128 \<Rightarrow> 'd chain \<Rightarrow> ('d chain, most_error) result" where
  "recover_azero R env receiver amount w =
     try_res (owner_only env (bridge w)) (\<lambda>_.
     map_err InkEnvError (transfer_native R env receiver amount w))"

section \<open>Ownership messages\<close>

definition get_owner :: "most \<Rightarrow> account_id ownable2step_result" where
  "get_owner m = try_res (read_ownable_data m) ownable_get_owner"

definition get_pending_owner :: "most \<Rightarrow> account_id ownable2step_result" where
  "get_pending_owner m = try_res (read_ownable_data m) ownable_get_pending_owner"

definition transfer_ownership :: "call_env \<Rightarrow> account_id \<Rightarrow> most \<Rightarrow> most ownable2step_result" where
  "transfer_ownership env new_owner m =
     try_res (read_ownable_data m) (\<lambda>ownable_data.
     try_res (ownable_transfer_ownership (caller env) new_owner ownable_data) (\<lambda>ownable_data.
     Ok (emit_event (TransferOwnershipInitiated new_owner) (m\<lparr>ownable_cell := Some ownable_data\<rparr>))))"

definition accept_ownership :: "call_env \<Rightarrow> most \<Rightarrow> most ownable2step_result" where
  "accept_ownership env m =
     (let new_owner = caller env in
      try_res (read_ownable_data m) (\<lambda>ownable_data.
      try_res (ownable_accept_ownership new_owner ownable_data) (\<lambda>ownable_data.
      Ok (emit_event (TransferOwnershipAccepted new_owner) (m\<lparr>ownable_cell := Some ownable_data\<rparr>)))))"

section \<open>Dispatch\<close>

datatype most_msg =
    SendRequest bytes32 u128 bytes32
  | ReceiveRequest bytes32 committee_id bytes32 u128 bytes32 u128
  | PayoutRewards committee_id account_id
  | FundPocketMoney
  | SetCode bytes32
  | RemovePair bytes32
  | AddPair bytes32 bytes32
  | SetGasPriceOracle account_id
  | SetCommittee "account_id list" u128
  | SetHalted bool
  | RecoverPsp22 account_id account_id u128
  | RecoverAzero account_id u128
  | TransferOwnership account_id
  | AcceptOwnership

text \<open>The two messages marked \<^verbatim>\<open>payable\<close>; every other message traps when value is sent.\<close>

fun payable :: "most_msg \<Rightarrow> bool" where
  "payable (SendRequest s a r) = True"
| "payable FundPocketMoney = True"
| "payable _ = False"

definition lift_bridge :: "(most, 'e) result \<Rightarrow> 'd chain \<Rightarrow> ('d chain, 'e) result" where
  "lift_bridge r w = map_ok (\<lambda>m. w\<lparr>bridge := m\<rparr>) r"

fun run_message ::
  "(u8 list \<Rightarrow> bytes32) \<Rightarrow> 'd psp22_lib \<Rightarrow> runtime \<Rightarrow> call_env \<Rightarrow> most_msg \<Rightarrow> 'd chain \<Rightarrow>
   ('d chain, most_error) result" where
  "run_message K L R env (SendRequest s a r) w = send_request L R env s a r w"
| "run_message K L R env (ReceiveRequest h c t a r n) w = receive_request K L R env h c t a r n w"
| "run_message K L R env (PayoutRewards c a) w = payout_rewards R env c a w"
| "run_message K L R env FundPocketMoney w = lift_bridge (fund_pocket_money env (bridge w)) w"
| "run_message K L R env (SetCode h) w = lift_bridge (set_code R env h (bridge w)) w"
| "run_message K L R env (RemovePair f) w = lift_bridge (remove_pair env f (bridge w)) w"
| "run_message K L R env (AddPair f t) w = add_pair env f t w"
| "run_message K L R env (SetGasPriceOracle a) w = lift_bridge (set_gas_price_oracle env a (bridge w)) w"
| "run_message K L R env (SetCommittee c t) w = lift_bridge (set_committee env c t (bridge w)) w"
| "run_message K L R env (SetHalted b) w = lift_bridge (set_halted env b (bridge w)) w"
| "run_message K L R env (RecoverPsp22 t r a) w = recover_psp22 L env t r a w"
| "run_message K L R env (RecoverAzero r a) w = recover_azero R env r a w"
| "run_message K L R env (TransferOwnership n) w =
     lift_bridge (map_err Ownable (transfer_ownership env n (bridge w))) w"
| "run_message K L R env AcceptOwnership w =
     lift_bridge (map_err Ownable (accept_ownership env (bridge w))) w"

text \<open>
  A transaction: the runtime moves the sent value to the contract, the message runs, and on
  an error or a trap nothing of it remains.
\<close>

definition most_tx ::
  "(u8 list \<Rightarrow> bytes32) \<Rightarrow> 'd psp22_lib \<Rightarrow> runtime \<Rightarrow> call_env \<Rightarrow> most_msg \<Rightarrow> 'd chain \<Rightarrow> 'd chain" where
  "most_tx K L R env msg w = commit w
     (if transferred_value env = 0 then run_message K L R env msg w
      else if payable msg then
        try_res (map_err InkEnvError
          (rt_transfer R (native w) (caller env) (self_account env) (transferred_value env)))
          (\<lambda>n. run_message K L R env msg (w\<lparr>native := n\<rparr>))
      else Panic)"

end
