(* ===== verification/Most_Effects.thy ===== *)
theory Most_Effects
  imports Most_Contract
begin

text \<open>
  What each message of the bridge does to the bridge's own storage when it returns \<^verbatim>\<open>Ok\<close>:
  one characterisation per message, from which the invariants and the properties follow.
\<close>

lemma saturating_sub_eq_iff: "saturating_sub a b = c \<longleftrightarrow> unat c = unat a - unat b"
  by (metis unat_saturating_sub word_unat_eq_iff)

section \<open>Guards\<close>

lemma read_data_Ok [result_elims]: "read_data m = Ok d \<longleftrightarrow> data_cell m = Some d"
  by (simp add: read_data_def result_elims)

lemma ensure_not_halted_Ok [result_elims]:
  "ensure_not_halted m = Ok u \<longleftrightarrow> (\<exists>d. data_cell m = Some d \<and> \<not> d_is_halted d)"
  by (auto simp: ensure_not_halted_def is_halted_def result_elims split: bool.splits)

lemma ensure_halted_Ok [result_elims]:
  "ensure_halted m = Ok u \<longleftrightarrow> (\<exists>d. data_cell m = Some d \<and> d_is_halted d)"
  by (auto simp: ensure_halted_def is_halted_def result_elims split: bool.splits)

lemma owner_only_Ok [result_elims]:
  "owner_only env m = Ok u \<longleftrightarrow> (\<exists>d. ownable_cell m = Some d \<and> caller env = owner d)"
  by (auto simp: owner_only_def ensure_owner_def read_ownable_data_def result_elims)

lemma only_committee_member_Ok [result_elims]:
  "only_committee_member cid a m = Ok u \<longleftrightarrow> is_in_committee cid a m"
  by (auto simp: only_committee_member_def split: bool.splits)

lemma on_bridge_simps [simp]:
  "bridge (on_bridge f w) = f (bridge w)"
  "tokens (on_bridge f w) = tokens w"
  "oracles (on_bridge f w) = oracles w"
  "native (on_bridge f w) = native w"
  by (simp_all add: on_bridge_def)

section \<open>Calls that leave the bridge's storage alone\<close>

lemma call_token_bridge: "call_token a f w = Ok w' \<Longrightarrow> bridge w' = bridge w"
  by (auto simp: call_token_def result_elims split: option.splits)

lemma burn_from_bridge: "burn_from L env t from v w = Ok w' \<Longrightarrow> bridge w' = bridge w"
  by (auto simp: burn_from_def result_elims dest!: call_token_bridge)

lemma mint_to_bridge: "mint_to L env t to v w = Ok w' \<Longrightarrow> bridge w' = bridge w"
  by (auto simp: mint_to_def dest: call_token_bridge)

lemma transfer_native_bridge: "transfer_native R env to v w = Ok w' \<Longrightarrow> bridge w' = bridge w"
  by (auto simp: transfer_native_def result_elims)

lemma commit_transfer_native_bridge [simp]:
  "bridge (commit w (transfer_native R env to v w)) = bridge w"
  by (rule commit_preserves) (auto dest: transfer_native_bridge)

section \<open>Effects on the storage\<close>

lemma send_request_bridge:
  assumes "send_request L R env src amount dest w = Ok w'"
  obtains data to fee total nonce' where
    "data_cell (bridge w) = Some data" and "\<not> d_is_halted data"
    and "dest \<noteq> ETH_ZERO_ADDRESS" and "amount \<noteq> 0"
    and "supported_pairs (bridge w) src = Some to"
    and "get_base_fee R env w = Ok fee" and "fee \<le> transferred_value env"
    and "unat total = unat (get_collected_committee_rewards (d_committee_id data) (bridge w)) + unat fee"
    and "unat nonce' = unat (d_request_nonce data) + 1"
    and "bridge w' = (bridge w)\<lparr>
           data_cell := Some (data\<lparr>d_request_nonce := nonce'\<rparr>),
           collected_committee_rewards :=
             (collected_committee_rewards (bridge w))(d_committee_id data \<mapsto> total),
           most_events := most_events (bridge w) @
             [CrosschainTransferRequest (d_committee_id data) to amount dest (d_request_nonce data)]\<rparr>"
proof -
  have surplus: "bridge w2 = bridge w1"
    if "(case s of None \<Rightarrow> Ok w1
         | Some x \<Rightarrow> if 0 < x then map_err InkEnvError (transfer_native R env a x w1) else Ok w1) = Ok w2"
    for w1 w2 a s
    using that by (auto simp: result_elims split: option.splits if_splits dest: transfer_native_bridge)
  from assms show thesis
    unfolding send_request_def Let_def
    by (clarsimp simp: result_elims checked_arith split: if_splits)
      (drule burn_from_bridge, drule surplus, rule that,
       (simp add: set_data_def emit_event_def get_collected_committee_rewards_def)+)
qed

text \<open>The votes cast for a request, and one more of them.\<close>

definition signers :: "most \<Rightarrow> bytes32 \<Rightarrow> account_id set" where
  "signers m h = {a. signatures m (h, a) \<noteq> None}"

definition vote_count :: "most \<Rightarrow> bytes32 \<Rightarrow> u128" where
  "vote_count m h = signature_count (unwrap_or (pending_requests m h) default_request)"

definition signed :: "bytes32 \<Rightarrow> account_id \<Rightarrow> most \<Rightarrow> most" where
  "signed h a m = emit_event (RequestSigned h a) (m\<lparr>signatures := (signatures m)((h, a) \<mapsto> ())\<rparr>)"

definition processed :: "bytes32 \<Rightarrow> bytes32 \<Rightarrow> most \<Rightarrow> most" where
  "processed h t m = emit_event (RequestProcessed h t)
     (m\<lparr>processed_requests := (processed_requests m)(h \<mapsto> ()),
        pending_requests := (pending_requests m)(h := None)\<rparr>)"

lemma request_update [simp]: "req\<lparr>signature_count := c\<rparr> = \<lparr>signature_count = c\<rparr>"
  by simp

lemma execute_request_bridge:
  assumes "execute_request L R env h t amount r data w = Ok w'"
  shows "bridge w' = processed h t (bridge w)"
  using assms
  by (auto simp: execute_request_def processed_def result_elims Let_def split: if_splits
      dest!: mint_to_bridge)

lemma receive_request_cases:
  assumes "receive_request K L R env h cid t amount r n w = Ok w'"
  obtains
    (processed) data where
      "data_cell (bridge w) = Some data" and "\<not> d_is_halted data"
      and "is_in_committee cid (caller env) (bridge w)"
      and "processed_requests (bridge w) h \<noteq> None"
      and "w' = on_bridge (emit_event (SignedProcessedRequest h (caller env))) w"
  | (repeated) data where
      "data_cell (bridge w) = Some data" and "\<not> d_is_halted data"
      and "is_in_committee cid (caller env) (bridge w)"
      and "processed_requests (bridge w) h = None" and "signatures (bridge w) (h, caller env) \<noteq> None"
      and "w' = on_bridge (emit_event (RequestAlreadySigned h (caller env))) w"
  | (counted) data count threshold where
      "data_cell (bridge w) = Some data" and "\<not> d_is_halted data"
      and "is_in_committee cid (caller env) (bridge w)"
      and "processed_requests (bridge w) h = None" and "signatures (bridge w) (h, caller env) = None"
      and "h = hash_request_data K cid t amount r n"
      and "signature_thresholds (bridge w) (d_committee_id data) = Some threshold"
      and "unat count = unat (vote_count (bridge w) h) + 1" and "count < threshold"
      and "w' = on_bridge (\<lambda>m. (signed h (caller env) m)\<lparr>
             pending_requests := (pending_requests m)(h \<mapsto> \<lparr>signature_count = count\<rparr>)\<rparr>) w"
  | (executed) data count threshold where
      "data_cell (bridge w) = Some data" and "\<not> d_is_halted data"
      and "is_in_committee cid (caller env) (bridge w)"
      and "processed_requests (bridge w) h = None" and "signatures (bridge w) (h, caller env) = None"
      and "h = hash_request_data K cid t amount r n"
      and "signature_thresholds (bridge w) (d_committee_id data) = Some threshold"
      and "unat count = unat (vote_count (bridge w) h) + 1" and "threshold \<le> count"
      and "execute_request L R env h t amount r data (on_bridge (signed h (caller env)) w) = Ok w'"
      and "bridge w' = processed h t (signed h (caller env) (bridge w))"
proof -
  from assms obtain data where
    d: "data_cell (bridge w) = Some data" "\<not> d_is_halted data"
      "is_in_committee cid (caller env) (bridge w)"
    by (auto simp: receive_request_def result_elims Let_def)
  consider (a) "processed_requests (bridge w) h \<noteq> None"
    | (b) "processed_requests (bridge w) h = None" "signatures (bridge w) (h, caller env) \<noteq> None"
    | (c) "processed_requests (bridge w) h = None" "signatures (bridge w) (h, caller env) = None"
    by blast
  then show thesis
  proof cases
    case a
    with assms d show thesis
      by (intro processed [of data]) (auto simp: receive_request_def result_elims Let_def)
  next
    case b
    with assms d show thesis
      by (intro repeated [of data]) (auto simp: receive_request_def result_elims Let_def)
  next
    case c
    with assms d obtain count threshold where
      h: "h = hash_request_data K cid t amount r n"
      and thr: "signature_thresholds (bridge w) (d_committee_id data) = Some threshold"
      and count: "unat count = unat (vote_count (bridge w) h) + 1"
      and fin: "(if threshold \<le> count
          then execute_request L R env h t amount r data (on_bridge (signed h (caller env)) w)
          else Ok (on_bridge (\<lambda>m. m\<lparr>pending_requests := (pending_requests m)(h \<mapsto>
                 (unwrap_or (pending_requests (bridge w) h) default_request)\<lparr>signature_count := count\<rparr>)\<rparr>)
               (on_bridge (signed h (caller env)) w))) = Ok w'"
      by (auto simp: receive_request_def result_elims Let_def checked_arith vote_count_def
          signed_def [abs_def] emit_event_def split: if_splits)
    show thesis
    proof (cases "threshold \<le> count")
      case True
      with fin have e: "execute_request L R env h t amount r data
          (on_bridge (signed h (caller env)) w) = Ok w'" by simp
      from execute_request_bridge [OF e] have "bridge w' = processed h t (signed h (caller env) (bridge w))"
        by simp
      with d c h thr count True e show thesis by (intro executed [of data threshold count])
    next
      case False
      with fin have "w' = on_bridge (\<lambda>m. (signed h (caller env) m)\<lparr>
             pending_requests := (pending_requests m)(h \<mapsto> \<lparr>signature_count = count\<rparr>)\<rparr>) w"
        by (simp add: on_bridge_def signed_def emit_event_def)
      with d c h thr count False show thesis by (intro counted [of data threshold count]) auto
    qed
  qed
qed

lemma outstanding_Ok:
  "get_outstanding_member_rewards cid a m = Ok out \<longleftrightarrow>
     is_in_committee cid a m \<and> (\<exists>size. committee_sizes m cid = Some size \<and> size \<noteq> 0 \<and>
       unat out = unat (get_collected_committee_rewards cid m) div unat size
                - unat (get_paid_out_member_rewards cid a m))"
  by (auto simp: get_outstanding_member_rewards_def result_elims checked_arith Let_def
      saturating_sub_eq_iff unat_div)

lemma payout_rewards_bridge:
  assumes "payout_rewards R env cid a w = Ok w'"
  obtains (nothing) "bridge w' = bridge w"
  | (paid) out total where
      "get_outstanding_member_rewards cid a (bridge w) = Ok out" and "0 < out"
      and "unat total = unat (get_paid_out_member_rewards cid a (bridge w)) + unat out"
      and "bridge w' = (bridge w)\<lparr>paid_out_member_rewards :=
             (paid_out_member_rewards (bridge w))((a, cid) \<mapsto> total)\<rparr>"
proof -
  from assms obtain out where
    out: "get_outstanding_member_rewards cid a (bridge w) = Ok out" and
    rest: "(if 0 < out then
       try_res (map_err InkEnvError (transfer_native R env a out w)) (\<lambda>w1.
       try_res (ok_or (checked_add (get_paid_out_member_rewards cid a (bridge w)) out) Arithmetic) (\<lambda>total.
       Ok (on_bridge (\<lambda>m. m\<lparr>paid_out_member_rewards :=
             (paid_out_member_rewards m)((a, cid) \<mapsto> total)\<rparr>) w1)))
     else Ok w) = Ok w'"
    unfolding payout_rewards_def Let_def by (auto simp: try_res_Ok)
  show thesis
  proof (cases "0 < out")
    case True
    with rest obtain w1 total where
      "transfer_native R env a out w = Ok w1"
      "unat total = unat (get_paid_out_member_rewards cid a (bridge w)) + unat out"
      "w' = on_bridge (\<lambda>m. m\<lparr>paid_out_member_rewards :=
             (paid_out_member_rewards m)((a, cid) \<mapsto> total)\<rparr>) w1"
      by (auto simp: result_elims checked_arith)
    with True out show thesis by (intro paid [of out total]) (simp_all add: transfer_native_bridge)
  next
    case False
    with rest have "bridge w' = bridge w" by simp
    then show thesis by (rule nothing)
  qed
qed

section \<open>The effects as one step relation\<close>

text \<open>
  Seen from the storage, a message that succeeds does one of six things.  \<open>eff_other\<close> covers
  every message that leaves the votes, the committees and the rewards alone: it may rewrite
  configuration, pairs, owner or code, and emit events that concern none of them.
\<close>

definition same_books :: "most \<Rightarrow> most \<Rightarrow> bool" where
  "same_books m m' \<longleftrightarrow>
     pending_requests m' = pending_requests m \<and> signatures m' = signatures m \<and>
     processed_requests m' = processed_requests m \<and> committees m' = committees m \<and>
     committee_sizes m' = committee_sizes m \<and> signature_thresholds m' = signature_thresholds m \<and>
     collected_committee_rewards m' = collected_committee_rewards m \<and>
     paid_out_member_rewards m' = paid_out_member_rewards m"

fun neutral_event :: "most_event \<Rightarrow> bool" where
  "neutral_event (CrosschainTransferRequest c t a r n) = False"
| "neutral_event (RequestProcessed h t) = False"
| "neutral_event (RequestSigned h a) = False"
| "neutral_event _ = True"

inductive bridge_effect :: "(u8 list \<Rightarrow> bytes32) \<Rightarrow> most \<Rightarrow> most \<Rightarrow> bool"
  for K :: "u8 list \<Rightarrow> bytes32" where
  eff_other:
    "data_cell m = Some d \<Longrightarrow> data_cell m' = Some d' \<Longrightarrow>
     d_request_nonce d' = d_request_nonce d \<Longrightarrow> d_committee_id d' = d_committee_id d \<Longrightarrow>
     ownable_cell m = None \<or> ownable_cell m' \<noteq> None \<Longrightarrow> same_books m m' \<Longrightarrow>
     most_events m' = most_events m @ es \<Longrightarrow> list_all neutral_event es \<Longrightarrow> bridge_effect K m m'"
| eff_sent:
    "data_cell m = Some d \<Longrightarrow>
     unat tot = unat (get_collected_committee_rewards (d_committee_id d) m) + unat (fee :: u128) \<Longrightarrow>
     unat nonce' = unat (d_request_nonce d) + 1 \<Longrightarrow>
     bridge_effect K m (m\<lparr>
       data_cell := Some (d\<lparr>d_request_nonce := nonce'\<rparr>),
       collected_committee_rewards := (collected_committee_rewards m)(d_committee_id d \<mapsto> tot),
       most_events := most_events m @
         [CrosschainTransferRequest (d_committee_id d) t amount r (d_request_nonce d)]\<rparr>)"
| eff_counted:
    "is_in_committee cid a m \<Longrightarrow> h = hash_request_data K cid t amount r n \<Longrightarrow>
     processed_requests m h = None \<Longrightarrow> signatures m (h, a) = None \<Longrightarrow>
     unat count = unat (vote_count m h) + 1 \<Longrightarrow>
     data_cell m = Some d \<Longrightarrow> signature_thresholds m (d_committee_id d) = Some threshold \<Longrightarrow> count < threshold \<Longrightarrow>
     bridge_effect K m ((signed h a m)\<lparr>
       pending_requests := (pending_requests m)(h \<mapsto> \<lparr>signature_count = count\<rparr>)\<rparr>)"
| eff_executed:
    "is_in_committee cid a m \<Longrightarrow> h = hash_request_data K cid t amount r n \<Longrightarrow>
     processed_requests m h = None \<Longrightarrow> signatures m (h, a) = None \<Longrightarrow>
     unat count = unat (vote_count m h) + 1 \<Longrightarrow>
     signature_thresholds m c = Some threshold \<Longrightarrow> threshold \<le> count \<Longrightarrow>
     bridge_effect K m (processed h t (signed h a m))"
| eff_paid:
    "get_outstanding_member_rewards cid a m = Ok out \<Longrightarrow> 0 < out \<Longrightarrow>
     unat tot = unat (get_paid_out_member_rewards cid a m) + unat out \<Longrightarrow>
     bridge_effect K m (m\<lparr>paid_out_member_rewards :=
       (paid_out_member_rewards m)((a, cid) \<mapsto> tot)\<rparr>)"
| eff_committee:
    "data_cell m = Some d \<Longrightarrow> check_committee committee threshold = Ok u \<Longrightarrow>
     cid = d_committee_id d + 1 \<Longrightarrow>
     bridge_effect K m (m\<lparr>
       committees := insert_committee cid committee (committees m),
       data_cell := Some (d\<lparr>d_committee_id := cid\<rparr>),
       signature_thresholds := (signature_thresholds m)(cid \<mapsto> threshold)\<rparr>)"

lemmas message_defs =
  fund_pocket_money_def set_code_def remove_pair_def add_pair_def set_gas_price_oracle_def
  set_halted_def recover_psp22_def recover_azero_def transfer_ownership_def accept_ownership_def

lemma bridge_effect_refl:
  "data_cell m = Some d \<Longrightarrow> bridge_effect K m m"
  by (rule eff_other [where es = "[]"]) (auto simp: same_books_def)

lemma receive_request_effect:
  assumes "receive_request K L R env h cid t amount r n w = Ok w'"
  shows "bridge_effect K (bridge w) (bridge w')"
  using assms
proof (cases rule: receive_request_cases)
  case (processed data)
  then show ?thesis
    by (intro eff_other [of _ data _ data]) (auto simp: emit_event_def same_books_def)
next
  case (repeated data)
  then show ?thesis
    by (intro eff_other [of _ data _ data]) (auto simp: emit_event_def same_books_def)
next
  case (counted data count threshold)
  then show ?thesis by (auto intro: eff_counted)
next
  case (executed data count threshold)
  then show ?thesis by (auto intro: eff_executed)
qed

lemma run_message_effect:
  assumes "run_message K L R env msg w = Ok w'" and d: "data_cell (bridge w) = Some d"
  shows "bridge_effect K (bridge w) (bridge w')"
proof (cases msg)
  case (SendRequest s a r)
  with assms have "send_request L R env s a r w = Ok w'" by simp
  then show ?thesis by (rule send_request_bridge) (auto intro: eff_sent)
next
  case (ReceiveRequest h c t a r n)
  with assms have "receive_request K L R env h c t a r n w = Ok w'" by simp
  then show ?thesis by (rule receive_request_effect)
next
  case (PayoutRewards c a)
  with assms have "payout_rewards R env c a w = Ok w'" by simp
  then show ?thesis
    by (cases rule: payout_rewards_bridge) (auto intro: eff_paid bridge_effect_refl [OF d])
next
  case (SetCommittee c t)
  with assms obtain u where "check_committee c t = Ok u" and "bridge w' = (bridge w)\<lparr>
       committees := insert_committee (d_committee_id d + 1) c (committees (bridge w)),
       data_cell := Some (d\<lparr>d_committee_id := d_committee_id d + 1\<rparr>),
       signature_thresholds := (signature_thresholds (bridge w))(d_committee_id d + 1 \<mapsto> t)\<rparr>"
    by (auto simp: set_committee_def lift_bridge_def result_elims set_data_def Let_def)
  then show ?thesis using d by (auto intro: eff_committee)
next
  case FundPocketMoney
  with assms show ?thesis
    by (auto simp: message_defs lift_bridge_def result_elims set_data_def same_books_def Let_def
        intro!: eff_other [where es = "[]"])
next
  case (SetCode h)
  with assms show ?thesis
    by (auto simp: message_defs lift_bridge_def result_elims same_books_def
        intro!: eff_other [where es = "[]"])
next
  case (RemovePair f)
  with assms show ?thesis
    by (auto simp: message_defs lift_bridge_def result_elims same_books_def
        intro!: eff_other [where es = "[]"])
next
  case (AddPair f t)
  with assms show ?thesis
    by (auto simp: message_defs result_elims same_books_def split: option.splits if_splits
        intro!: eff_other [where es = "[]"])
next
  case (SetGasPriceOracle a)
  with assms show ?thesis
    by (auto simp: message_defs lift_bridge_def result_elims set_data_def same_books_def
        intro!: eff_other [where es = "[]"])
next
  case (SetHalted b)
  with assms consider "bridge w' = bridge w" | "bridge w' =
      emit_event (HaltedStateChanged (d_is_halted d) b (caller env))
        (set_data (d\<lparr>d_is_halted := b\<rparr>) (bridge w))"
    by (auto simp: message_defs lift_bridge_def result_elims Let_def split: if_splits)
  then show ?thesis
  proof cases
    case 1
    with bridge_effect_refl [OF d] show ?thesis by simp
  next
    case 2
    with d show ?thesis
      by (auto simp: set_data_def emit_event_def same_books_def
          intro!: eff_other [where es = "[HaltedStateChanged (d_is_halted d) b (caller env)]"])
  qed
next
  case (RecoverPsp22 t r a)
  with assms have "bridge w' = bridge w"
    by (auto simp: message_defs result_elims dest: call_token_bridge)
  with bridge_effect_refl [OF d] show ?thesis by simp
next
  case (RecoverAzero r a)
  with assms have "bridge w' = bridge w"
    by (auto simp: message_defs result_elims dest: transfer_native_bridge)
  with bridge_effect_refl [OF d] show ?thesis by simp
next
  case (TransferOwnership n)
  with assms show ?thesis
    by (auto simp: message_defs lift_bridge_def result_elims emit_event_def same_books_def
        intro!: eff_other [where es = "[TransferOwnershipInitiated n]"])
next
  case AcceptOwnership
  with assms show ?thesis
    by (auto simp: message_defs lift_bridge_def result_elims emit_event_def same_books_def Let_def
        intro!: eff_other [where es = "[TransferOwnershipAccepted (caller env)]"])
qed

text \<open>A transaction reverts, or runs its message after the value has been moved.\<close>

lemma most_tx_cases:
  obtains (reverted) "most_tx K L R env msg w = w"
  | (ran) n where "run_message K L R env msg (w\<lparr>native := n\<rparr>) = Ok (most_tx K L R env msg w)"
proof -
  let ?run = "if transferred_value env = 0 then run_message K L R env msg w
      else if payable msg then
        try_res (map_err InkEnvError
          (rt_transfer R (native w) (caller env) (self_account env) (transferred_value env)))
          (\<lambda>n. run_message K L R env msg (w\<lparr>native := n\<rparr>))
      else Panic"
  show thesis
  proof (cases "?run")
    case (Ok w')
    then have "most_tx K L R env msg w = w'" by (simp add: most_tx_def)
    moreover from Ok obtain n where "run_message K L R env msg (w\<lparr>native := n\<rparr>) = Ok w' \<or> run_message K L R env msg w = Ok w'"
      by (auto simp: result_elims split: if_splits)
    moreover have "w\<lparr>native := native w\<rparr> = w" by simp
    ultimately show thesis using ran by metis
  qed (use reverted in \<open>simp_all add: most_tx_def\<close>)
qed

lemma most_tx_effect:
  assumes "data_cell (bridge w) = Some d"
  shows "bridge_effect K (bridge w) (bridge (most_tx K L R env msg w))"
proof (cases rule: most_tx_cases [of K L R env msg w])
  case reverted
  then show ?thesis using bridge_effect_refl [OF assms] by simp
next
  case (ran n)
  then show ?thesis using run_message_effect [OF ran] assms by simp
qed

section \<open>The bridge implements the ownership trait\<close>

lemmas most_ownable_defs =
  get_owner_def get_pending_owner_def transfer_ownership_def accept_ownership_def ensure_owner_def
  read_ownable_data_def

interpretation own_most: ownable2step
  "\<lambda>m. ownable_cell m \<noteq> None" get_owner get_pending_owner
  "\<lambda>c. transfer_ownership (env\<lparr>caller := c\<rparr>)"
  "\<lambda>c. accept_ownership (env\<lparr>caller := c\<rparr>)"
  "\<lambda>c. ensure_owner (env\<lparr>caller := c\<rparr>)" for env
  by unfold_locales
    (auto simp: most_ownable_defs ownable_defs emit_event_def Let_def split: option.splits if_splits)

end
