(* ===== verification/Most_Invariants.thy ===== *)
theory Most_Invariants
  imports Most_Effects
begin

text \<open>
  The invariants of the bridge's storage, each kept by every effect, and the states the
  contract can reach: deployment, then any transactions of any callers under any behaviour of
  the runtime and of the token library, interleaved with arbitrary changes of the rest of the
  chain.
\<close>

section \<open>Reading the event log\<close>

definition sent_nonces :: "most_event list \<Rightarrow> nat list" where
  "sent_nonces es = concat (map (\<lambda>e. case e of CrosschainTransferRequest c t a r n \<Rightarrow> [unat n] | _ \<Rightarrow> []) es)"

definition processed_log :: "most_event list \<Rightarrow> bytes32 list" where
  "processed_log es = concat (map (\<lambda>e. case e of RequestProcessed h t \<Rightarrow> [h] | _ \<Rightarrow> []) es)"

definition signed_log :: "most_event list \<Rightarrow> (bytes32 \<times> account_id) list" where
  "signed_log es = concat (map (\<lambda>e. case e of RequestSigned h a \<Rightarrow> [(h, a)] | _ \<Rightarrow> []) es)"

lemmas log_defs = sent_nonces_def processed_log_def signed_log_def

lemma logs_append [simp]:
  "sent_nonces (xs @ ys) = sent_nonces xs @ sent_nonces ys"
  "processed_log (xs @ ys) = processed_log xs @ processed_log ys"
  "signed_log (xs @ ys) = signed_log xs @ signed_log ys"
  by (simp_all add: log_defs)

lemma logs_neutral:
  assumes "list_all neutral_event es"
  shows "sent_nonces es = []" and "processed_log es = []" and "signed_log es = []"
  using assms by (induction es) (auto simp: log_defs split: most_event.splits)

lemma logs_Cons [simp]:
  "sent_nonces (e # es) =
     (case e of CrosschainTransferRequest c t a r n \<Rightarrow> [unat n] | _ \<Rightarrow> []) @ sent_nonces es"
  "processed_log (e # es) = (case e of RequestProcessed h t \<Rightarrow> [h] | _ \<Rightarrow> []) @ processed_log es"
  "signed_log (e # es) = (case e of RequestSigned h a \<Rightarrow> [(h, a)] | _ \<Rightarrow> []) @ signed_log es"
  "sent_nonces [] = []" "processed_log [] = []" "signed_log [] = []"
  by (simp_all add: log_defs)

section \<open>Committees\<close>

lemma has_duplicate_iff: "has_duplicate xs \<longleftrightarrow> \<not> distinct xs"
proof
  assume "has_duplicate xs"
  then obtain i j where "i < j" "j < length xs" "xs ! i = xs ! j"
    by (auto simp: has_duplicate_def list_ex_iff Suc_le_eq)
  then show "\<not> distinct xs"
    using nth_eq_iff_index_eq [of xs i j] by auto
next
  assume "\<not> distinct xs"
  then obtain i j where ij: "i < length xs" "j < length xs" "i \<noteq> j" "xs ! i = xs ! j"
    by (auto simp: distinct_conv_nth)
  define k l where "k = min i j" and "l = max i j"
  with ij have "k < l" "l < length xs" "xs ! k = xs ! l"
    by (auto simp: min_def max_def)
  then have "k \<in> set [0..<length xs]" "l \<in> set [k + 1..<length xs]" "xs ! k = xs ! l"
    by auto
  then show "has_duplicate xs"
    unfolding has_duplicate_def list_ex_iff by blast
qed

lemma check_committee_Ok [result_elims]:
  "check_committee committee threshold = Ok u \<longleftrightarrow>
     threshold \<noteq> 0 \<and> unat (ucast threshold :: u32) \<le> length committee \<and> distinct committee"
  by (auto simp: check_committee_def has_duplicate_iff)

lemma insert_committee_eq:
  "insert_committee cid xs cs k =
     (if fst k = cid \<and> snd k \<in> set xs then Some () else cs k)"
  unfolding insert_committee_def by (induction xs arbitrary: cs) (auto simp: prod_eq_iff)

definition members :: "committee_id \<Rightarrow> most \<Rightarrow> account_id set" where
  "members cid m = {a. committees m (cid, a) \<noteq> None}"

lemma is_in_committee_members: "is_in_committee cid a m \<longleftrightarrow> a \<in> members cid m"
  by (simp add: is_in_committee_def members_def)

section \<open>The invariants\<close>

text \<open>
  Votes: the counter of a pending request is the number of accounts that signed it; a request
  without counter and not processed has no signature; every signer belonged to the committee
  named in the data whose hash was signed; a processed request has as many signers as some
  committee's non-zero threshold.
\<close>

definition vote_inv :: "(u8 list \<Rightarrow> bytes32) \<Rightarrow> most \<Rightarrow> bool" where
  "vote_inv K m \<longleftrightarrow>
     finite (dom (signatures m)) \<and>
     (\<forall>h req. pending_requests m h = Some req \<longrightarrow>
        unat (signature_count req) = card (signers m h) \<and> processed_requests m h = None) \<and>
     (\<forall>h. pending_requests m h = None \<longrightarrow> processed_requests m h = None \<longrightarrow> signers m h = {}) \<and>
     (\<forall>h a. a \<in> signers m h \<longrightarrow>
        (\<exists>cid t amount r n. h = hash_request_data K cid t amount r n \<and> a \<in> members cid m)) \<and>
     (\<forall>h. processed_requests m h \<noteq> None \<longrightarrow>
        (\<exists>c threshold. signature_thresholds m c = Some threshold \<and> threshold \<noteq> 0 \<and>
           unat threshold \<le> card (signers m h)))"

text \<open>Logs: every vote and every execution is announced exactly once; nonces count up from 0.\<close>

definition log_inv :: "most \<Rightarrow> bool" where
  "log_inv m \<longleftrightarrow>
     distinct (processed_log (most_events m)) \<and>
     set (processed_log (most_events m)) = dom (processed_requests m) \<and>
     distinct (signed_log (most_events m)) \<and>
     set (signed_log (most_events m)) = dom (signatures m)"

definition nonce_inv :: "most \<Rightarrow> bool" where
  "nonce_inv m \<longleftrightarrow> (\<exists>d. data_cell m = Some d \<and>
     sent_nonces (most_events m) = [0..<unat (d_request_nonce d)])"

text \<open>
  Committees: none beyond the current id exists, every id up to it has a non-zero threshold,
  and only the first committee has a recorded size, which is its number of members.
\<close>

definition committee_inv :: "most \<Rightarrow> bool" where
  "committee_inv m \<longleftrightarrow> (\<exists>d. data_cell m = Some d \<and>
     (\<forall>c a. committees m (c, a) \<noteq> None \<longrightarrow> c \<le> d_committee_id d) \<and>
     (\<forall>c. (\<exists>threshold. signature_thresholds m c = Some threshold \<and> threshold \<noteq> 0) \<longleftrightarrow>
          c \<le> d_committee_id d) \<and>
     (\<forall>c threshold. signature_thresholds m c = Some threshold \<longrightarrow> threshold \<noteq> 0) \<and>
     (\<exists>s. committee_sizes m = [0 \<mapsto> s] \<and> finite (members 0 m) \<and> card (members 0 m) = unat s))"

text \<open>Rewards: nobody outside a committee was paid, and nobody more than an equal share.\<close>

definition reward_inv :: "most \<Rightarrow> bool" where
  "reward_inv m \<longleftrightarrow> (\<forall>a c p. paid_out_member_rewards m (a, c) = Some p \<longrightarrow>
     a \<in> members c m \<and> (\<exists>s. committee_sizes m c = Some s \<and> s \<noteq> 0 \<and>
        unat p \<le> unat (get_collected_committee_rewards c m) div unat s))"

definition bridge_inv :: "(u8 list \<Rightarrow> bytes32) \<Rightarrow> most \<Rightarrow> bool" where
  "bridge_inv K m \<longleftrightarrow> vote_inv K m \<and> log_inv m \<and> nonce_inv m \<and> committee_inv m \<and> reward_inv m \<and>
     ownable_cell m \<noteq> None"

section \<open>Each effect keeps each invariant\<close>

lemma finite_signers: "finite (dom (signatures m)) \<Longrightarrow> finite (signers m h)"
  unfolding signers_def
  by (rule finite_subset [OF _ finite_imageI [of "dom (signatures m)" snd]]) (force simp: dom_def image_iff)+

lemma same_books_views:
  assumes "same_books m m'"
  shows "signers m' = signers m" and "members c m' = members c m"
    and "get_collected_committee_rewards c m' = get_collected_committee_rewards c m"
  using assms
  by (auto simp: same_books_def signers_def [abs_def] members_def get_collected_committee_rewards_def)

lemma signed_simps [simp]:
  "pending_requests (signed h a m) = pending_requests m"
  "processed_requests (signed h a m) = processed_requests m"
  "signatures (signed h a m) = (signatures m)((h, a) \<mapsto> ())"
  "committees (signed h a m) = committees m"
  "committee_sizes (signed h a m) = committee_sizes m"
  "signature_thresholds (signed h a m) = signature_thresholds m"
  "collected_committee_rewards (signed h a m) = collected_committee_rewards m"
  "paid_out_member_rewards (signed h a m) = paid_out_member_rewards m"
  "data_cell (signed h a m) = data_cell m"
  "ownable_cell (signed h a m) = ownable_cell m"
  "most_events (signed h a m) = most_events m @ [RequestSigned h a]"
  by (simp_all add: signed_def emit_event_def)

lemma processed_simps [simp]:
  "pending_requests (processed h t m) = (pending_requests m)(h := None)"
  "processed_requests (processed h t m) = (processed_requests m)(h \<mapsto> ())"
  "signatures (processed h t m) = signatures m"
  "committees (processed h t m) = committees m"
  "committee_sizes (processed h t m) = committee_sizes m"
  "signature_thresholds (processed h t m) = signature_thresholds m"
  "collected_committee_rewards (processed h t m) = collected_committee_rewards m"
  "paid_out_member_rewards (processed h t m) = paid_out_member_rewards m"
  "data_cell (processed h t m) = data_cell m"
  "ownable_cell (processed h t m) = ownable_cell m"
  "most_events (processed h t m) = most_events m @ [RequestProcessed h t]"
  by (simp_all add: processed_def emit_event_def)

lemma signers_signed: "signers (signed h a m) h' = (if h' = h then insert a (signers m h) else signers m h')"
  by (auto simp: signers_def)

lemma signers_update [simp]:
  "signers (m\<lparr>pending_requests := p\<rparr>) = signers m"
  "signers (processed h t m) = signers m"
  "members c (m\<lparr>pending_requests := p\<rparr>) = members c m"
  "members c (processed h t m) = members c m"
  "members c (signed h a m) = members c m"
  by (auto simp: signers_def [abs_def] members_def)

text \<open>The counter the code reads is the number of votes so far.\<close>

lemma vote_count_card:
  assumes "vote_inv K m" and "processed_requests m h = None"
  shows "unat (vote_count m h) = card (signers m h)"
  using assms unfolding vote_inv_def vote_count_def
  by (cases "pending_requests m h") (auto simp: default_request_def)

lemma card_new_signer:
  assumes inv: "vote_inv K m" and "processed_requests m h = None" and new: "signatures m (h, a) = None"
    and count: "unat count = unat (vote_count m h) + 1"
  shows "card (insert a (signers m h)) = unat count"
proof -
  have "finite (signers m h)" using inv by (auto simp: vote_inv_def intro: finite_signers)
  moreover have "a \<notin> signers m h" using new by (simp add: signers_def)
  ultimately show ?thesis using count vote_count_card [OF inv assms(2)] by simp
qed

text \<open>
  The id of the committee is incremented with a wrapping addition.  A run of fewer than
  \<open>2 ^ 128 - 1\<close> committee changes stays below the wrap-around.
\<close>

definition id_headroom :: "most \<Rightarrow> bool" where
  "id_headroom m = (case data_cell m of Some d \<Rightarrow> d_committee_id d \<noteq> - 1 | None \<Rightarrow> False)"

lemma word_Suc_fresh:
  fixes c :: "'a::len word"
  assumes "c \<noteq> - 1"
  shows "c < c + 1" and "x \<le> c + 1 \<longleftrightarrow> x \<le> c \<or> x = c + 1"
proof -
  have "unat (c + 1) = Suc (unat c)"
    using assms by (simp add: unatSuc word_neq_0_conv eq_neg_iff_add_eq_0 add.commute)
  then show "c < c + 1" and "x \<le> c + 1 \<longleftrightarrow> x \<le> c \<or> x = c + 1"
    by (auto simp: word_less_nat_alt word_le_nat_alt word_unat_eq_iff)
qed

lemma committee_inv_effect:
  assumes "bridge_effect K m m'" and "committee_inv m" and "id_headroom m"
  shows "committee_inv m'"
  using assms
proof (induction rule: bridge_effect.induct)
  case (eff_other m d m' d' es)
  then show ?case
    by (auto simp: committee_inv_def same_books_views) (auto simp: same_books_def)
next
  case (eff_committee m d committee threshold u cid)
  from eff_committee have top: "d_committee_id d \<noteq> - 1"
    by (simp add: id_headroom_def)
  note fresh = word_Suc_fresh [OF top]
  have thr: "threshold \<noteq> 0" using eff_committee by (simp add: result_elims)
  have zero: "(0 :: committee_id) \<noteq> cid"
    using eff_committee(3) top by (auto simp: eq_neg_iff_add_eq_0 add.commute)
  let ?m' = "m\<lparr>committees := insert_committee cid committee (committees m),
       data_cell := Some (d\<lparr>d_committee_id := cid\<rparr>),
       signature_thresholds := (signature_thresholds m)(cid \<mapsto> threshold)\<rparr>"
  have "members 0 ?m' = members 0 m"
    using zero by (auto simp: members_def insert_committee_eq)
  then show ?case
    using eff_committee fresh thr zero
    by (fastforce simp: committee_inv_def insert_committee_eq split: if_splits)
qed (auto simp: committee_inv_def members_def)

lemma nonce_inv_effect:
  "bridge_effect K m m' \<Longrightarrow> nonce_inv m \<Longrightarrow> nonce_inv m'"
  by (induction rule: bridge_effect.induct) (auto simp: nonce_inv_def logs_neutral)

lemma log_inv_effect:
  "bridge_effect K m m' \<Longrightarrow> log_inv m \<Longrightarrow> log_inv m'"
  by (induction rule: bridge_effect.induct)
    (auto simp: log_inv_def logs_neutral same_books_def)

lemma reward_inv_effect:
  assumes "bridge_effect K m m'" and "reward_inv m"
  shows "reward_inv m'"
  using assms
proof (induction rule: bridge_effect.induct)
  case (eff_other m d m' d' es)
  then show ?case
    by (simp add: reward_inv_def same_books_views) (simp add: same_books_def)
next
  case (eff_sent m d tot fee nonce' t amount r)
  have mono: "unat (get_collected_committee_rewards (d_committee_id d) m) div s \<le> unat tot div s" for s
    using eff_sent(2) by (simp add: div_le_mono)
  from eff_sent(4) show ?case
    by (fastforce simp: reward_inv_def members_def get_collected_committee_rewards_def
        intro: le_trans mono [unfolded get_collected_committee_rewards_def])
next
  case (eff_paid cid a m out tot)
  then obtain s where s: "committee_sizes m cid = Some s" "s \<noteq> 0" "a \<in> members cid m"
    "unat out = unat (get_collected_committee_rewards cid m) div unat s
       - unat (get_paid_out_member_rewards cid a m)"
    by (auto simp: outstanding_Ok is_in_committee_members)
  then have "unat tot \<le> unat (get_collected_committee_rewards cid m) div unat s"
    using eff_paid(2,3) by (simp add: word_less_nat_alt)
  with s eff_paid(4) show ?case
    by (auto simp: reward_inv_def members_def get_collected_committee_rewards_def)
next
  case (eff_committee m d committee threshold u cid)
  then show ?case
    by (fastforce simp: reward_inv_def members_def get_collected_committee_rewards_def
        insert_committee_eq)
qed (auto simp: reward_inv_def get_collected_committee_rewards_def)

lemma vote_inv_counted:
  assumes inv: "vote_inv K m" and a: "a \<in> members cid m" and h: "h = hash_request_data K cid t amount r n"
    and np: "processed_requests m h = None" and ns: "signatures m (h, a) = None"
    and count: "unat count = unat (vote_count m h) + 1"
  shows "vote_inv K ((signed h a m)\<lparr>
           pending_requests := (pending_requests m)(h \<mapsto> \<lparr>signature_count = count\<rparr>)\<rparr>)"
  using inv a h np card_new_signer [OF inv np ns count]
  by (fastforce simp: vote_inv_def signers_signed)

lemma vote_inv_executed:
  assumes inv: "vote_inv K m" and a: "a \<in> members cid m" and h: "h = hash_request_data K cid t amount r n"
    and np: "processed_requests m h = None" and ns: "signatures m (h, a) = None"
    and count: "unat count = unat (vote_count m h) + 1"
    and thr: "signature_thresholds m c = Some threshold" "threshold \<noteq> 0" "threshold \<le> count"
  shows "vote_inv K (processed h t (signed h a m))"
proof -
  have "unat threshold \<le> card (insert a (signers m h))"
    using card_new_signer [OF inv np ns count] thr(3) by (simp add: word_le_nat_alt)
  with inv a h np thr(1,2) show ?thesis
    by (fastforce simp: vote_inv_def signers_signed)
qed

lemma vote_inv_mono:
  assumes inv: "vote_inv K m"
    and same: "pending_requests m' = pending_requests m" "signatures m' = signatures m"
      "processed_requests m' = processed_requests m"
    and members: "\<And>c. members c m \<subseteq> members c m'"
    and thresholds: "\<And>c t. signature_thresholds m c = Some t \<Longrightarrow> signature_thresholds m' c = Some t"
  shows "vote_inv K m'"
proof -
  have [simp]: "signers m' = signers m" using same by (simp add: signers_def [abs_def])
  have "\<exists>cid t amount r n. h = hash_request_data K cid t amount r n \<and> a \<in> members cid m'"
    if "a \<in> signers m h" for h a
    using inv that members unfolding vote_inv_def by (meson subsetD)
  moreover have "\<exists>c threshold. signature_thresholds m' c = Some threshold \<and> threshold \<noteq> 0 \<and>
      unat threshold \<le> card (signers m h)" if "processed_requests m h \<noteq> None" for h
    using inv that thresholds unfolding vote_inv_def by meson
  ultimately show ?thesis
    using inv unfolding vote_inv_def by (simp add: same)
qed

lemma vote_inv_effect:
  assumes "bridge_effect K m m'" and "vote_inv K m" and "committee_inv m" and "id_headroom m"
  shows "vote_inv K m'"
  using assms
proof (induction rule: bridge_effect.induct)
  case (eff_other m d m' d' es)
  show ?case
    by (rule vote_inv_mono [of K m m']) (use eff_other in \<open>auto simp: same_books_def members_def\<close>)
next
  case (eff_counted cid a m h t amount r n count d threshold)
  then show ?case by (intro vote_inv_counted) (auto simp: is_in_committee_members)
next
  case (eff_executed cid a m h t amount r n count c threshold)
  then have "threshold \<noteq> 0" by (auto simp: committee_inv_def)
  with eff_executed show ?case
    by (intro vote_inv_executed) (auto simp: is_in_committee_members)
next
  case (eff_committee m d committee threshold u cid)
  from eff_committee have top: "d_committee_id d \<noteq> - 1"
    by (simp add: id_headroom_def)
  have "\<not> cid \<le> d_committee_id d"
    using word_Suc_fresh(1) [OF top] eff_committee(3) by simp
  then have "signature_thresholds m cid = None"
    using eff_committee(1,5) by (cases "signature_thresholds m cid") (auto simp: committee_inv_def)
  then show ?case
    by (intro vote_inv_mono [OF eff_committee(4)]) (auto simp: members_def insert_committee_eq)
next
  case (eff_sent m d tot fee nonce' t amount r)
  show ?case
    by (rule vote_inv_mono [of K m]) (use eff_sent in \<open>auto simp: members_def\<close>)
next
  case (eff_paid cid a m out tot)
  show ?case
    by (rule vote_inv_mono [of K m]) (use eff_paid in \<open>auto simp: members_def\<close>)
qed

lemma ownable_effect:
  "bridge_effect K m m' \<Longrightarrow> ownable_cell m \<noteq> None \<Longrightarrow> ownable_cell m' \<noteq> None"
  by (induction rule: bridge_effect.induct) auto

theorem bridge_inv_effect:
  assumes "bridge_effect K m m'" and "bridge_inv K m" and "id_headroom m"
  shows "bridge_inv K m'"
  using assms vote_inv_effect committee_inv_effect log_inv_effect nonce_inv_effect reward_inv_effect
    ownable_effect
  unfolding bridge_inv_def by blast

section \<open>Reachable states\<close>

text \<open>
  A committee list is a \<^verbatim>\<open>Vec\<close> on a 32-bit target, so it has fewer than \<open>2 ^ 32\<close> entries.
\<close>

inductive reachable :: "(u8 list \<Rightarrow> bytes32) \<Rightarrow> 'd chain \<Rightarrow> bool"
  for K :: "u8 list \<Rightarrow> bytes32" where
  deployed:
    "most_new code committee threshold pocket usage pmin pmax pdefault orc who = Ok (bridge w) \<Longrightarrow>
     length committee < 2 ^ 32 \<Longrightarrow> reachable K w"
| transaction:
    "reachable K w \<Longrightarrow> id_headroom (bridge w) \<Longrightarrow> reachable K (most_tx K L R env msg w)"
| elsewhere:
    "reachable K w \<Longrightarrow> bridge w' = bridge w \<Longrightarrow> reachable K w'"

lemma bridge_inv_new:
  assumes "most_new code committee threshold pocket usage pmin pmax pdefault orc who = Ok m"
    and "length committee < 2 ^ 32"
  shows "bridge_inv K m"
proof -
  from assms(1) have ck: "threshold \<noteq> 0" "distinct committee"
    by (auto simp: most_new_def result_elims)
  have m: "pending_requests m = Map.empty" "signatures m = Map.empty"
    "processed_requests m = Map.empty" "committees m = insert_committee 0 committee Map.empty"
    "committee_sizes m = [0 \<mapsto> of_nat (length committee)]" "signature_thresholds m = [0 \<mapsto> threshold]"
    "paid_out_member_rewards m = Map.empty" "most_events m = []" "ownable_cell m \<noteq> None"
    "\<exists>d. data_cell m = Some d \<and> d_request_nonce d = 0 \<and> d_committee_id d = 0"
    using assms(1) by (auto simp: most_new_def result_elims Let_def)
  have "members 0 m = set committee"
    using m by (auto simp: members_def insert_committee_eq)
  moreover have "unat (of_nat (length committee) :: u128) = length committee"
    using assms(2) by (simp add: unat_of_nat)
  ultimately have "finite (members 0 m)" "card (members 0 m) = unat (of_nat (length committee) :: u128)"
    using ck by (simp_all add: distinct_card)
  with m ck show ?thesis
    by (auto simp: bridge_inv_def vote_inv_def log_inv_def nonce_inv_def committee_inv_def
        reward_inv_def signers_def insert_committee_eq split: if_splits)
qed

theorem reachable_inv: "reachable K w \<Longrightarrow> bridge_inv K (bridge w)"
proof (induction rule: reachable.induct)
  case (deployed code committee threshold pocket usage pmin pmax pdefault orc who w)
  then show ?case by (rule bridge_inv_new)
next
  case (transaction w L R env msg)
  then obtain d where "data_cell (bridge w) = Some d"
    by (auto simp: id_headroom_def split: option.splits)
  from most_tx_effect [OF this] transaction show ?case by (blast intro: bridge_inv_effect)
qed simp

section \<open>Storage errors\<close>

text \<open>
  The errors that report an unreadable cell.  With both cells written, no message returns one of them.
\<close>

fun storage_error :: "most_error \<Rightarrow> bool" where
  "storage_error CorruptedStorage = True"
| "storage_error (Ownable e) = (e = Ownable_Custom ''CorruptedStorage'')"
| "storage_error _ = False"

text \<open>A result that is no storage error; the predicate goes through every construct of the messages.\<close>

definition storage_sound :: "('a, most_error) result \<Rightarrow> bool" where
  "storage_sound x \<longleftrightarrow> (\<forall>e. x = Err e \<longrightarrow> \<not> storage_error e)"

lemma storage_sound_simps [simp]:
  "storage_sound (Ok a)" "storage_sound Panic" "storage_sound (Err e) \<longleftrightarrow> \<not> storage_error e"
  "storage_sound (try_res m k) \<longleftrightarrow> storage_sound m \<and> (\<forall>a. m = Ok a \<longrightarrow> storage_sound (k a))"
  "storage_sound (ok_or x e) \<longleftrightarrow> (x = None \<longrightarrow> \<not> storage_error e)"
  "storage_sound (map_err PSP22 y)" "storage_sound (map_err InkEnvError z)" "storage_sound (ignore_err s v)"
  "storage_sound (lift_bridge r w) = storage_sound r"
  by (auto simp: storage_sound_def result_errors lift_bridge_def) (cases r; simp)

lemma sound_checks:
  "data_cell m \<noteq> None \<Longrightarrow> storage_sound (ensure_halted m)" "data_cell m \<noteq> None \<Longrightarrow> storage_sound (ensure_not_halted m)"
  "data_cell m \<noteq> None \<Longrightarrow> storage_sound (read_data m)" "ownable_cell m \<noteq> None \<Longrightarrow> storage_sound (owner_only env m)"
  "storage_sound (only_committee_member c a m)" "storage_sound (check_committee cs q)"
  "storage_sound (get_outstanding_member_rewards c a m)"
  "data_cell (bridge w) \<noteq> None \<Longrightarrow> storage_sound (get_base_fee R env w)"
  by (auto simp: ensure_halted_def ensure_not_halted_def is_halted_def read_data_def only_committee_member_def
      check_committee_def get_outstanding_member_rewards_def get_base_fee_def Let_def split: bool.splits)
     (auto simp: owner_only_def ensure_owner_def read_ownable_data_def ownable_ensure_owner_def storage_sound_def result_errors)

lemma sound_ownership:
  assumes "ownable_cell m \<noteq> None"
  shows "storage_sound (map_err Ownable (transfer_ownership env n m))" "storage_sound (map_err Ownable (accept_ownership env m))"
  using assms by (auto simp: most_ownable_defs ownable_defs storage_sound_def result_errors Let_def split: option.splits if_splits)

lemma sound_messages:
  assumes "data_cell (bridge w) \<noteq> None" and "ownable_cell (bridge w) \<noteq> None"
  shows "storage_sound (run_message K L R env msg w)"
  using assms
  by (cases msg)
     (auto simp: message_defs send_request_def receive_request_def execute_request_def payout_rewards_def set_committee_def
       sound_checks sound_ownership Let_def simp del: transfer_ownership_def accept_ownership_def split: option.splits)

end
