(* ===== verification/Sample_Chain.thy ===== *)
theory Sample_Chain
  imports Most_Invariants
begin

text \<open>
  Concrete instances of the model's parameters and a small concrete chain, on which the
  witnesses of the properties are evaluated: a plain ledger in the place of the \<^verbatim>\<open>psp22\<close> crate,
  a runtime that moves native balances, a bridge with a committee of three and threshold two.
\<close>

section \<open>A ledger for the token library\<close>

record ledger =
  balances :: "account_id \<Rightarrow> u128"
  allowances :: "account_id \<times> account_id \<Rightarrow> u128"
  ledger_supply :: u128

definition ledger_move :: "account_id \<Rightarrow> account_id \<Rightarrow> u128 \<Rightarrow> ledger \<Rightarrow> ledger psp22_update" where
  "ledger_move from to v d =
     (if balances d from < v then Err (PSP22_Lib 0)
      else case checked_add (((balances d)(from := balances d from - v)) to) v of
        None \<Rightarrow> Err (PSP22_Lib 1)
      | Some b \<Rightarrow> Ok (d\<lparr>balances := (balances d)(from := balances d from - v, to := b)\<rparr>,
                      [Psp22_Transfer (Some from) (Some to) v]))"

definition ledger_approve :: "account_id \<Rightarrow> account_id \<Rightarrow> u128 \<Rightarrow> ledger \<Rightarrow> ledger psp22_update" where
  "ledger_approve who spender v d =
     Ok (d\<lparr>allowances := (allowances d)((who, spender) := v)\<rparr>, [Psp22_Approval who spender v])"

definition ledger_lib :: "ledger psp22_lib" where
  "ledger_lib = \<lparr>
     psp22_new = (\<lambda>s a. \<lparr>balances = (\<lambda>_. 0)(a := s), allowances = (\<lambda>_. 0), ledger_supply = s\<rparr>),
     psp22_total_supply = ledger_supply,
     psp22_balance_of = balances,
     psp22_allowance = (\<lambda>d a b. allowances d (a, b)),
     psp22_transfer = ledger_move,
     psp22_transfer_from = (\<lambda>by from to v d.
       if allowances d (from, by) < v then Err (PSP22_Lib 2)
       else ledger_move from to v
         (d\<lparr>allowances := (allowances d)((from, by) := allowances d (from, by) - v)\<rparr>)),
     psp22_approve = ledger_approve,
     psp22_increase_allowance = (\<lambda>a b v d. ledger_approve a b (allowances d (a, b) + v) d),
     psp22_decrease_allowance = (\<lambda>a b v d. ledger_approve a b (allowances d (a, b) - v) d),
     psp22_mint = (\<lambda>to v d. case (checked_add (balances d to) v, checked_add (ledger_supply d) v) of
         (Some b, Some s) \<Rightarrow> Ok (d\<lparr>balances := (balances d)(to := b), ledger_supply := s\<rparr>,
                                [Psp22_Transfer None (Some to) v])
       | _ \<Rightarrow> Err (PSP22_Lib 3)),
     psp22_burn = (\<lambda>from v d. if balances d from < v \<or> ledger_supply d < v then Err (PSP22_Lib 4)
       else Ok (d\<lparr>balances := (balances d)(from := balances d from - v), ledger_supply := ledger_supply d - v\<rparr>,
                [Psp22_Transfer (Some from) None v]))\<rparr>"

lemma ledger_mint_law: "psp22_mint_law ledger_lib"
  by (auto simp: psp22_mint_law_def ledger_lib_def checked_arith split: option.splits)

lemma ledger_burn_law: "psp22_burn_law ledger_lib"
  by (auto simp: psp22_burn_law_def ledger_lib_def unat_sub word_le_nat_alt not_less
      split: if_splits)

lemma ledger_transfer_from_law: "psp22_transfer_from_law ledger_lib"
  by (auto simp: psp22_transfer_from_law_def ledger_lib_def ledger_move_def checked_arith unat_sub
      word_le_nat_alt not_less split: if_splits option.splits)

section \<open>A runtime\<close>

definition move_native ::
  "(account_id \<Rightarrow> u128) \<Rightarrow> account_id \<Rightarrow> account_id \<Rightarrow> u128 \<Rightarrow> (account_id \<Rightarrow> u128, ink_env_error) result" where
  "move_native n from to v =
     (if n from < v then Err ''TransferFailed''
      else let n1 = n(from := n from - v) in Ok (n1(to := n1 to + v)))"

definition sample_runtime :: runtime where
  "sample_runtime = \<lparr>rt_transfer = move_native, rt_completes = (\<lambda>_ _. True),
     rt_set_code_hash = (\<lambda>_. Ok ())\<rparr>"

text \<open>
  A stand-in for Keccak: the length, except for the 52 bytes of a member id on Ethereum, which it reads
  as a number.
\<close>

definition sample_keccak :: "u8 list \<Rightarrow> bytes32" where
  "sample_keccak bs = (if length bs = 52 then array_of_bytes bs else of_nat (length bs))"

lemma sample_hash [simp]: "hash_request_data sample_keccak c t a r n = 112"
  by (simp add: hash_request_data_def keccak256_def sample_keccak_def length_request_data)

section \<open>A chain\<close>

text \<open>
  Accounts: the bridge is 1000, its owner 100, the guardians 1, 2 and 3, a user 50, a token 7
  whose minter is the bridge and which the user may bridge to the address 77, an oracle 9.
\<close>

definition sample_env :: "account_id \<Rightarrow> u128 \<Rightarrow> call_env" where
  "sample_env who v =
     \<lparr>caller = who, transferred_value = v, self_account = 1000, block_timestamp = 100000\<rparr>"

definition sample_token :: "ledger token" where
  "sample_token = \<lparr>
     token_data = \<lparr>balances = (\<lambda>_. 0)(50 := 500), allowances = (\<lambda>_. 0)((50, 1000) := 400), ledger_supply = 500\<rparr>,
     token_ownable_data = ownable_new 100, token_name = None, token_symbol = None,
     token_decimals = 12, minter_burner = 1000, token_events = []\<rparr>"

definition sample_oracle :: gas_oracle where
  "sample_oracle = \<lparr>oracle_ownable_data = ownable_new 100, last_update = 90000, last_price = 25,
     reserved = None, oracle_code_hash = 0, oracle_events = []\<rparr>"

definition sample_data :: most_data where
  "sample_data = \<lparr>d_request_nonce = 0, d_committee_id = 0, d_pocket_money = 10,
     d_pocket_money_balance = 0, d_relay_gas_usage = 10, d_min_gas_price = 20, d_max_gas_price = 40,
     d_default_gas_price = 30, d_gas_price_oracle = Some 9, d_is_halted = True\<rparr>"

definition sample_most :: most where
  "sample_most = \<lparr>data_cell = Some sample_data, ownable_cell = Some (ownable_new 100),
     pending_requests = Map.empty, signatures = Map.empty, processed_requests = Map.empty,
     committees = insert_committee 0 [1, 2, 3] Map.empty, committee_sizes = [0 \<mapsto> 3],
     signature_thresholds = [0 \<mapsto> 2], supported_pairs = Map.empty,
     collected_committee_rewards = Map.empty, paid_out_member_rewards = Map.empty,
     most_code_hash = 5, most_events = []\<rparr>"

definition sample_chain :: "ledger chain" where
  "sample_chain = \<lparr>bridge = sample_most, tokens = [7 \<mapsto> sample_token], oracles = [9 \<mapsto> sample_oracle],
     native = (\<lambda>_. 0)(50 := 10000, 1000 := 2000)\<rparr>"

lemma has_duplicate_distinct: "distinct xs \<Longrightarrow> has_duplicate xs = False"
  by (simp add: has_duplicate_iff)

lemma sample_deployed:
  "most_new 5 [1, 2, 3] 2 10 10 20 40 30 (Some 9) 100 = Ok sample_most"
  by (simp add: most_new_def check_committee_def has_duplicate_distinct sample_most_def
      sample_data_def Let_def)

lemma sample_reachable: "reachable sample_keccak sample_chain"
proof (rule reachable.deployed)
  show "most_new 5 [1, 2, 3] 2 10 10 20 40 30 (Some 9) 100 = Ok (bridge sample_chain)"
    by (simp add: sample_chain_def sample_deployed)
qed simp

text \<open>The same chain after the owner has added the pair and resumed the bridge.\<close>

definition open_most :: most where
  "open_most = sample_most\<lparr>
     data_cell := Some (sample_data\<lparr>d_is_halted := False\<rparr>),
     supported_pairs := [7 \<mapsto> 77],
     most_events := [HaltedStateChanged True False 100]\<rparr>"

definition open_chain :: "ledger chain" where
  "open_chain = sample_chain\<lparr>bridge := open_most\<rparr>"

lemmas sample_defs =
  sample_env_def sample_token_def sample_oracle_def sample_data_def sample_most_def sample_chain_def
  open_most_def open_chain_def sample_runtime_def ownable_new_def

lemma open_chain_txs:
  "most_tx K ledger_lib sample_runtime (sample_env 100 0) (SetHalted False)
     (most_tx K ledger_lib sample_runtime (sample_env 100 0) (AddPair 7 77) sample_chain) = open_chain"
  by (simp add: most_tx_def add_pair_def set_halted_def owner_only_def ensure_owner_def
      ensure_halted_def is_halted_def read_data_def read_ownable_data_def ownable_ensure_owner_def
      lift_bridge_def on_bridge_def set_data_def emit_event_def token_minter_def sample_defs Let_def)

lemma open_reachable: "reachable sample_keccak open_chain"
proof -
  let ?tx = "most_tx sample_keccak ledger_lib sample_runtime (sample_env 100 0)"
  have "id_headroom (bridge sample_chain)"
    by (simp add: id_headroom_def sample_defs)
  then have r: "reachable sample_keccak (?tx (AddPair 7 77) sample_chain)"
    by (rule reachable.transaction [OF sample_reachable])
  have "id_headroom (bridge (?tx (AddPair 7 77) sample_chain))"
    by (simp add: id_headroom_def most_tx_def add_pair_def owner_only_def ensure_owner_def
        ensure_halted_def is_halted_def read_data_def read_ownable_data_def ownable_ensure_owner_def
        on_bridge_def token_minter_def sample_defs)
  with r have "reachable sample_keccak (?tx (SetHalted False) (?tx (AddPair 7 77) sample_chain))"
    by (rule reachable.transaction)
  then show ?thesis by (simp add: open_chain_txs)
qed

end
