(* ===== verification/Most_Tokens.thy ===== *)
theory Most_Tokens
  imports Most_Effects
begin

text \<open>
  What the messages of the bridge do to the wrapped tokens: an executed request mints, a request that is
  sent burns, and nothing else changes a supply.
\<close>

section \<open>Calls to the tokens\<close>

lemma call_token_Ok:
  "call_token a f w = Ok w' \<longleftrightarrow>
     (\<exists>t t'. tokens w a = Some t \<and> f t = Ok t' \<and> w' = w\<lparr>tokens := (tokens w)(a \<mapsto> t')\<rparr>)"
  by (auto simp: call_token_def result_elims split: option.splits)

lemma transfer_native_tokens: "transfer_native R env to v w = Ok w' \<Longrightarrow> tokens w' = tokens w"
  by (auto simp: transfer_native_def result_elims)

lemma commit_transfer_native_tokens [simp]:
  "tokens (commit w (transfer_native R env to v w)) = tokens w"
  by (rule commit_preserves) (auto dest: transfer_native_tokens)

lemma execute_request_tokens:
  assumes "execute_request L R env h t amount r data w = Ok w'"
  obtains tok tok' where "tokens w t = Some tok"
    and "token_mint L (callee_env env t) r amount tok = Ok tok'"
    and "tokens w' = (tokens w)(t \<mapsto> tok')"
proof -
  from assms obtain w1 where w1: "mint_to L env t r amount w = Ok w1" and "tokens w' = tokens w1"
    by (auto simp: execute_request_def result_elims Let_def split: if_splits)
  with that show thesis by (auto simp: mint_to_def call_token_Ok)
qed

lemma burn_from_Ok:
  assumes "psp22_transfer_from_law L" and "psp22_burn_law L"
    and "burn_from L env t from v w = Ok w'" and "from \<noteq> self_account env"
  obtains tok tok' where "tokens w t = Some tok" and "w' = w\<lparr>tokens := (tokens w)(t \<mapsto> tok')\<rparr>"
    and "minter_burner tok = self_account env"
    and "unat (token_balance_of L tok from) = unat (token_balance_of L tok' from) + unat v"
    and "\<forall>a. a \<noteq> from \<longrightarrow> token_balance_of L tok' a = token_balance_of L tok a"
    and "unat (token_total_supply L tok) = unat (token_total_supply L tok') + unat v"
proof -
  let ?e = "callee_env env t"
  from assms(3) obtain tok t1 tok' where tok: "tokens w t = Some tok"
    "token_transfer_from L ?e from (self_account env) v tok = Ok t1"
    "token_burn L ?e v t1 = Ok tok'" "w' = w\<lparr>tokens := (tokens w)(t \<mapsto> tok')\<rparr>"
    by (auto simp: burn_from_def result_elims call_token_Ok)
  note move = token_transfer_from_Ok [OF assms(1) tok(2) assms(4)]
  note burn = token_burn_Ok [OF assms(2) tok(3), simplified]
  have "token_balance_of L tok' (self_account env) = token_balance_of L tok (self_account env)"
    using move(2) burn(2) by (simp add: word_unat_eq_iff)
  then have "token_balance_of L tok' a = token_balance_of L tok a" if "a \<noteq> from" for a
    using that move(3) burn(3) by (cases "a = self_account env") auto
  with tok move burn assms(4) show thesis by (intro that [of tok tok']) auto
qed

lemma surplus_tokens:
  assumes "(case s of None \<Rightarrow> Ok w1
     | Some x \<Rightarrow> if 0 < x then map_err InkEnvError (transfer_native R env a x w1) else Ok w1) = Ok w2"
  shows "tokens w2 = tokens w1"
  using assms by (auto simp: result_elims split: option.splits if_splits dest: transfer_native_tokens)

lemma send_request_tokens:
  assumes "send_request L R env src amount dest w = Ok w'"
  obtains w1 where "burn_from L env src (caller env) amount w = Ok w1" and "tokens w' = tokens w1"
  using assms unfolding send_request_def Let_def
  by (clarsimp simp: result_elims split: if_splits) (drule surplus_tokens, simp)

section \<open>The supply of a token\<close>

text \<open>A transfer that succeeds leaves the supply alone, also when both accounts are the same.\<close>

definition psp22_transfer_law :: "'d psp22_lib \<Rightarrow> bool" where
  "psp22_transfer_law L \<longleftrightarrow> (\<forall>from to v d d' evs. psp22_transfer L from to v d = Ok (d', evs) \<longrightarrow>
     psp22_total_supply L d' = psp22_total_supply L d)"

lemma token_transfer_supply:
  "psp22_transfer_law L \<Longrightarrow> token_transfer L env to v t = Ok t' \<Longrightarrow> token_total_supply L t' = token_total_supply L t"
  unfolding psp22_transfer_law_def by (fastforce simp: token_transfer_def token_total_supply_def result_elims)

definition psp22_laws :: "'d psp22_lib \<Rightarrow> bool" where
  "psp22_laws L \<longleftrightarrow> psp22_mint_law L \<and> psp22_burn_law L \<and> psp22_transfer_from_law L \<and> psp22_transfer_law L"

definition token_supply :: "'d psp22_lib \<Rightarrow> account_id \<Rightarrow> 'd chain \<Rightarrow> nat" where
  "token_supply L t w = (case tokens w t of None \<Rightarrow> 0 | Some tok \<Rightarrow> unat (token_total_supply L tok))"

lemma token_supply_update:
  "tokens w' = (tokens w)(s \<mapsto> tok') \<Longrightarrow>
     token_supply L t w' = (if t = s then unat (token_total_supply L tok') else token_supply L t w)"
  by (simp add: token_supply_def)

text \<open>What a message takes out of the supply of a token, and what it adds if it succeeds.\<close>

fun burned_by :: "account_id \<Rightarrow> most_msg \<Rightarrow> nat" where
  "burned_by t (SendRequest s a r) = (if s = t then unat a else 0)"
| "burned_by t _ = 0"

fun minted_by :: "account_id \<Rightarrow> most_msg \<Rightarrow> 'd chain \<Rightarrow> 'd chain \<Rightarrow> nat" where
  "minted_by t (ReceiveRequest h c s a r n) w w' =
     (if s = t \<and> processed_requests (bridge w) h = None \<and> processed_requests (bridge w') h \<noteq> None then unat a else 0)"
| "minted_by t _ w w' = 0"

lemma receive_request_supply:
  assumes "psp22_mint_law L" and "receive_request K L R env h c s a r n w = Ok w'"
  shows "token_supply L t w' = token_supply L t w + minted_by t (ReceiveRequest h c s a r n) w w'"
  using assms(2)
proof (cases rule: receive_request_cases)
  case (executed data count threshold)
  from executed(10) obtain tok tok' where tok: "tokens w s = Some tok"
    "token_mint L (callee_env env s) r a tok = Ok tok'" "tokens w' = (tokens w)(s \<mapsto> tok')"
    by (rule execute_request_tokens) simp
  from token_supply_update [OF tok(3), of L t] tok(1) token_mint_Ok(4) [OF assms(1) tok(2)] executed(4,11) show ?thesis
    by (auto simp: token_supply_def processed_def emit_event_def)
next
  case (counted data count threshold)
  then show ?thesis by (simp add: token_supply_def signed_def emit_event_def)
qed (simp_all add: token_supply_def emit_event_def)

lemma send_request_supply:
  assumes "psp22_laws L" and "send_request L R env s a r w = Ok w'" and "caller env \<noteq> self_account env"
  shows "token_supply L t w' + (if s = t then unat a else 0) = token_supply L t w"
proof -
  from assms(2) obtain w1 where w1: "burn_from L env s (caller env) a w = Ok w1" "tokens w' = tokens w1"
    by (rule send_request_tokens)
  have laws: "psp22_transfer_from_law L" "psp22_burn_law L" using assms(1) by (simp_all add: psp22_laws_def)
  show ?thesis
    by (rule burn_from_Ok [OF laws w1(1) assms(3)]) (auto simp: token_supply_def w1(2))
qed

lemma run_message_supply:
  assumes "psp22_laws L" and "run_message K L R env msg w = Ok w'" and "caller env \<noteq> self_account env"
  shows "token_supply L t w' + burned_by t msg = token_supply L t w + minted_by t msg w w'"
proof (cases msg)
  case (SendRequest s a r)
  then show ?thesis using send_request_supply [OF assms(1) _ assms(3)] assms(2) by auto
next
  case (ReceiveRequest h c s a r n)
  then show ?thesis using receive_request_supply assms(1,2) by (fastforce simp: psp22_laws_def)
next
  case (PayoutRewards c a)
  then have "tokens w' = tokens w"
    using assms(2) by (auto simp: payout_rewards_def result_elims Let_def split: if_splits dest: transfer_native_tokens)
  then show ?thesis using PayoutRewards by (simp add: token_supply_def)
next
  case (RecoverPsp22 s r a)
  then obtain tok tok' where tok: "tokens w s = Some tok" "token_transfer L (callee_env env s) r a tok = Ok tok'"
    "tokens w' = (tokens w)(s \<mapsto> tok')"
    using assms(2) by (auto simp: recover_psp22_def result_elims call_token_Ok)
  with token_transfer_supply assms(1) have "token_total_supply L tok' = token_total_supply L tok"
    by (fastforce simp: psp22_laws_def)
  then show ?thesis using token_supply_update [OF tok(3), of L t] tok(1) RecoverPsp22 by (simp add: token_supply_def)
next
  case (RecoverAzero r a)
  then have "tokens w' = tokens w" using assms(2) by (auto simp: recover_azero_def result_elims dest: transfer_native_tokens)
  then show ?thesis using RecoverAzero by (simp add: token_supply_def)
qed (use assms(2) in \<open>auto simp: token_supply_def lift_bridge_def add_pair_def result_elims split: option.splits if_splits\<close>)

end
