(* ===== verification/Vote_Ledger.thy ===== *)
theory Vote_Ledger
  imports Bridge_Prelude
begin

text \<open>
  What both bridge contracts promise of a vote, as an abstract ledger, and what follows for any system
  that keeps such a ledger: with fewer dishonest voters than any quorum, only what honest voters have
  seen is executed.
\<close>

section \<open>The ledger\<close>

text \<open>
  Per request the set of accounts that voted, and the set of executed requests.  A vote for an executed
  request or by an account that has voted changes nothing; any other vote is added, and executes the
  request once the number of voters reaches the threshold.
\<close>

record 'a vote_ledger =
  voters :: "bytes32 \<Rightarrow> 'a set"
  executed :: "bytes32 set"

definition cast_vote :: "nat \<Rightarrow> bytes32 \<Rightarrow> 'a \<Rightarrow> 'a vote_ledger \<Rightarrow> 'a vote_ledger" where
  "cast_vote threshold h a v =
     (if h \<in> executed v \<or> a \<in> voters v h then v
      else let vs = insert a (voters v h) in
        \<lparr>voters = (voters v)(h := vs),
         executed = (if threshold \<le> card vs then insert h (executed v) else executed v)\<rparr>)"

text \<open>A ballot is a request, a voter and the quorum in force.\<close>

definition count_ballots :: "(bytes32 \<times> 'a \<times> nat) list \<Rightarrow> 'a vote_ledger \<Rightarrow> 'a vote_ledger" where
  "count_ballots = fold (\<lambda>(h, a, q). cast_vote q h a)"

lemma count_ballots_simps [simp]:
  "count_ballots [] v = v"
  "count_ballots ((h, a, q) # bs) v = count_ballots bs (cast_vote q h a v)"
  "count_ballots (bs @ bs') v = count_ballots bs' (count_ballots bs v)"
  by (simp_all add: count_ballots_def)

lemma voters_count_ballots: "h \<notin> fst ` set bs \<Longrightarrow> voters (count_ballots bs v) h = voters v h"
proof (induction bs arbitrary: v)
  case (Cons b bs)
  obtain k a q where "b = (k, a, q)" by (cases b)
  with Cons show ?case by (simp add: cast_vote_def Let_def)
qed simp

section \<open>Honest voters\<close>

text \<open>
  A ledger is backed by the requests \<open>A\<close> when everything an honest voter has voted for and everything
  executed is among them.
\<close>

definition backed :: "'a set \<Rightarrow> bytes32 set \<Rightarrow> 'a vote_ledger \<Rightarrow> bool" where
  "backed dishonest A v \<longleftrightarrow> (\<forall>h. h \<in> A \<or> h \<notin> executed v \<and> voters v h \<subseteq> dishonest)"

lemma backed_mono: "backed D A v \<Longrightarrow> A \<subseteq> B \<Longrightarrow> backed D B v"
  by (auto simp: backed_def)

lemma backed_cast_vote:
  assumes "backed D A v" and "finite D" and "card D < q" and "a \<notin> D \<Longrightarrow> h \<in> A"
  shows "backed D A (cast_vote q h a v)"
proof -
  have "\<not> q \<le> card (insert a (voters v h))" if "h \<notin> A"
  proof -
    have "insert a (voters v h) \<subseteq> D" using assms(1,4) that by (auto simp: backed_def)
    then have "card (insert a (voters v h)) \<le> card D" using assms(2) by (rule card_mono [rotated])
    with assms(3) show ?thesis by simp
  qed
  with assms(1,4) show ?thesis by (auto simp: backed_def cast_vote_def Let_def)
qed

lemma backed_count_ballots:
  assumes "backed D A v" and "finite D" and "\<And>h a q. (h, a, q) \<in> set bs \<Longrightarrow> card D < q \<and> (a \<notin> D \<longrightarrow> h \<in> A)"
  shows "backed D A (count_ballots bs v)"
  using assms(1,3)
proof (induction bs arbitrary: v)
  case (Cons b bs)
  obtain h a q where b: "b = (h, a, q)" by (cases b)
  then show ?case using Cons assms(2) by (auto intro!: Cons.IH backed_cast_vote)
qed simp

text \<open>
  A system that counts ballots.  Its quorums and the requests announced to its voters only ever grow, and
  in every step an honest voter votes for announced requests only.
\<close>

locale vote_counter =
  fixes moves :: "'s \<Rightarrow> 's \<Rightarrow> bool"
    and ledger :: "'s \<Rightarrow> 'a vote_ledger"
    and quorums :: "'s \<Rightarrow> nat set"
    and announced :: "'s \<Rightarrow> bytes32 set"
    and dishonest :: "'a set"
  assumes counts: "moves s s' \<Longrightarrow> \<exists>bs. ledger s' = count_ballots bs (ledger s) \<and>
      (\<forall>(h, a, q)\<in>set bs. q \<in> quorums s' \<and> (a \<notin> dishonest \<longrightarrow> h \<in> announced s))"
    and quorums_grow: "moves s s' \<Longrightarrow> quorums s \<subseteq> quorums s'"
    and announced_grow: "moves s s' \<Longrightarrow> announced s \<subseteq> announced s'"
begin

lemma quorums_moves: "moves\<^sup>*\<^sup>* s s' \<Longrightarrow> quorums s \<subseteq> quorums s'"
  by (induction rule: rtranclp_induct) (use quorums_grow in auto)

theorem backed_moves:
  assumes "moves\<^sup>*\<^sup>* s s'" and "backed dishonest (announced s) (ledger s)" and "finite dishonest"
    and "\<forall>q\<in>quorums s'. card dishonest < q"
  shows "backed dishonest (announced s') (ledger s')"
  using assms(1,4)
proof (induction rule: rtranclp_induct)
  case base
  show ?case using assms(2) .
next
  case (step v u)
  have "backed dishonest (announced v) (ledger v)"
    using step quorums_grow [OF step(2)] by blast
  then have "backed dishonest (announced u) (ledger v)"
    using announced_grow [OF step(2)] by (rule backed_mono)
  moreover obtain bs where bs: "ledger u = count_ballots bs (ledger v)"
    "\<forall>(h, a, q)\<in>set bs. q \<in> quorums u \<and> (a \<notin> dishonest \<longrightarrow> h \<in> announced v)"
    using counts [OF step(2)] by blast
  ultimately show ?case
    unfolding bs(1) using assms(3) step(4) announced_grow [OF step(2)]
    by (intro backed_count_ballots) (use bs(2) in fastforce)+
qed

corollary executed_announced:
  assumes "moves\<^sup>*\<^sup>* s s'" and "backed dishonest (announced s) (ledger s)" and "finite dishonest"
    and "\<forall>q\<in>quorums s'. card dishonest < q" and "h \<in> executed (ledger s')"
  shows "h \<in> announced s'"
  using backed_moves [OF assms(1-4)] assms(5) by (auto simp: backed_def)

end

end
