(* ===== verification/Eth_Most.thy ===== *)
theory Eth_Most
  imports Bridge_Prelude
begin

text \<open>
  The bridge contract on Ethereum (\<^verbatim>\<open>eth/contracts/Most.sol\<close>): its storage as the record \<open>eth_most\<close> and one
  definition per function.  The code a call runs in another contract (tokens, WETH, a receiver of ether)
  is a parameter and may call back into the bridge; the inherited OpenZeppelin modules are a parameter
  too.  A revert is an \<open>Err\<close>, a failed arithmetic check of the compiler a \<open>Panic\<close>; both undo the
  transaction.
\<close>

section \<open>Storage, events and errors\<close>

record eth_request =
  signatureCount :: u256
  requestSignatures :: "eth_address \<Rightarrow> bool"

datatype eth_event =
    Eth_CrosschainTransferRequest u256 bytes32 u256 bytes32 u256
  | Eth_RequestSigned bytes32 eth_address
  | Eth_RequestProcessed bytes32
  | Eth_ProcessedRequestSigned bytes32 eth_address
  | Eth_RequestAlreadySigned bytes32 eth_address
  | Eth_EthTransferFailed bytes32
  | Eth_TokenTransferFailed bytes32
  | Eth_CommitteeUpdated u256

text \<open>
  The errors of the contract, a revert of an OpenZeppelin module, a revert that bubbles up from a call,
  and a revert without data (\<^verbatim>\<open>require\<close> without a reason, a malformed answer, value sent to a function
  that is not payable).
\<close>

datatype eth_error =
    Rev_NotInCommittee
  | Rev_ZeroSignatureTreshold
  | Rev_DuplicateCommitteeMember
  | Rev_NotEnoughGuardians
  | Rev_UnsupportedPair
  | Rev_DataHashMismatch
  | Rev_ZeroAmount
  | Rev_WrappingEth
  | Rev_UnwrappingEth
  | Rev_EthTransfer
  | Rev_OpenZeppelin string
  | Rev_External
  | Rev_Bare

text \<open>
  A mapping of Solidity is total: a key that was never written reads as zero.  \<open>oz_state\<close> is the storage
  of the inherited modules and \<open>eth_events\<close> the log.
\<close>

record 'oz eth_most =
  requestNonce :: u256
  committeeId :: u256
  wethAddress :: eth_address
  supportedPairs :: "bytes32 \<Rightarrow> bytes32"
  pendingRequests :: "bytes32 \<Rightarrow> eth_request"
  processedRequests :: "bytes32 \<Rightarrow> bool"
  eth_committee :: "bytes32 \<Rightarrow> bool"
  committeeSize :: "u256 \<Rightarrow> u256"
  signatureThreshold :: "u256 \<Rightarrow> u256"
  oz_state :: 'oz
  eth_events :: "eth_event list"

text \<open>
  \<^verbatim>\<open>Initializable\<close>, \<^verbatim>\<open>Ownable2StepUpgradeable\<close> and \<^verbatim>\<open>PausableUpgradeable\<close>: the two halves of the modifier
  \<^verbatim>\<open>initializer\<close>, the initialisers, the checks behind the modifiers and the functions that change the
  modules' own storage.
\<close>

record 'oz oz_lib =
  begin_initializer :: "'oz \<Rightarrow> ('oz, string) result"
  end_initializer :: "'oz \<Rightarrow> 'oz"
  ownable_init :: "eth_address \<Rightarrow> 'oz \<Rightarrow> ('oz, string) result"
  pausable_init :: "'oz \<Rightarrow> ('oz, string) result"
  check_owner :: "eth_address \<Rightarrow> 'oz \<Rightarrow> (unit, string) result"
  require_not_paused :: "'oz \<Rightarrow> (unit, string) result"
  require_paused :: "'oz \<Rightarrow> (unit, string) result"
  oz_pause :: "eth_address \<Rightarrow> 'oz \<Rightarrow> ('oz, string) result"
  oz_unpause :: "eth_address \<Rightarrow> 'oz \<Rightarrow> ('oz, string) result"
  oz_transfer_ownership :: "eth_address \<Rightarrow> eth_address \<Rightarrow> 'oz \<Rightarrow> ('oz, string) result"
  oz_accept_ownership :: "eth_address \<Rightarrow> 'oz \<Rightarrow> ('oz, string) result"

section \<open>Calls to other contracts\<close>

text \<open>
  The world: the bridge and everything else.  A low-level call names the callee, the value, a gas limit
  if the code sets one, and what is called; the other two calls are the functions of \<^verbatim>\<open>SafeERC20\<close>.
\<close>

record ('oz, 'x) eth_world =
  emost :: "'oz eth_most"
  outside :: 'x

datatype call_data = Call_Deposit | Call_Withdraw u256 | Call_Transfer eth_address u256 | Call_Empty

datatype ext_call =
    Low_Call eth_address u256 "u256 option" call_data
  | Safe_Transfer_From eth_address eth_address eth_address u256
  | Safe_Transfer eth_address eth_address u256

text \<open>
  \<open>external_call\<close> gives the returned bytes and the world after a call that succeeded, the bridge included,
  into which the callee may have called back; \<open>None\<close> is a call that failed and left no trace.
\<close>

record ('oz, 'x) evm =
  external_call :: "ext_call \<Rightarrow> ('oz, 'x) eth_world \<Rightarrow> (u8 list \<times> ('oz, 'x) eth_world) option"
  code_length :: "eth_address \<Rightarrow> ('oz, 'x) eth_world \<Rightarrow> nat"

record eth_env =
  msg_sender :: eth_address
  msg_value :: u256
  this_address :: eth_address

definition on_most :: "('oz eth_most \<Rightarrow> 'oz eth_most) \<Rightarrow> ('oz, 'x) eth_world \<Rightarrow> ('oz, 'x) eth_world" where
  "on_most f w = w\<lparr>emost := f (emost w)\<rparr>"

definition emit_eth :: "eth_event \<Rightarrow> ('oz, 'x) eth_world \<Rightarrow> ('oz, 'x) eth_world" where
  "emit_eth e = on_most (\<lambda>m. m\<lparr>eth_events := eth_events m @ [e]\<rparr>)"

definition GAS_LIMIT :: u256 where
  "GAS_LIMIT = 3500"

section \<open>Conversions and hashes\<close>

definition bytes32ToAddress :: "bytes32 \<Rightarrow> eth_address" where
  "bytes32ToAddress data = ucast data"

definition addressToBytes32 :: "eth_address \<Rightarrow> bytes32" where
  "addressToBytes32 addr = ucast addr"

definition address_bytes :: "eth_address \<Rightarrow> u8 list" where
  "address_bytes a = rev (to_le_bytes a)"

definition committee_member_id :: "(u8 list \<Rightarrow> bytes32) \<Rightarrow> u256 \<Rightarrow> eth_address \<Rightarrow> bytes32" where
  "committee_member_id K cid account = K (array_bytes cid @ address_bytes account)"

definition eth_request_hash ::
  "(u8 list \<Rightarrow> bytes32) \<Rightarrow> u256 \<Rightarrow> bytes32 \<Rightarrow> u256 \<Rightarrow> bytes32 \<Rightarrow> u256 \<Rightarrow> bytes32" where
  "eth_request_hash K cid token amount receiver nonce =
     K (array_bytes cid @ array_bytes token @ array_bytes amount @ array_bytes receiver @ array_bytes nonce)"

text \<open>\<^verbatim>\<open>abi.decode(returndata, (bool))\<close>.\<close>

definition decode_bool :: "u8 list \<Rightarrow> (bool, eth_error) result" where
  "decode_bool returndata =
     (if length returndata < 32 then Err Rev_Bare
      else let v = array_of_bytes (take 32 returndata) in
           if v = 0 then Ok False else if v = 1 then Ok True else Err Rev_Bare)"

section \<open>Checks\<close>

definition require :: "bool \<Rightarrow> eth_error \<Rightarrow> (unit, eth_error) result" where
  "require b e = (if b then Ok () else Err e)"

definition onlyOwner :: "'oz oz_lib \<Rightarrow> eth_env \<Rightarrow> 'oz eth_most \<Rightarrow> (unit, eth_error) result" where
  "onlyOwner Z env m = map_err Rev_OpenZeppelin (check_owner Z (msg_sender env) (oz_state m))"

definition whenNotPaused :: "'oz oz_lib \<Rightarrow> 'oz eth_most \<Rightarrow> (unit, eth_error) result" where
  "whenNotPaused Z m = map_err Rev_OpenZeppelin (require_not_paused Z (oz_state m))"

definition whenPaused :: "'oz oz_lib \<Rightarrow> 'oz eth_most \<Rightarrow> (unit, eth_error) result" where
  "whenPaused Z m = map_err Rev_OpenZeppelin (require_paused Z (oz_state m))"

definition isInCommittee :: "(u8 list \<Rightarrow> bytes32) \<Rightarrow> u256 \<Rightarrow> eth_address \<Rightarrow> 'oz eth_most \<Rightarrow> bool" where
  "isInCommittee K cid account m = eth_committee m (committee_member_id K cid account)"

definition onlyCommitteeMember ::
  "(u8 list \<Rightarrow> bytes32) \<Rightarrow> eth_env \<Rightarrow> u256 \<Rightarrow> 'oz eth_most \<Rightarrow> (unit, eth_error) result" where
  "onlyCommitteeMember K env cid m = require (isInCommittee K cid (msg_sender env) m) Rev_NotInCommittee"

definition hasSignedRequest :: "eth_address \<Rightarrow> bytes32 \<Rightarrow> 'oz eth_most \<Rightarrow> bool" where
  "hasSignedRequest guardian hash m = requestSignatures (pendingRequests m hash) guardian"

text \<open>A checked \<^verbatim>\<open>++x\<close> of Solidity 0.8.\<close>

definition increment :: "u256 \<Rightarrow> (u256, eth_error) result" where
  "increment x = (case checked_add x 1 of Some y \<Rightarrow> Ok y | None \<Rightarrow> Panic)"

section \<open>Committees and initialisation\<close>

fun register_members ::
  "(u8 list \<Rightarrow> bytes32) \<Rightarrow> u256 \<Rightarrow> eth_address list \<Rightarrow> (bytes32 \<Rightarrow> bool) \<Rightarrow> (bytes32 \<Rightarrow> bool, eth_error) result" where
  "register_members K cid [] members = Ok members"
| "register_members K cid (account # accounts) members =
     (let committeeMemberId = committee_member_id K cid account in
      if members committeeMemberId then Err Rev_DuplicateCommitteeMember
      else register_members K cid accounts (members(committeeMemberId := True)))"

definition setCommittee_internal ::
  "(u8 list \<Rightarrow> bytes32) \<Rightarrow> eth_address list \<Rightarrow> u256 \<Rightarrow> 'oz eth_most \<Rightarrow> ('oz eth_most, eth_error) result" where
  "setCommittee_internal K accounts threshold m =
     try_res (require (threshold \<noteq> 0) Rev_ZeroSignatureTreshold) (\<lambda>_.
     try_res (require (\<not> length accounts < unat threshold) Rev_NotEnoughGuardians) (\<lambda>_.
     try_res (register_members K (committeeId m) accounts (eth_committee m)) (\<lambda>members.
       Ok (m\<lparr>eth_committee := members,
             committeeSize := (committeeSize m)(committeeId m := of_nat (length accounts)),
             signatureThreshold := (signatureThreshold m)(committeeId m := threshold)\<rparr>))))"

definition initialize_most ::
  "(u8 list \<Rightarrow> bytes32) \<Rightarrow> 'oz oz_lib \<Rightarrow> eth_env \<Rightarrow> eth_address list \<Rightarrow> u256 \<Rightarrow> eth_address \<Rightarrow> eth_address
    \<Rightarrow> 'oz eth_most \<Rightarrow> ('oz eth_most, eth_error) result" where
  "initialize_most K Z env accounts threshold owner weth m =
     try_res (map_err Rev_OpenZeppelin (begin_initializer Z (oz_state m))) (\<lambda>s.
     try_res (setCommittee_internal K accounts threshold
                (m\<lparr>oz_state := s, committeeId := 0, wethAddress := weth\<rparr>)) (\<lambda>m1.
     try_res (map_err Rev_OpenZeppelin
                (try_res (ownable_init Z owner (oz_state m1)) (\<lambda>s.
                 try_res (pausable_init Z s) (\<lambda>s. oz_pause Z (msg_sender env) s)))) (\<lambda>s.
       Ok (m1\<lparr>oz_state := end_initializer Z s\<rparr>))))"

definition setCommittee ::
  "(u8 list \<Rightarrow> bytes32) \<Rightarrow> 'oz oz_lib \<Rightarrow> eth_env \<Rightarrow> eth_address list \<Rightarrow> u256 \<Rightarrow> ('oz, 'x) eth_world
    \<Rightarrow> (('oz, 'x) eth_world, eth_error) result" where
  "setCommittee K Z env accounts threshold w =
     try_res (onlyOwner Z env (emost w)) (\<lambda>_.
     try_res (whenPaused Z (emost w)) (\<lambda>_.
     try_res (increment (committeeId (emost w))) (\<lambda>cid.
     try_res (setCommittee_internal K accounts threshold ((emost w)\<lparr>committeeId := cid\<rparr>)) (\<lambda>m.
       Ok (emit_eth (Eth_CommitteeUpdated (committeeId m)) (w\<lparr>emost := m\<rparr>))))))"

section \<open>Sending a request\<close>

text \<open>
  The end of both sending functions: the event carries the committee and the nonce as they are after
  the call to the token.
\<close>

definition announce ::
  "bytes32 \<Rightarrow> u256 \<Rightarrow> bytes32 \<Rightarrow> ('oz, 'x) eth_world \<Rightarrow> (('oz, 'x) eth_world, eth_error) result" where
  "announce destTokenAddress amount destReceiverAddress w =
     (let w1 = emit_eth (Eth_CrosschainTransferRequest (committeeId (emost w)) destTokenAddress amount
                 destReceiverAddress (requestNonce (emost w))) w in
      try_res (increment (requestNonce (emost w1))) (\<lambda>nonce.
        Ok (on_most (\<lambda>m. m\<lparr>requestNonce := nonce\<rparr>) w1)))"

definition sendRequest ::
  "'oz oz_lib \<Rightarrow> ('oz, 'x) evm \<Rightarrow> eth_env \<Rightarrow> bytes32 \<Rightarrow> u256 \<Rightarrow> bytes32 \<Rightarrow> ('oz, 'x) eth_world
    \<Rightarrow> (('oz, 'x) eth_world, eth_error) result" where
  "sendRequest Z X env srcTokenAddress amount destReceiverAddress w =
     try_res (whenNotPaused Z (emost w)) (\<lambda>_.
     try_res (require (amount \<noteq> 0) Rev_ZeroAmount) (\<lambda>_.
     let token = bytes32ToAddress srcTokenAddress;
         destTokenAddress = supportedPairs (emost w) srcTokenAddress in
     try_res (require (destTokenAddress \<noteq> 0) Rev_UnsupportedPair) (\<lambda>_.
       case external_call X (Safe_Transfer_From token (msg_sender env) (this_address env) amount) w of
         None \<Rightarrow> Err Rev_External
       | Some (_, w1) \<Rightarrow> announce destTokenAddress amount destReceiverAddress w1)))"

definition sendRequestNative ::
  "'oz oz_lib \<Rightarrow> ('oz, 'x) evm \<Rightarrow> eth_env \<Rightarrow> bytes32 \<Rightarrow> ('oz, 'x) eth_world
    \<Rightarrow> (('oz, 'x) eth_world, eth_error) result" where
  "sendRequestNative Z X env destReceiverAddress w =
     try_res (whenNotPaused Z (emost w)) (\<lambda>_.
     let amount = msg_value env in
     try_res (require (amount \<noteq> 0) Rev_ZeroAmount) (\<lambda>_.
     let destTokenAddress = supportedPairs (emost w) (addressToBytes32 (wethAddress (emost w))) in
     try_res (require (destTokenAddress \<noteq> 0) Rev_UnsupportedPair) (\<lambda>_.
       case external_call X (Low_Call (wethAddress (emost w)) amount None Call_Deposit) w of
         None \<Rightarrow> Err Rev_WrappingEth
       | Some (_, w1) \<Rightarrow> announce destTokenAddress amount destReceiverAddress w1)))"

section \<open>Receiving a request\<close>

definition tokenTransferReturnSuccess ::
  "('oz, 'x) evm \<Rightarrow> eth_address \<Rightarrow> eth_address \<Rightarrow> u256 \<Rightarrow> ('oz, 'x) eth_world
    \<Rightarrow> (bool \<times> ('oz, 'x) eth_world, eth_error) result" where
  "tokenTransferReturnSuccess X token receiver amount w =
     (case external_call X (Low_Call token 0 None (Call_Transfer receiver amount)) w of
        None \<Rightarrow> Ok (False, w)
      | Some (returndata, w1) \<Rightarrow>
          try_res (if returndata = [] then Ok True else decode_bool returndata) (\<lambda>b.
            Ok (b \<and> code_length X token w1 > 0, w1)))"

text \<open>The transfer that ends a request with enough votes: unwrapped ether, or tokens.\<close>

definition return_locked ::
  "('oz, 'x) evm \<Rightarrow> bytes32 \<Rightarrow> bytes32 \<Rightarrow> u256 \<Rightarrow> bytes32 \<Rightarrow> ('oz, 'x) eth_world
    \<Rightarrow> (('oz, 'x) eth_world, eth_error) result" where
  "return_locked X requestHash destTokenAddress amount destReceiverAddress w =
     (let token = bytes32ToAddress destTokenAddress; receiver = bytes32ToAddress destReceiverAddress in
      if token = wethAddress (emost w) then
        case external_call X (Low_Call (wethAddress (emost w)) 0 None (Call_Withdraw amount)) w of
          None \<Rightarrow> Err Rev_UnwrappingEth
        | Some (_, w1) \<Rightarrow>
            (case external_call X (Low_Call receiver amount (Some GAS_LIMIT) Call_Empty) w1 of
               None \<Rightarrow> Ok (emit_eth (Eth_EthTransferFailed requestHash) w1)
             | Some (_, w2) \<Rightarrow> Ok w2)
      else
        try_res (tokenTransferReturnSuccess X token receiver amount w) (\<lambda>(success, w1).
          Ok (if \<not> success then emit_eth (Eth_TokenTransferFailed requestHash) w1 else w1)))"

definition receiveRequest ::
  "(u8 list \<Rightarrow> bytes32) \<Rightarrow> 'oz oz_lib \<Rightarrow> ('oz, 'x) evm \<Rightarrow> eth_env \<Rightarrow> bytes32 \<Rightarrow> u256 \<Rightarrow> bytes32 \<Rightarrow> u256 \<Rightarrow> bytes32
    \<Rightarrow> u256 \<Rightarrow> ('oz, 'x) eth_world \<Rightarrow> (('oz, 'x) eth_world, eth_error) result" where
  "receiveRequest K Z X env given_hash cid destTokenAddress amount destReceiverAddress nonce w =
     try_res (whenNotPaused Z (emost w)) (\<lambda>_.
     try_res (onlyCommitteeMember K env cid (emost w)) (\<lambda>_.
     if processedRequests (emost w) given_hash then
       Ok (emit_eth (Eth_ProcessedRequestSigned given_hash (msg_sender env)) w)
     else
       let requestHash = eth_request_hash K cid destTokenAddress amount destReceiverAddress nonce;
           request = pendingRequests (emost w) requestHash in
       if requestSignatures request (msg_sender env) then
         Ok (emit_eth (Eth_RequestAlreadySigned requestHash (msg_sender env)) w)
       else
         try_res (require (given_hash = requestHash) Rev_DataHashMismatch) (\<lambda>_.
         try_res (increment (signatureCount request)) (\<lambda>count.
         let request = request\<lparr>signatureCount := count,
                               requestSignatures := (requestSignatures request)(msg_sender env := True)\<rparr>;
             w1 = emit_eth (Eth_RequestSigned requestHash (msg_sender env))
                    (on_most (\<lambda>m. m\<lparr>pendingRequests := (pendingRequests m)(requestHash := request)\<rparr>) w) in
         if count \<ge> signatureThreshold (emost w1) cid then
           let w2 = on_most (\<lambda>m. m\<lparr>processedRequests := (processedRequests m)(requestHash := True),
                      pendingRequests := (pendingRequests m)(requestHash := request\<lparr>signatureCount := 0\<rparr>)\<rparr>) w1 in
           try_res (return_locked X requestHash destTokenAddress amount destReceiverAddress w2) (\<lambda>w3.
             Ok (emit_eth (Eth_RequestProcessed requestHash) w3))
         else Ok w1))))"

section \<open>The owner's functions\<close>

definition on_oz ::
  "('oz \<Rightarrow> ('oz, string) result) \<Rightarrow> ('oz, 'x) eth_world \<Rightarrow> (('oz, 'x) eth_world, eth_error) result" where
  "on_oz f w =
     map_ok (\<lambda>s. on_most (\<lambda>m. m\<lparr>oz_state := s\<rparr>) w) (map_err Rev_OpenZeppelin (f (oz_state (emost w))))"

definition authorizeUpgrade :: "'oz oz_lib \<Rightarrow> eth_env \<Rightarrow> eth_address \<Rightarrow> 'oz eth_most \<Rightarrow> (unit, eth_error) result" where
  "authorizeUpgrade Z env implementation m = onlyOwner Z env m"

definition renounceOwnership ::
  "'oz oz_lib \<Rightarrow> eth_env \<Rightarrow> ('oz, 'x) eth_world \<Rightarrow> (('oz, 'x) eth_world, eth_error) result" where
  "renounceOwnership Z env w = try_res (onlyOwner Z env (emost w)) (\<lambda>_. Ok w)"

definition pause_most ::
  "'oz oz_lib \<Rightarrow> eth_env \<Rightarrow> ('oz, 'x) eth_world \<Rightarrow> (('oz, 'x) eth_world, eth_error) result" where
  "pause_most Z env w = try_res (onlyOwner Z env (emost w)) (\<lambda>_. on_oz (oz_pause Z (msg_sender env)) w)"

definition unpause_most ::
  "'oz oz_lib \<Rightarrow> eth_env \<Rightarrow> ('oz, 'x) eth_world \<Rightarrow> (('oz, 'x) eth_world, eth_error) result" where
  "unpause_most Z env w = try_res (onlyOwner Z env (emost w)) (\<lambda>_. on_oz (oz_unpause Z (msg_sender env)) w)"

definition recoverERC20 ::
  "'oz oz_lib \<Rightarrow> ('oz, 'x) evm \<Rightarrow> eth_env \<Rightarrow> eth_address \<Rightarrow> eth_address \<Rightarrow> u256 \<Rightarrow> ('oz, 'x) eth_world
    \<Rightarrow> (('oz, 'x) eth_world, eth_error) result" where
  "recoverERC20 Z X env token to amount w =
     try_res (onlyOwner Z env (emost w)) (\<lambda>_.
       case external_call X (Safe_Transfer token to amount) w of
         None \<Rightarrow> Err Rev_External
       | Some (_, w1) \<Rightarrow> Ok w1)"

definition recoverNative ::
  "'oz oz_lib \<Rightarrow> ('oz, 'x) evm \<Rightarrow> eth_env \<Rightarrow> eth_address \<Rightarrow> u256 \<Rightarrow> ('oz, 'x) eth_world
    \<Rightarrow> (('oz, 'x) eth_world, eth_error) result" where
  "recoverNative Z X env to amount w =
     try_res (onlyOwner Z env (emost w)) (\<lambda>_.
       case external_call X (Low_Call to amount (Some GAS_LIMIT) Call_Empty) w of
         None \<Rightarrow> Err Rev_EthTransfer
       | Some (_, w1) \<Rightarrow> Ok w1)"

definition addPair ::
  "'oz oz_lib \<Rightarrow> eth_env \<Rightarrow> bytes32 \<Rightarrow> bytes32 \<Rightarrow> ('oz, 'x) eth_world \<Rightarrow> (('oz, 'x) eth_world, eth_error) result" where
  "addPair Z env from to w =
     try_res (onlyOwner Z env (emost w)) (\<lambda>_.
     try_res (whenPaused Z (emost w)) (\<lambda>_.
       Ok (on_most (\<lambda>m. m\<lparr>supportedPairs := (supportedPairs m)(from := to)\<rparr>) w)))"

definition removePair ::
  "'oz oz_lib \<Rightarrow> eth_env \<Rightarrow> bytes32 \<Rightarrow> ('oz, 'x) eth_world \<Rightarrow> (('oz, 'x) eth_world, eth_error) result" where
  "removePair Z env from w =
     try_res (onlyOwner Z env (emost w)) (\<lambda>_.
     try_res (whenPaused Z (emost w)) (\<lambda>_.
       Ok (on_most (\<lambda>m. m\<lparr>supportedPairs := (supportedPairs m)(from := 0)\<rparr>) w)))"

text \<open>The \<^verbatim>\<open>receive\<close> function: ether from the WETH contract.\<close>

definition receive_ether :: "eth_env \<Rightarrow> ('oz, 'x) eth_world \<Rightarrow> (('oz, 'x) eth_world, eth_error) result" where
  "receive_ether env w = try_res (require (msg_sender env = wethAddress (emost w)) Rev_Bare) (\<lambda>_. Ok w)"

section \<open>Messages\<close>

datatype eth_msg =
    Initialize "eth_address list" u256 eth_address eth_address
  | SendRequest_Eth bytes32 u256 bytes32
  | SendRequestNative bytes32
  | ReceiveRequest_Eth bytes32 u256 bytes32 u256 bytes32 u256
  | Pause_Eth
  | Unpause_Eth
  | RecoverERC20 eth_address eth_address u256
  | RecoverNative eth_address u256
  | SetCommittee_Eth "eth_address list" u256
  | AddPair_Eth bytes32 bytes32
  | RemovePair_Eth bytes32
  | RenounceOwnership
  | TransferOwnership_Eth eth_address
  | AcceptOwnership_Eth
  | Receive_Ether

fun eth_payable :: "eth_msg \<Rightarrow> bool" where
  "eth_payable (SendRequestNative r) = True"
| "eth_payable Receive_Ether = True"
| "eth_payable _ = False"

fun eth_function ::
  "(u8 list \<Rightarrow> bytes32) \<Rightarrow> 'oz oz_lib \<Rightarrow> ('oz, 'x) evm \<Rightarrow> eth_env \<Rightarrow> eth_msg \<Rightarrow> ('oz, 'x) eth_world
    \<Rightarrow> (('oz, 'x) eth_world, eth_error) result" where
  "eth_function K Z X env (Initialize accounts threshold owner weth) w =
     map_ok (\<lambda>m. w\<lparr>emost := m\<rparr>) (initialize_most K Z env accounts threshold owner weth (emost w))"
| "eth_function K Z X env (SendRequest_Eth t a r) w = sendRequest Z X env t a r w"
| "eth_function K Z X env (SendRequestNative r) w = sendRequestNative Z X env r w"
| "eth_function K Z X env (ReceiveRequest_Eth h c t a r n) w = receiveRequest K Z X env h c t a r n w"
| "eth_function K Z X env Pause_Eth w = pause_most Z env w"
| "eth_function K Z X env Unpause_Eth w = unpause_most Z env w"
| "eth_function K Z X env (RecoverERC20 t to a) w = recoverERC20 Z X env t to a w"
| "eth_function K Z X env (RecoverNative to a) w = recoverNative Z X env to a w"
| "eth_function K Z X env (SetCommittee_Eth accounts threshold) w = setCommittee K Z env accounts threshold w"
| "eth_function K Z X env (AddPair_Eth from to) w = addPair Z env from to w"
| "eth_function K Z X env (RemovePair_Eth from) w = removePair Z env from w"
| "eth_function K Z X env RenounceOwnership w = renounceOwnership Z env w"
| "eth_function K Z X env (TransferOwnership_Eth a) w = on_oz (oz_transfer_ownership Z (msg_sender env) a) w"
| "eth_function K Z X env AcceptOwnership_Eth w = on_oz (oz_accept_ownership Z (msg_sender env)) w"
| "eth_function K Z X env Receive_Ether w = receive_ether env w"

text \<open>The dispatcher: a function that is not payable reverts when value is sent along.\<close>

definition eth_dispatch ::
  "(u8 list \<Rightarrow> bytes32) \<Rightarrow> 'oz oz_lib \<Rightarrow> ('oz, 'x) evm \<Rightarrow> eth_env \<Rightarrow> eth_msg \<Rightarrow> ('oz, 'x) eth_world
    \<Rightarrow> (('oz, 'x) eth_world, eth_error) result" where
  "eth_dispatch K Z X env msg w =
     try_res (require (eth_payable msg \<or> msg_value env = 0) Rev_Bare) (\<lambda>_. eth_function K Z X env msg w)"

end
