(* ===== verification/Eth_Runs.thy ===== *)
theory Eth_Runs
  imports Eth_Most
begin

text \<open>
  The runs of the Ethereum contract when every other contract is an adversary: a call out of the bridge
  may do anything the bridge's own functions allow, callbacks nested to any depth included.  Each
  function is described by one effect, and the invariants are proved for all runs.
\<close>

section \<open>Runs with callbacks\<close>

text \<open>
  \<open>eth_evolves K Z G w w'\<close>: from \<open>w\<close> the world can come to \<open>w'\<close>, by changes outside the bridge and by calls
  of the bridge whose sender and message satisfy \<open>G\<close>.  A call to another contract made on the way is itself
  such an evolution.
\<close>

inductive eth_evolves ::
  "(u8 list \<Rightarrow> bytes32) \<Rightarrow> 'oz oz_lib \<Rightarrow> (eth_env \<Rightarrow> eth_msg \<Rightarrow> bool) \<Rightarrow> ('oz, 'x) eth_world \<Rightarrow> ('oz, 'x) eth_world \<Rightarrow> bool"
  for K :: "u8 list \<Rightarrow> bytes32" and Z :: "'oz oz_lib" and G :: "eth_env \<Rightarrow> eth_msg \<Rightarrow> bool" where
  still: "eth_evolves K Z G w w"
| elsewhere: "eth_evolves K Z G w v \<Longrightarrow> emost v' = emost v \<Longrightarrow> eth_evolves K Z G w v'"
| message: "eth_evolves K Z G w v \<Longrightarrow> G env msg \<Longrightarrow>
     (\<forall>c u data u'. external_call X c u = Some (data, u') \<longrightarrow> eth_evolves K Z G u u') \<Longrightarrow>
     eth_dispatch K Z X env msg v = Ok v' \<Longrightarrow> eth_evolves K Z G w v'"

lemma eth_evolves_trans:
  assumes "eth_evolves K Z G v u" and "eth_evolves K Z G w v"
  shows "eth_evolves K Z G w u"
  using assms
proof (induction rule: eth_evolves.induct)
  case (message v u env msg X u')
  show ?case
    by (rule eth_evolves.message [of K Z G w u env msg X]) (use message in auto)
qed (auto intro: eth_evolves.elsewhere)

lemma eth_evolves_mono:
  assumes "eth_evolves K Z G w v" and "\<And>env msg. G env msg \<Longrightarrow> H env msg"
  shows "eth_evolves K Z H w v"
  using assms(1)
proof (induction rule: eth_evolves.induct)
  case (message w v env msg X v')
  show ?case
    by (rule eth_evolves.message [of K Z H w v env msg X]) (use message assms(2) in auto)
qed (auto intro: eth_evolves.still eth_evolves.elsewhere)

section \<open>Effects\<close>

text \<open>What no event of a vote, an execution or a request is.\<close>

fun neutral_eth_event :: "eth_event \<Rightarrow> bool" where
  "neutral_eth_event (Eth_CrosschainTransferRequest c t a r n) = False"
| "neutral_eth_event (Eth_RequestSigned h a) = False"
| "neutral_eth_event (Eth_RequestProcessed h) = False"
| "neutral_eth_event _ = True"

text \<open>
  An update that leaves the books alone: the supported pairs may change, the modules' storage may, and
  neutral events are log_event.
\<close>

definition quiet :: "('oz \<Rightarrow> bool) \<Rightarrow> 'oz eth_most \<Rightarrow> 'oz eth_most \<Rightarrow> bool" where
  "quiet init m m' \<longleftrightarrow>
     (\<exists>p s es. m' = m\<lparr>supportedPairs := p, oz_state := s, eth_events := eth_events m @ es\<rparr> \<and>
        (init (oz_state m) \<longrightarrow> init s) \<and> list_all neutral_eth_event es)"

inductive drift ::
  "('oz \<Rightarrow> bool) \<Rightarrow> ('oz, 'x) evm \<Rightarrow> ('oz, 'x) eth_world \<Rightarrow> ('oz, 'x) eth_world \<Rightarrow> bool"
  for init :: "'oz \<Rightarrow> bool" and X :: "('oz, 'x) evm" where
  stay: "drift init X w w"
| called: "drift init X w v \<Longrightarrow> external_call X c v = Some (data, v') \<Longrightarrow> drift init X w v'"
| updated: "drift init X w v \<Longrightarrow> quiet init (emost v) (emost v') \<Longrightarrow> drift init X w v'"

definition voted :: "bytes32 \<Rightarrow> eth_address \<Rightarrow> u256 \<Rightarrow> 'oz eth_most \<Rightarrow> 'oz eth_most" where
  "voted h a count m =
     m\<lparr>pendingRequests := (pendingRequests m)(h := (pendingRequests m h)\<lparr>signatureCount := count,
         requestSignatures := (requestSignatures (pendingRequests m h))(a := True)\<rparr>),
       eth_events := eth_events m @ [Eth_RequestSigned h a]\<rparr>"

definition settled :: "bytes32 \<Rightarrow> 'oz eth_most \<Rightarrow> 'oz eth_most" where
  "settled h m =
     m\<lparr>processedRequests := (processedRequests m)(h := True),
       pendingRequests := (pendingRequests m)(h := (pendingRequests m h)\<lparr>signatureCount := 0\<rparr>)\<rparr>"

definition log_event :: "eth_event \<Rightarrow> 'oz eth_most \<Rightarrow> 'oz eth_most" where
  "log_event e m = m\<lparr>eth_events := eth_events m @ [e]\<rparr>"

inductive eth_effect ::
  "(u8 list \<Rightarrow> bytes32) \<Rightarrow> ('oz \<Rightarrow> bool) \<Rightarrow> ('oz, 'x) evm \<Rightarrow> eth_env \<Rightarrow> eth_msg
    \<Rightarrow> ('oz, 'x) eth_world \<Rightarrow> ('oz, 'x) eth_world \<Rightarrow> bool"
  for K :: "u8 list \<Rightarrow> bytes32" and init :: "'oz \<Rightarrow> bool" and X :: "('oz, 'x) evm" and env msg and w :: "('oz, 'x) eth_world" where
  eff_drift: "drift init X w w' \<Longrightarrow> eth_effect K init X env msg w w'"
| eff_sent: "drift init X w v \<Longrightarrow> unat nonce = unat (requestNonce (emost v)) + 1 \<Longrightarrow>
     emost w' = (log_event (Eth_CrosschainTransferRequest (committeeId (emost v)) t a r (requestNonce (emost v))) (emost v))
       \<lparr>requestNonce := nonce\<rparr> \<Longrightarrow>
     eth_effect K init X env msg w w'"
| eff_counted: "msg = ReceiveRequest_Eth h c t a r n \<Longrightarrow> h = eth_request_hash K c t a r n \<Longrightarrow>
     isInCommittee K c (msg_sender env) (emost w) \<Longrightarrow> \<not> processedRequests (emost w) h \<Longrightarrow>
     \<not> hasSignedRequest (msg_sender env) h (emost w) \<Longrightarrow>
     unat count = unat (signatureCount (pendingRequests (emost w) h)) + 1 \<Longrightarrow>
     count < signatureThreshold (emost w) c \<Longrightarrow>
     emost w' = voted h (msg_sender env) count (emost w) \<Longrightarrow> eth_effect K init X env msg w w'"
| eff_executed: "msg = ReceiveRequest_Eth h c t a r n \<Longrightarrow> h = eth_request_hash K c t a r n \<Longrightarrow>
     isInCommittee K c (msg_sender env) (emost w) \<Longrightarrow> \<not> processedRequests (emost w) h \<Longrightarrow>
     \<not> hasSignedRequest (msg_sender env) h (emost w) \<Longrightarrow>
     unat count = unat (signatureCount (pendingRequests (emost w) h)) + 1 \<Longrightarrow>
     signatureThreshold (emost w) c \<le> count \<Longrightarrow>
     emost v = settled h (voted h (msg_sender env) count (emost w)) \<Longrightarrow> drift init X v v' \<Longrightarrow>
     emost w' = log_event (Eth_RequestProcessed h) (emost v') \<Longrightarrow> eth_effect K init X env msg w w'"
| eff_committee: "unat c = unat (committeeId (emost w)) + 1 \<Longrightarrow> threshold \<noteq> 0 \<Longrightarrow> unat threshold \<le> length accounts \<Longrightarrow>
     register_members K c accounts (eth_committee (emost w)) = Ok members \<Longrightarrow>
     emost w' = log_event (Eth_CommitteeUpdated c) ((emost w)\<lparr>committeeId := c, eth_committee := members,
       committeeSize := (committeeSize (emost w))(c := of_nat (length accounts)),
       signatureThreshold := (signatureThreshold (emost w))(c := threshold)\<rparr>) \<Longrightarrow>
     eth_effect K init X env msg w w'"

text \<open>
  What \<^verbatim>\<open>Initializable\<close> promises: once the initialiser has run it never runs again, and no other function
  of the modules takes the mark away.
\<close>

definition initializer_law :: "'oz oz_lib \<Rightarrow> ('oz \<Rightarrow> bool) \<Rightarrow> bool" where
  "initializer_law Z init \<longleftrightarrow>
     (\<forall>s. init (end_initializer Z s)) \<and>
     (\<forall>s. init s \<longrightarrow> \<not> is_ok (begin_initializer Z s)) \<and>
     (\<forall>a s s'. init s \<longrightarrow> oz_pause Z a s = Ok s' \<or> oz_unpause Z a s = Ok s' \<or> oz_accept_ownership Z a s = Ok s' \<or>
        (\<exists>b. oz_transfer_ownership Z a b s = Ok s') \<longrightarrow> init s')"

lemma initializer_lawD:
  assumes "initializer_law Z init"
  shows "init (end_initializer Z s)" and "init s \<Longrightarrow> begin_initializer Z s \<noteq> Ok s'"
    and "init s \<Longrightarrow> oz_pause Z a s = Ok s' \<Longrightarrow> init s'" and "init s \<Longrightarrow> oz_unpause Z a s = Ok s' \<Longrightarrow> init s'"
    and "init s \<Longrightarrow> oz_accept_ownership Z a s = Ok s' \<Longrightarrow> init s'"
    and "init s \<Longrightarrow> oz_transfer_ownership Z a b s = Ok s' \<Longrightarrow> init s'"
  using assms unfolding initializer_law_def is_ok_iff by blast+

section \<open>Every function has one of the effects\<close>

lemma require_Ok [result_elims]: "require b e = Ok u \<longleftrightarrow> b"
  by (simp add: require_def)

lemma increment_Ok [result_elims]: "increment x = Ok y \<longleftrightarrow> unat y = unat x + 1"
  using checked_add_Some [of x 1 y] by (auto simp: increment_def split: option.splits)

lemma on_most_simps [simp]:
  "emost (on_most f w) = f (emost w)" "emost (emit_eth e w) = log_event e (emost w)" "outside (on_most f w) = outside w"
  by (simp_all add: on_most_def emit_eth_def log_event_def)

lemma drift_trans: "drift init X v u \<Longrightarrow> drift init X w v \<Longrightarrow> drift init X w u"
  by (induction rule: drift.induct) (auto intro: drift.intros)

lemma drift_call: "external_call X c w = Some (data, w') \<Longrightarrow> drift init X w w'"
  using drift.called [OF drift.stay] .

lemma drift_quiet: "quiet init (emost w) (emost w') \<Longrightarrow> drift init X w w'"
  using drift.updated [OF drift.stay] .

lemma quiet_logged: "neutral_eth_event e \<Longrightarrow> quiet init m (log_event e m)"
  by (auto simp: quiet_def log_event_def intro!: exI [of _ "supportedPairs m"] exI [of _ "oz_state m"] exI [of _ "[e]"])

lemma quiet_oz: "(init (oz_state m) \<Longrightarrow> init s) \<Longrightarrow> quiet init m (m\<lparr>oz_state := s\<rparr>)"
  by (auto simp: quiet_def intro!: exI [of _ "supportedPairs m"] exI [of _ s] exI [of _ "[]"])

lemma quiet_pairs: "quiet init m (m\<lparr>supportedPairs := p\<rparr>)"
  by (auto simp: quiet_def intro!: exI [of _ p] exI [of _ "oz_state m"] exI [of _ "[]"])

lemma announce_effect:
  assumes "drift init X w v" and "announce t a r v = Ok w'"
  shows "eth_effect K init X env msg w w'"
proof -
  obtain nonce where "unat nonce = unat (requestNonce (emost v)) + 1" and
    "w' = on_most (\<lambda>m. m\<lparr>requestNonce := nonce\<rparr>)
       (emit_eth (Eth_CrosschainTransferRequest (committeeId (emost v)) t a r (requestNonce (emost v))) v)"
    using assms(2) by (auto simp: announce_def result_elims log_event_def Let_def)
  then show ?thesis by (intro eff_sent [OF assms(1)]) simp_all
qed

lemma drift_emit: "drift init X w v \<Longrightarrow> neutral_eth_event e \<Longrightarrow> drift init X w (emit_eth e v)"
  by (erule drift.updated) (simp add: quiet_logged)

lemma tokenTransferReturnSuccess_drift:
  "tokenTransferReturnSuccess X token receiver amount w = Ok (b, w') \<Longrightarrow> drift init X w w'"
  by (auto simp: tokenTransferReturnSuccess_def result_elims split: option.splits intro: drift.stay drift_call)

lemma return_locked_drift:
  assumes "return_locked X h t a r w = Ok w'"
  shows "drift init X w w'"
proof (cases "bytes32ToAddress t = wethAddress (emost w)")
  case True
  then obtain data v where v: "external_call X (Low_Call (wethAddress (emost w)) 0 None (Call_Withdraw a)) w = Some (data, v)"
    using assms by (auto simp: return_locked_def Let_def split: option.splits)
  show ?thesis
    using assms True v drift_emit [OF drift_call [OF v]]
    by (auto simp: return_locked_def Let_def split: option.splits intro: drift.called [OF drift_call [OF v]])
next
  case False
  then obtain b v where "tokenTransferReturnSuccess X (bytes32ToAddress t) (bytes32ToAddress r) a w = Ok (b, v)"
    and "w' = (if \<not> b then emit_eth (Eth_TokenTransferFailed h) v else v)"
    using assms by (auto simp: return_locked_def Let_def result_elims)
  then show ?thesis using tokenTransferReturnSuccess_drift drift_emit by (cases b) fastforce+
qed

text \<open>The vote itself, once the early returns are past.\<close>

lemma receiveRequest_vote:
  assumes "\<not> processedRequests (emost w) h" and "\<not> hasSignedRequest (msg_sender env) (eth_request_hash K c t a r n) (emost w)"
  shows "receiveRequest K Z X env h c t a r n w =
    try_res (whenNotPaused Z (emost w)) (\<lambda>_.
    try_res (onlyCommitteeMember K env c (emost w)) (\<lambda>_.
    try_res (require (h = eth_request_hash K c t a r n) Rev_DataHashMismatch) (\<lambda>_.
    try_res (increment (signatureCount (pendingRequests (emost w) h))) (\<lambda>count.
      if signatureThreshold (emost w) c \<le> count then
        try_res (return_locked X h t a r (on_most (\<lambda>m. settled h (voted h (msg_sender env) count m)) w)) (\<lambda>v.
          Ok (emit_eth (Eth_RequestProcessed h) v))
      else Ok (on_most (voted h (msg_sender env) count) w)))))"
proof (cases "h = eth_request_hash K c t a r n")
  case True
  then show ?thesis
    using assms
    by (simp add: receiveRequest_def hasSignedRequest_def Let_def require_def on_most_def emit_eth_def voted_def settled_def
        fun_upd_upd cong: if_cong)
next
  case False
  then show ?thesis
    using assms by (simp add: receiveRequest_def hasSignedRequest_def Let_def require_def)
qed

lemma receiveRequest_counts:
  assumes "receiveRequest K Z X env h c t a r n w = Ok w'" and vote: "\<not> processedRequests (emost w) h"
    "\<not> hasSignedRequest (msg_sender env) (eth_request_hash K c t a r n) (emost w)"
  obtains (counted) count where "h = eth_request_hash K c t a r n" "count < signatureThreshold (emost w) c"
      "unat count = unat (signatureCount (pendingRequests (emost w) h)) + 1"
      "w' = on_most (voted h (msg_sender env) count) w"
  | (executed) count v where "h = eth_request_hash K c t a r n" "signatureThreshold (emost w) c \<le> count"
      "unat count = unat (signatureCount (pendingRequests (emost w) h)) + 1"
      "return_locked X h t a r (on_most (\<lambda>m. settled h (voted h (msg_sender env) count m)) w) = Ok v"
      "w' = emit_eth (Eth_RequestProcessed h) v"
proof -
  obtain count where facts: "h = eth_request_hash K c t a r n" "unat count = unat (signatureCount (pendingRequests (emost w) h)) + 1"
    and body: "(if signatureThreshold (emost w) c \<le> count
      then \<exists>v. return_locked X h t a r (on_most (\<lambda>m. settled h (voted h (msg_sender env) count m)) w) = Ok v \<and>
             w' = emit_eth (Eth_RequestProcessed h) v
      else w' = on_most (voted h (msg_sender env) count) w)"
    using assms(1) unfolding receiveRequest_vote [OF vote]
    by (auto simp: result_elims split: if_splits)
  show thesis
  proof (cases "signatureThreshold (emost w) c \<le> count")
    case True
    with body facts executed show thesis by auto
  next
    case False
    with body show thesis by (intro counted [OF facts(1) _ facts(2)]) simp_all
  qed
qed

lemma receiveRequest_effect:
  assumes "receiveRequest K Z X env h c t a r n w = Ok w'"
  shows "eth_effect K init X env (ReceiveRequest_Eth h c t a r n) w w'"
proof -
  let ?h = "eth_request_hash K c t a r n" and ?s = "msg_sender env"
  have member: "isInCommittee K c ?s (emost w)"
    using assms by (auto simp: receiveRequest_def onlyCommitteeMember_def result_elims)
  consider (processed) "processedRequests (emost w) h" | (repeated) "\<not> processedRequests (emost w) h" "hasSignedRequest ?s ?h (emost w)"
    | (vote) "\<not> processedRequests (emost w) h" "\<not> hasSignedRequest ?s ?h (emost w)" by blast
  then show ?thesis
  proof cases
    case processed
    then show ?thesis using assms
      by (auto simp: receiveRequest_def result_elims intro!: eff_drift drift_quiet quiet_logged)
  next
    case repeated
    then show ?thesis using assms
      by (auto simp: receiveRequest_def result_elims hasSignedRequest_def intro!: eff_drift drift_quiet quiet_logged)
  next
    case vote
    from assms vote show ?thesis
    proof (cases rule: receiveRequest_counts)
      case (counted count)
      then show ?thesis using eff_counted [OF refl counted(1) member vote(1) _ counted(3,2)] vote(2) by simp
    next
      case (executed count v)
      show ?thesis
        by (rule eff_executed [OF refl executed(1) member vote(1) _ executed(3,2) _ return_locked_drift [OF executed(4)]])
           (use vote(2) executed in simp_all)
    qed
  qed
qed

lemma setCommittee_internal_Ok [result_elims]:
  "setCommittee_internal K accounts threshold m = Ok m' \<longleftrightarrow>
     threshold \<noteq> 0 \<and> unat threshold \<le> length accounts \<and>
     (\<exists>members. register_members K (committeeId m) accounts (eth_committee m) = Ok members \<and>
        m' = m\<lparr>eth_committee := members,
               committeeSize := (committeeSize m)(committeeId m := of_nat (length accounts)),
               signatureThreshold := (signatureThreshold m)(committeeId m := threshold)\<rparr>)"
  by (auto simp: setCommittee_internal_def result_elims not_less)

lemma setCommittee_effect:
  assumes "setCommittee K Z env accounts threshold w = Ok w'"
  shows "eth_effect K init X env msg w w'"
proof -
  obtain c members where facts: "unat c = unat (committeeId (emost w)) + 1" "threshold \<noteq> 0" "unat threshold \<le> length accounts"
    "register_members K c accounts (eth_committee (emost w)) = Ok members"
    and "w' = emit_eth (Eth_CommitteeUpdated c) (w\<lparr>emost := (emost w)\<lparr>committeeId := c, eth_committee := members,
       committeeSize := (committeeSize (emost w))(c := of_nat (length accounts)),
       signatureThreshold := (signatureThreshold (emost w))(c := threshold)\<rparr>\<rparr>)"
    using assms by (auto simp: setCommittee_def result_elims)
  then show ?thesis by (intro eff_committee [OF facts]) simp
qed

lemma on_oz_effect:
  assumes "on_oz f w = Ok w'" and "\<And>s'. init (oz_state (emost w)) \<Longrightarrow> f (oz_state (emost w)) = Ok s' \<Longrightarrow> init s'"
  shows "eth_effect K init X env msg w w'"
  using assms by (auto simp: on_oz_def result_elims intro!: eff_drift drift_quiet quiet_oz)

theorem eth_dispatch_effect:
  assumes ok: "eth_dispatch K Z X env msg w = Ok w'" and law: "initializer_law Z init" and init: "init (oz_state (emost w))"
  shows "eth_effect K init X env msg w w'"
proof -
  have run: "eth_function K Z X env msg w = Ok w'" using ok by (auto simp: eth_dispatch_def result_elims)
  have call: "eth_effect K init X env msg w v" if "external_call X c w = Some (data, v)" for c data v
    by (rule eff_drift [OF drift_call [OF that]])
  note laws = initializer_lawD [OF law]
  note oz = on_oz_effect [where K = K and X = X and env = env and msg = msg and init = init]
  show ?thesis
  proof (cases msg)
    case (Initialize accounts threshold owner weth)
    then show ?thesis using run laws(2) [OF init] by (auto simp: initialize_most_def result_elims)
  next
    case (SendRequest_Eth t a r)
    then show ?thesis using run
      by (auto simp: sendRequest_def result_elims Let_def split: option.splits intro: announce_effect drift_call)
  next
    case (SendRequestNative r)
    then show ?thesis using run
      by (auto simp: sendRequestNative_def result_elims Let_def split: option.splits intro: announce_effect drift_call)
  next
    case (ReceiveRequest_Eth h c t a r n)
    then show ?thesis using run receiveRequest_effect by auto
  next
    case (SetCommittee_Eth accounts threshold)
    then show ?thesis using run setCommittee_effect by auto
  next
    case (TransferOwnership_Eth a)
    with run have "on_oz (oz_transfer_ownership Z (msg_sender env) a) w = Ok w'" by simp
    then show ?thesis by (rule oz) (rule laws(6))
  next
    case AcceptOwnership_Eth
    with run have "on_oz (oz_accept_ownership Z (msg_sender env)) w = Ok w'" by (auto)
    then show ?thesis by (rule oz) (rule laws(5))
  next
    case Pause_Eth
    with run have "on_oz (oz_pause Z (msg_sender env)) w = Ok w'" by (auto simp: pause_most_def result_elims)
    then show ?thesis by (rule oz) (rule laws(3))
  next
    case Unpause_Eth
    with run have "on_oz (oz_unpause Z (msg_sender env)) w = Ok w'" by (auto simp: unpause_most_def result_elims)
    then show ?thesis by (rule oz) (rule laws(4))
  next
    case (RecoverERC20 t to a)
    then show ?thesis using run call by (auto simp: recoverERC20_def result_elims split: option.splits)
  next
    case (RecoverNative to a)
    then show ?thesis using run call by (auto simp: recoverNative_def result_elims split: option.splits)
  next
    case (AddPair_Eth src dst)
    then show ?thesis using run by (auto simp: addPair_def result_elims intro!: eff_drift drift_quiet quiet_pairs)
  next
    case (RemovePair_Eth src)
    then show ?thesis using run by (auto simp: removePair_def result_elims intro!: eff_drift drift_quiet quiet_pairs)
  next
    case RenounceOwnership
    then show ?thesis using run by (auto simp: renounceOwnership_def result_elims intro: eff_drift drift.stay)
  next
    case Receive_Ether
    then show ?thesis using run by (auto simp: receive_ether_def result_elims intro: eff_drift drift.stay)
  qed
qed

section \<open>Callbacks add nothing: runs are sequences of atomic steps\<close>

text \<open>
  The steps of the contract when nothing interrupts it.  An execution has two of them, the vote that
  completes the quorum and the event at the end, between which the request is in flight; \<open>F\<close> is the set
  of requests in flight.
\<close>

inductive eth_atom ::
  "(u8 list \<Rightarrow> bytes32) \<Rightarrow> ('oz \<Rightarrow> bool) \<Rightarrow> (eth_env \<Rightarrow> eth_msg \<Rightarrow> bool)
    \<Rightarrow> bytes32 set \<times> 'oz eth_most \<Rightarrow> bytes32 set \<times> 'oz eth_most \<Rightarrow> bool"
  for K :: "u8 list \<Rightarrow> bytes32" and init :: "'oz \<Rightarrow> bool" and G :: "eth_env \<Rightarrow> eth_msg \<Rightarrow> bool" where
  atom_quiet: "quiet init m m' \<Longrightarrow> eth_atom K init G (F, m) (F, m')"
| atom_sent: "unat nonce = unat (requestNonce m) + 1 \<Longrightarrow>
     eth_atom K init G (F, m)
       (F, (log_event (Eth_CrosschainTransferRequest (committeeId m) t a r (requestNonce m)) m)\<lparr>requestNonce := nonce\<rparr>)"
| atom_counted: "G env (ReceiveRequest_Eth h c t a r n) \<Longrightarrow> h = eth_request_hash K c t a r n \<Longrightarrow>
     isInCommittee K c (msg_sender env) m \<Longrightarrow> \<not> processedRequests m h \<Longrightarrow> \<not> hasSignedRequest (msg_sender env) h m \<Longrightarrow>
     unat count = unat (signatureCount (pendingRequests m h)) + 1 \<Longrightarrow> count < signatureThreshold m c \<Longrightarrow>
     eth_atom K init G (F, m) (F, voted h (msg_sender env) count m)"
| atom_executed: "G env (ReceiveRequest_Eth h c t a r n) \<Longrightarrow> h = eth_request_hash K c t a r n \<Longrightarrow>
     isInCommittee K c (msg_sender env) m \<Longrightarrow> \<not> processedRequests m h \<Longrightarrow> \<not> hasSignedRequest (msg_sender env) h m \<Longrightarrow>
     unat count = unat (signatureCount (pendingRequests m h)) + 1 \<Longrightarrow> signatureThreshold m c \<le> count \<Longrightarrow>
     eth_atom K init G (F, m) (insert h F, settled h (voted h (msg_sender env) count m))"
| atom_finished: "h \<in> F \<Longrightarrow> eth_atom K init G (F, m) (F - {h}, log_event (Eth_RequestProcessed h) m)"
| atom_committee: "unat c = unat (committeeId m) + 1 \<Longrightarrow> threshold \<noteq> 0 \<Longrightarrow> unat threshold \<le> length accounts \<Longrightarrow>
     register_members K c accounts (eth_committee m) = Ok members \<Longrightarrow>
     eth_atom K init G (F, m) (F, log_event (Eth_CommitteeUpdated c) (m\<lparr>committeeId := c, eth_committee := members,
       committeeSize := (committeeSize m)(c := of_nat (length accounts)),
       signatureThreshold := (signatureThreshold m)(c := threshold)\<rparr>))"

definition in_flight :: "('oz \<Rightarrow> bool) \<Rightarrow> bytes32 set \<Rightarrow> 'oz eth_most \<Rightarrow> bool" where
  "in_flight init F m \<longleftrightarrow> init (oz_state m) \<and> (\<forall>h\<in>F. processedRequests m h)"

lemma step_simps [simp]:
  "processedRequests (voted h a count m) = processedRequests m" "oz_state (voted h a count m) = oz_state m"
  "processedRequests (settled h m) = (processedRequests m)(h := True)" "oz_state (settled h m) = oz_state m"
  "processedRequests (log_event e m) = processedRequests m" "oz_state (log_event e m) = oz_state m"
  by (simp_all add: voted_def settled_def log_event_def)

lemma in_flight_atom:
  assumes "eth_atom K init G s s'" and "in_flight init (fst s) (snd s)"
  shows "in_flight init (fst s') (snd s')"
  using assms by (induction rule: eth_atom.induct) (auto simp: in_flight_def quiet_def)

lemma in_flight_atoms:
  "(eth_atom K init G)\<^sup>*\<^sup>* s s' \<Longrightarrow> in_flight init (fst s) (snd s) \<Longrightarrow> in_flight init (fst s') (snd s')"
  by (induction rule: rtranclp_induct) (auto dest: in_flight_atom)

text \<open>What is asked of every call to another contract in a run.\<close>

definition tame ::
  "(u8 list \<Rightarrow> bytes32) \<Rightarrow> ('oz \<Rightarrow> bool) \<Rightarrow> (eth_env \<Rightarrow> eth_msg \<Rightarrow> bool) \<Rightarrow> ('oz, 'x) eth_world \<Rightarrow> ('oz, 'x) eth_world \<Rightarrow> bool" where
  "tame K init G w w' \<longleftrightarrow>
     (\<forall>F. in_flight init F (emost w) \<longrightarrow> (eth_atom K init G)\<^sup>*\<^sup>* (F, emost w) (F, emost w'))"

lemma tame_step:
  assumes "tame K init G w v" and "\<And>F. in_flight init F (emost v) \<Longrightarrow> (eth_atom K init G)\<^sup>*\<^sup>* (F, emost v) (F, emost v')"
  shows "tame K init G w v'"
  unfolding tame_def
proof (intro allI impI)
  fix F assume F: "in_flight init F (emost w)"
  with assms(1) have run: "(eth_atom K init G)\<^sup>*\<^sup>* (F, emost w) (F, emost v)" by (simp add: tame_def)
  with F have "in_flight init F (emost v)" using in_flight_atoms by fastforce
  then have "(eth_atom K init G)\<^sup>*\<^sup>* (F, emost v) (F, emost v')" by (rule assms(2))
  with run show "(eth_atom K init G)\<^sup>*\<^sup>* (F, emost w) (F, emost v')" by (rule rtranclp_trans)
qed

lemma tame_trans: "tame K init G w v \<Longrightarrow> tame K init G v u \<Longrightarrow> tame K init G w u"
  by (rule tame_step) (auto simp: tame_def)

lemma tame_atom: "(\<And>F. eth_atom K init G (F, emost w) (F, emost w')) \<Longrightarrow> tame K init G w w'"
  by (auto simp: tame_def)

lemma drift_tame:
  assumes "drift init X w w'" and "\<And>c u data u'. external_call X c u = Some (data, u') \<Longrightarrow> tame K init G u u'"
  shows "tame K init G w w'"
  using assms(1)
proof (induction rule: drift.induct)
  case (called w v c data v')
  show ?case by (rule tame_trans [OF called(3) assms(2) [OF called(2)]])
next
  case (updated w v v')
  have "tame K init G v v'" by (rule tame_atom) (rule eth_atom.atom_quiet [OF updated(2)])
  with updated(3) show ?case by (rule tame_trans)
qed (simp add: tame_def)

lemma effect_tame:
  assumes "eth_effect K init X env msg w w'" and "G env msg"
    and calls: "\<And>c u data u'. external_call X c u = Some (data, u') \<Longrightarrow> tame K init G u u'"
  shows "tame K init G w w'"
  using assms(1)
proof cases
  case eff_drift
  then show ?thesis by (rule drift_tame) (rule calls)
next
  case (eff_sent v nonce t a r)
  from eff_sent(1) have "tame K init G w v" by (rule drift_tame) (rule calls)
  moreover have "tame K init G v w'"
    by (rule tame_atom) (simp only: eff_sent(3) eth_atom.atom_sent [OF eff_sent(2)])
  ultimately show ?thesis by (rule tame_trans)
next
  case (eff_counted h c t a r n count)
  then have "eth_atom K init G (F, emost w) (F, emost w')" for F
    using assms(2) atom_counted [of G env h c t a r n K "emost w" count init F] by simp
  then show ?thesis by (rule tame_atom)
next
  case (eff_executed h c t a r n count v v')
  have flight: "tame K init G v v'" using eff_executed by (auto intro: drift_tame calls)
  have "(eth_atom K init G)\<^sup>*\<^sup>* (F, emost w) (F, emost w')" if "in_flight init F (emost w)" for F
  proof -
    have fst: "eth_atom K init G (F, emost w) (insert h F, emost v)"
      using assms(2) eff_executed atom_executed [of G env h c t a r n K "emost w" count init F] by simp
    then have "in_flight init (insert h F) (emost v)" using in_flight_atom that by fastforce
    then have "(eth_atom K init G)\<^sup>*\<^sup>* (insert h F, emost v) (insert h F, emost v')" using flight by (simp add: tame_def)
    moreover have "h \<notin> F" using that eff_executed(4) by (auto simp: in_flight_def)
    then have "eth_atom K init G (insert h F, emost v') (F, emost w')"
      using eth_atom.atom_finished [of h "insert h F" K init G "emost v'"] eff_executed by simp
    ultimately show ?thesis using fst by (meson converse_rtranclp_into_rtranclp rtranclp.rtrancl_into_rtrancl)
  qed
  then show ?thesis by (simp add: tame_def)
next
  case (eff_committee c threshold accounts members)
  then have "eth_atom K init G (F, emost w) (F, emost w')" for F
    using atom_committee [of c "emost w" threshold accounts K members init G F] by simp
  then show ?thesis by (rule tame_atom)
qed

theorem eth_evolves_tame:
  assumes "eth_evolves K Z G w w'" and law: "initializer_law Z init"
  shows "tame K init G w w'"
  using assms(1)
proof (induction rule: eth_evolves.induct)
  case (message w v env msg X v')
  have "(eth_atom K init G)\<^sup>*\<^sup>* (F, emost v) (F, emost v')" if F: "in_flight init F (emost v)" for F
  proof -
    have "eth_effect K init X env msg v v'"
      using eth_dispatch_effect [OF message.hyps(3) law] F by (simp add: in_flight_def)
    then have "tame K init G v v'" by (rule effect_tame) (use message in blast)+
    with F show ?thesis by (simp add: tame_def)
  qed
  then show ?case by (rule tame_step [OF message.IH(1)])
qed (simp_all add: tame_def)

end
