(* ===== verification/Eth_Invariants.thy ===== *)
theory Eth_Invariants
  imports Eth_Runs
begin

text \<open>
  The invariants of the Ethereum contract, kept by every atomic step and hence by every run, callbacks
  included: the votes, the committees, the nonces and the log of executions.
\<close>

section \<open>Reading the log\<close>

definition eth_sent_nonces :: "eth_event list \<Rightarrow> nat list" where
  "eth_sent_nonces es = concat (map (\<lambda>e. case e of Eth_CrosschainTransferRequest c t a r n \<Rightarrow> [unat n] | _ \<Rightarrow> []) es)"

definition eth_processed_log :: "eth_event list \<Rightarrow> bytes32 list" where
  "eth_processed_log es = concat (map (\<lambda>e. case e of Eth_RequestProcessed h \<Rightarrow> [h] | _ \<Rightarrow> []) es)"

definition eth_signed_log :: "eth_event list \<Rightarrow> (bytes32 \<times> eth_address) list" where
  "eth_signed_log es = concat (map (\<lambda>e. case e of Eth_RequestSigned h a \<Rightarrow> [(h, a)] | _ \<Rightarrow> []) es)"

lemmas eth_log_defs = eth_sent_nonces_def eth_processed_log_def eth_signed_log_def

lemma eth_logs_append [simp]:
  "eth_sent_nonces (xs @ ys) = eth_sent_nonces xs @ eth_sent_nonces ys"
  "eth_processed_log (xs @ ys) = eth_processed_log xs @ eth_processed_log ys"
  "eth_signed_log (xs @ ys) = eth_signed_log xs @ eth_signed_log ys"
  by (simp_all add: eth_log_defs)

lemma eth_logs_single [simp]:
  "eth_sent_nonces [e] = (case e of Eth_CrosschainTransferRequest c t a r n \<Rightarrow> [unat n] | _ \<Rightarrow> [])"
  "eth_processed_log [e] = (case e of Eth_RequestProcessed h \<Rightarrow> [h] | _ \<Rightarrow> [])"
  "eth_signed_log [e] = (case e of Eth_RequestSigned h a \<Rightarrow> [(h, a)] | _ \<Rightarrow> [])"
  "eth_sent_nonces [] = []" "eth_processed_log [] = []" "eth_signed_log [] = []"
  by (simp_all add: eth_log_defs)

lemma eth_logs_neutral:
  assumes "list_all neutral_eth_event es"
  shows "eth_sent_nonces es = []" and "eth_processed_log es = []" and "eth_signed_log es = []"
  using assms by (induction es) (auto simp: eth_log_defs split: eth_event.splits)

section \<open>The invariants\<close>

definition eth_signers :: "'oz eth_most \<Rightarrow> bytes32 \<Rightarrow> eth_address set" where
  "eth_signers m h = {a. hasSignedRequest a h m}"

text \<open>
  Committees: an id has a threshold, which is not zero, exactly when it is not beyond the current one, and
  every registered member was registered for such an id.
\<close>

definition eth_committee_inv :: "(u8 list \<Rightarrow> bytes32) \<Rightarrow> 'oz eth_most \<Rightarrow> bool" where
  "eth_committee_inv K m \<longleftrightarrow>
     (\<forall>c. signatureThreshold m c \<noteq> 0 \<longleftrightarrow> c \<le> committeeId m) \<and>
     (\<forall>k. eth_committee m k \<longrightarrow> (\<exists>c a. c \<le> committeeId m \<and> k = committee_member_id K c a))"

text \<open>
  A request has its quorum when it has as many signers as the threshold of a committee named in data
  with its hash, a committee that exists.  Membership is looked up by a hash, so the one other way to
  execute a request is a signer whose member id for a committee still to come collides with the member
  id of somebody in an earlier committee.
\<close>

definition eth_quorum :: "(u8 list \<Rightarrow> bytes32) \<Rightarrow> bytes32 \<Rightarrow> 'oz eth_most \<Rightarrow> bool" where
  "eth_quorum K h m \<longleftrightarrow>
     (\<exists>c t amount r n a. h = eth_request_hash K c t amount r n \<and> a \<in> eth_signers m h \<and> isInCommittee K c a m \<and>
        (c \<le> committeeId m \<and> unat (signatureThreshold m c) \<le> card (eth_signers m h) \<or>
         (\<exists>c' b. c' < c \<and> committee_member_id K c' b = committee_member_id K c a)))"

definition eth_vote_inv :: "(u8 list \<Rightarrow> bytes32) \<Rightarrow> 'oz eth_most \<Rightarrow> bool" where
  "eth_vote_inv K m \<longleftrightarrow>
     (\<forall>h. finite (eth_signers m h)) \<and>
     (\<forall>h. unat (signatureCount (pendingRequests m h)) = (if processedRequests m h then 0 else card (eth_signers m h))) \<and>
     (\<forall>h. \<forall>a\<in>eth_signers m h. \<exists>c t amount r n. h = eth_request_hash K c t amount r n \<and> isInCommittee K c a m) \<and>
     (\<forall>h. processedRequests m h \<longrightarrow> eth_quorum K h m)"

definition eth_log_inv :: "bytes32 set \<Rightarrow> 'oz eth_most \<Rightarrow> bool" where
  "eth_log_inv F m \<longleftrightarrow>
     distinct (eth_processed_log (eth_events m)) \<and>
     set (eth_processed_log (eth_events m)) = Collect (processedRequests m) - F \<and>
     (\<forall>h\<in>F. processedRequests m h) \<and>
     distinct (eth_signed_log (eth_events m)) \<and>
     (\<forall>h a. (h, a) \<in> set (eth_signed_log (eth_events m)) \<longleftrightarrow> a \<in> eth_signers m h)"

definition eth_nonce_inv :: "'oz eth_most \<Rightarrow> bool" where
  "eth_nonce_inv m \<longleftrightarrow> eth_sent_nonces (eth_events m) = [0..<unat (requestNonce m)]"

definition eth_most_inv :: "(u8 list \<Rightarrow> bytes32) \<Rightarrow> bytes32 set \<Rightarrow> 'oz eth_most \<Rightarrow> bool" where
  "eth_most_inv K F m \<longleftrightarrow> eth_vote_inv K m \<and> eth_committee_inv K m \<and> eth_log_inv F m \<and> eth_nonce_inv m"

section \<open>Views of the steps\<close>

lemma hasSignedRequest_signers: "hasSignedRequest a h m \<longleftrightarrow> a \<in> eth_signers m h"
  by (simp add: eth_signers_def)

lemma voted_simps [simp]:
  "eth_signers (voted h a count m) k = (if k = h then insert a (eth_signers m h) else eth_signers m k)"
  "signatureCount (pendingRequests (voted h a count m) k) =
     (if k = h then count else signatureCount (pendingRequests m k))"
  "isInCommittee K c b (voted h a count m) = isInCommittee K c b m"
  "signatureThreshold (voted h a count m) = signatureThreshold m" "committeeId (voted h a count m) = committeeId m"
  "eth_committee (voted h a count m) = eth_committee m" "requestNonce (voted h a count m) = requestNonce m"
  "eth_events (voted h a count m) = eth_events m @ [Eth_RequestSigned h a]"
  by (auto simp: voted_def eth_signers_def hasSignedRequest_def isInCommittee_def)

lemma settled_simps [simp]:
  "eth_signers (settled h m) = eth_signers m"
  "signatureCount (pendingRequests (settled h m) k) = (if k = h then 0 else signatureCount (pendingRequests m k))"
  "isInCommittee K c b (settled h m) = isInCommittee K c b m"
  "signatureThreshold (settled h m) = signatureThreshold m" "committeeId (settled h m) = committeeId m"
  "eth_committee (settled h m) = eth_committee m" "requestNonce (settled h m) = requestNonce m"
  "eth_events (settled h m) = eth_events m"
  by (auto simp: settled_def eth_signers_def [abs_def] hasSignedRequest_def isInCommittee_def fun_eq_iff)

lemma log_event_simps [simp]:
  "eth_signers (log_event e m) = eth_signers m" "pendingRequests (log_event e m) = pendingRequests m"
  "isInCommittee K c b (log_event e m) = isInCommittee K c b m"
  "signatureThreshold (log_event e m) = signatureThreshold m" "committeeId (log_event e m) = committeeId m"
  "eth_committee (log_event e m) = eth_committee m" "requestNonce (log_event e m) = requestNonce m"
  "eth_events (log_event e m) = eth_events m @ [e]"
  by (auto simp: log_event_def eth_signers_def [abs_def] hasSignedRequest_def isInCommittee_def)

lemma update_simps [simp]:
  "eth_signers (m\<lparr>requestNonce := n\<rparr>) = eth_signers m"
  "eth_signers (m\<lparr>committeeId := c, eth_committee := ms, committeeSize := sz, signatureThreshold := th\<rparr>) = eth_signers m"
  "isInCommittee K c b (m\<lparr>requestNonce := n\<rparr>) = isInCommittee K c b m"
  by (auto simp: eth_signers_def [abs_def] hasSignedRequest_def isInCommittee_def)

lemma quiet_views:
  assumes "quiet init m m'"
  shows "eth_signers m' = eth_signers m" "pendingRequests m' = pendingRequests m"
    "processedRequests m' = processedRequests m" "eth_committee m' = eth_committee m"
    "signatureThreshold m' = signatureThreshold m" "committeeId m' = committeeId m" "requestNonce m' = requestNonce m"
    "isInCommittee K c b m' = isInCommittee K c b m" "eth_sent_nonces (eth_events m') = eth_sent_nonces (eth_events m)"
    "eth_processed_log (eth_events m') = eth_processed_log (eth_events m)"
    "eth_signed_log (eth_events m') = eth_signed_log (eth_events m)"
  using assms by (auto simp: quiet_def eth_logs_neutral eth_signers_def [abs_def] hasSignedRequest_def isInCommittee_def)

lemma register_members_Ok:
  "register_members K cid accounts ms = Ok ms' \<Longrightarrow>
     ms' k \<longleftrightarrow> ms k \<or> (\<exists>a\<in>set accounts. k = committee_member_id K cid a)"
  by (induction accounts arbitrary: ms) (auto simp: Let_def split: if_splits)

section \<open>Each step keeps each invariant\<close>

lemma eth_committee_inv_atom:
  "eth_atom K init G s s' \<Longrightarrow> eth_committee_inv K (snd s) \<Longrightarrow> eth_committee_inv K (snd s')"
proof (induction rule: eth_atom.induct)
  case (atom_quiet m m' F)
  then show ?case by (simp add: eth_committee_inv_def quiet_views)
next
  case (atom_committee c m threshold accounts members F)
  have le: "x \<le> c \<longleftrightarrow> x \<le> committeeId m \<or> x = c" for x
    using atom_committee(1) by (auto simp: word_le_nat_alt word_unat_eq_iff)
  from atom_committee show ?case
    unfolding eth_committee_inv_def by (auto simp: le register_members_Ok [OF atom_committee(4)]) blast
qed (auto simp: eth_committee_inv_def)

lemma eth_nonce_inv_atom:
  "eth_atom K init G s s' \<Longrightarrow> eth_nonce_inv (snd s) \<Longrightarrow> eth_nonce_inv (snd s')"
  by (induction rule: eth_atom.induct) (auto simp: eth_nonce_inv_def quiet_views)

lemma eth_log_inv_atom:
  "eth_atom K init G s s' \<Longrightarrow> eth_log_inv (fst s) (snd s) \<Longrightarrow> eth_log_inv (fst s') (snd s')"
  by (induction rule: eth_atom.induct)
     (auto simp: eth_log_inv_def quiet_views hasSignedRequest_signers split: if_splits)

lemma eth_vote_card:
  assumes "eth_vote_inv K m" and "\<not> processedRequests m h" and "\<not> hasSignedRequest a h m"
    and "unat count = unat (signatureCount (pendingRequests m h)) + 1"
  shows "card (insert a (eth_signers m h)) = unat count"
  using assms by (simp add: eth_vote_inv_def eth_signers_def)

lemma eth_quorum_later:
  assumes "eth_quorum K h m" and "eth_signers m' h = eth_signers m h" and "committeeId m \<le> committeeId m'"
    and "\<And>c a. isInCommittee K c a m \<Longrightarrow> isInCommittee K c a m'"
    and "\<And>c. c \<le> committeeId m \<Longrightarrow> signatureThreshold m' c = signatureThreshold m c"
  shows "eth_quorum K h m'"
proof -
  from assms(1) obtain c t amount r n a where q: "h = eth_request_hash K c t amount r n" "a \<in> eth_signers m h" "isInCommittee K c a m"
    and reached: "c \<le> committeeId m \<and> unat (signatureThreshold m c) \<le> card (eth_signers m h) \<or>
         (\<exists>c' b. c' < c \<and> committee_member_id K c' b = committee_member_id K c a)"
    unfolding eth_quorum_def by blast
  from reached have "c \<le> committeeId m' \<and> unat (signatureThreshold m' c) \<le> card (eth_signers m h) \<or>
         (\<exists>c' b. c' < c \<and> committee_member_id K c' b = committee_member_id K c a)"
    using assms(3,5) order_trans by auto
  with q(1,2) assms(4) [OF q(3)] show ?thesis unfolding eth_quorum_def assms(2) by blast
qed

lemma eth_quorum_reached:
  assumes inv: "eth_vote_inv K m" "eth_committee_inv K m" and "isInCommittee K c a m" and h: "h = eth_request_hash K c t amount r n"
    and new: "\<not> processedRequests m h" "\<not> hasSignedRequest a h m"
    and count: "unat count = unat (signatureCount (pendingRequests m h)) + 1" and "signatureThreshold m c \<le> count"
  shows "eth_quorum K h (settled h (voted h a count m))"
proof -
  have "unat (signatureThreshold m c) \<le> card (insert a (eth_signers m h))"
    using eth_vote_card [OF inv(1) new count] assms(8) by (simp add: word_le_nat_alt)
  moreover have "\<exists>c' b. c' < c \<and> committee_member_id K c' b = committee_member_id K c a" if "\<not> c \<le> committeeId m"
  proof -
    obtain c' b where "c' \<le> committeeId m" "committee_member_id K c' b = committee_member_id K c a"
      using inv(2) assms(3) unfolding eth_committee_inv_def isInCommittee_def by metis
    with that show ?thesis by (meson not_le order_le_less_trans)
  qed
  ultimately show ?thesis
    unfolding eth_quorum_def
    by (intro exI [of _ c] exI [of _ t] exI [of _ amount] exI [of _ r] exI [of _ n] exI [of _ a]) (use assms(3) h in auto)
qed

lemma eth_vote_inv_later:
  assumes "eth_vote_inv K m" and "\<And>h. eth_signers m' h = eth_signers m h" and "committeeId m \<le> committeeId m'"
    and "\<And>c a. isInCommittee K c a m \<Longrightarrow> isInCommittee K c a m'"
    and "\<And>c. c \<le> committeeId m \<Longrightarrow> signatureThreshold m' c = signatureThreshold m c"
    and "pendingRequests m' = pendingRequests m" "processedRequests m' = processedRequests m"
  shows "eth_vote_inv K m'"
  unfolding eth_vote_inv_def assms(2,6,7)
  using assms(1) eth_quorum_later [OF _ assms(2-5)] assms(4) unfolding eth_vote_inv_def by metis

lemma eth_vote_inv_voted:
  assumes inv: "eth_vote_inv K m" and "isInCommittee K c a m" and "h = eth_request_hash K c t amount r n"
    and new: "\<not> processedRequests m h" "\<not> hasSignedRequest a h m"
    and count: "unat count = unat (signatureCount (pendingRequests m h)) + 1"
  shows "eth_vote_inv K (voted h a count m)"
proof -
  have quorum: "eth_quorum K k (voted h a count m)" if "processedRequests m k" for k
    by (rule eth_quorum_later [of K k m]) (use inv that new(1) in \<open>auto simp: eth_vote_inv_def\<close>)
  have "\<exists>c t amount r n. k = eth_request_hash K c t amount r n \<and> isInCommittee K c b m"
    if "b \<in> eth_signers m k \<or> k = h \<and> b = a" for k b
    using that inv assms(2,3) unfolding eth_vote_inv_def by blast
  moreover note eth_vote_card [OF inv new count]
  ultimately show ?thesis
    using inv new(1) quorum unfolding eth_vote_inv_def by auto
qed

lemma eth_vote_inv_settled:
  assumes "eth_vote_inv K m" and "eth_quorum K h (settled h m)"
  shows "eth_vote_inv K (settled h m)"
proof -
  have "eth_quorum K k (settled h m)" if "processedRequests m k" for k
    by (rule eth_quorum_later [of K k m]) (use assms(1) that in \<open>auto simp: eth_vote_inv_def\<close>)
  with assms show ?thesis by (auto simp: eth_vote_inv_def)
qed

lemma eth_vote_inv_atom:
  "eth_atom K init G s s' \<Longrightarrow> eth_vote_inv K (snd s) \<Longrightarrow> eth_committee_inv K (snd s) \<Longrightarrow> eth_vote_inv K (snd s')"
proof (induction rule: eth_atom.induct)
  case (atom_quiet m m' F)
  then show ?case by (simp add: eth_vote_inv_def eth_quorum_def quiet_views)
next
  case (atom_counted env h c t a r n m count F)
  then show ?case using eth_vote_inv_voted by simp
next
  case (atom_executed env h c t a r n m count F)
  then show ?case
    using eth_vote_inv_settled [OF eth_vote_inv_voted [OF _ atom_executed(3,2,4-6)]
        eth_quorum_reached [OF _ _ atom_executed(3,2,4-7)]] by simp
next
  case (atom_committee c m threshold accounts members F)
  have "\<not> c \<le> committeeId m" using atom_committee(1) by (simp add: word_le_nat_alt)
  moreover have "eth_vote_inv K m" using atom_committee(5) by simp
  ultimately show ?case
    by (elim eth_vote_inv_later)
       (use atom_committee(1) register_members_Ok [OF atom_committee(4)] in \<open>auto simp: isInCommittee_def word_le_nat_alt\<close>)
qed (auto simp: eth_vote_inv_def eth_quorum_def)

theorem eth_most_inv_atom:
  "eth_atom K init G s s' \<Longrightarrow> eth_most_inv K (fst s) (snd s) \<Longrightarrow> eth_most_inv K (fst s') (snd s')"
  using eth_vote_inv_atom eth_committee_inv_atom eth_log_inv_atom eth_nonce_inv_atom unfolding eth_most_inv_def by metis

lemma eth_most_inv_atoms:
  "(eth_atom K init G)\<^sup>*\<^sup>* s s' \<Longrightarrow> eth_most_inv K (fst s) (snd s) \<Longrightarrow> eth_most_inv K (fst s') (snd s')"
  by (induction rule: rtranclp_induct) (auto dest: eth_most_inv_atom)

section \<open>Reachable states\<close>

text \<open>The storage of a proxy before \<^verbatim>\<open>initialize\<close> is called: every slot of the contract is zero.\<close>

definition blank_most :: "'oz \<Rightarrow> 'oz eth_most" where
  "blank_most s = \<lparr>requestNonce = 0, committeeId = 0, wethAddress = 0, supportedPairs = (\<lambda>_. 0),
     pendingRequests = (\<lambda>_. \<lparr>signatureCount = 0, requestSignatures = (\<lambda>_. False)\<rparr>), processedRequests = (\<lambda>_. False),
     eth_committee = (\<lambda>_. False), committeeSize = (\<lambda>_. 0), signatureThreshold = (\<lambda>_. 0), oz_state = s, eth_events = []\<rparr>"

definition eth_deployed :: "(u8 list \<Rightarrow> bytes32) \<Rightarrow> 'oz oz_lib \<Rightarrow> 'oz eth_most \<Rightarrow> bool" where
  "eth_deployed K Z m \<longleftrightarrow>
     (\<exists>env accounts threshold owner weth s. initialize_most K Z env accounts threshold owner weth (blank_most s) = Ok m)"

definition eth_reachable ::
  "(u8 list \<Rightarrow> bytes32) \<Rightarrow> 'oz oz_lib \<Rightarrow> (eth_env \<Rightarrow> eth_msg \<Rightarrow> bool) \<Rightarrow> ('oz, 'x) eth_world \<Rightarrow> bool" where
  "eth_reachable K Z G w \<longleftrightarrow> (\<exists>w0. eth_deployed K Z (emost w0) \<and> eth_evolves K Z G w0 w)"

lemma eth_deployed_inv:
  assumes "eth_deployed K Z m" and "initializer_law Z init"
  shows "eth_most_inv K {} m" and "init (oz_state m)"
proof -
  obtain env accounts threshold owner weth s where "initialize_most K Z env accounts threshold owner weth (blank_most s) = Ok m"
    using assms(1) by (auto simp: eth_deployed_def)
  then obtain members s' where ok: "threshold \<noteq> 0" "register_members K 0 accounts (\<lambda>_. False) = Ok members"
    and m: "m = (blank_most (end_initializer Z s'))\<lparr>committeeId := 0, wethAddress := weth, eth_committee := members,
      committeeSize := (\<lambda>_. 0)(0 := of_nat (length accounts)), signatureThreshold := (\<lambda>_. 0)(0 := threshold)\<rparr>"
    by (auto simp: initialize_most_def result_elims blank_most_def)
  show "init (oz_state m)" using initializer_lawD(1) [OF assms(2)] by (simp add: m blank_most_def)
  show "eth_most_inv K {} m"
    using ok(1) register_members_Ok [OF ok(2)]
    by (auto simp: m eth_most_inv_def eth_vote_inv_def eth_committee_inv_def eth_log_inv_def eth_nonce_inv_def blank_most_def
        eth_signers_def hasSignedRequest_def)
qed

text \<open>Whatever the atomic steps keep holds in every state a run can reach.\<close>

theorem eth_reachable_atoms:
  assumes "eth_reachable K Z G w" and "initializer_law Z init"
  obtains m where "eth_deployed K Z m" and "(eth_atom K init G)\<^sup>*\<^sup>* ({}, m) ({}, emost w)"
proof -
  obtain w0 where w0: "eth_deployed K Z (emost w0)" "eth_evolves K Z G w0 w" using assms(1) by (auto simp: eth_reachable_def)
  have "in_flight init {} (emost w0)" using eth_deployed_inv(2) [OF w0(1) assms(2)] by (simp add: in_flight_def)
  then have "(eth_atom K init G)\<^sup>*\<^sup>* ({}, emost w0) ({}, emost w)"
    using eth_evolves_tame [OF w0(2) assms(2)] by (simp add: tame_def)
  with w0(1) show ?thesis by (rule that)
qed

theorem eth_reachable_inv:
  assumes "eth_reachable K Z G w" and "initializer_law Z init"
  shows "eth_most_inv K {} (emost w)"
  using eth_reachable_atoms [OF assms] eth_most_inv_atoms eth_deployed_inv(1) [OF _ assms(2)] by (metis fst_conv snd_conv)

lemma eth_reachable_init:
  assumes "eth_reachable K Z G w" and "initializer_law Z init"
  shows "init (oz_state (emost w))"
proof -
  obtain m where "eth_deployed K Z m" "(eth_atom K init G)\<^sup>*\<^sup>* ({}, m) ({}, emost w)"
    using eth_reachable_atoms [OF assms] .
  then have "in_flight init {} (emost w)"
    using in_flight_atoms [of K init G "({}, m)" "({}, emost w)"] eth_deployed_inv(2) [OF _ assms(2), of K m]
    by (simp add: in_flight_def)
  then show ?thesis by (simp add: in_flight_def)
qed

lemma eth_reachable_evolves: "eth_reachable K Z G w \<Longrightarrow> eth_evolves K Z G w v \<Longrightarrow> eth_reachable K Z G v"
  unfolding eth_reachable_def using eth_evolves_trans by blast

end
