(* ===== verification/Vote_Refinement.thy ===== *)
theory Vote_Refinement
  imports Vote_Ledger Most_Invariants Eth_Invariants
begin

text \<open>
  Both contracts keep the vote ledger: their storage as a ledger, and what a transaction on Aleph Zero and
  a run on Ethereum do to it.
\<close>

section \<open>The contract on Aleph Zero\<close>

definition abs_votes :: "most \<Rightarrow> account_id vote_ledger" where
  "abs_votes m = \<lparr>voters = signers m, executed = dom (processed_requests m)\<rparr>"

definition quorums_azero :: "most \<Rightarrow> nat set" where
  "quorums_azero m = {unat q |c q. signature_thresholds m c = Some q}"

lemma signers_emit [simp]: "signers (emit_event e m) = signers m"
  by (simp add: emit_event_def signers_def [abs_def])

lemma processed_emit [simp]: "processed_requests (emit_event e m) = processed_requests m"
  by (simp add: emit_event_def)

lemma receive_request_ballot:
  assumes "receive_request K L R env h c t a r n w = Ok w'" and inv: "vote_inv K (bridge w)"
    and "data_cell (bridge w) = Some data" "signature_thresholds (bridge w) (d_committee_id data) = Some threshold"
  shows "abs_votes (bridge w') = cast_vote (unat threshold) h (caller env) (abs_votes (bridge w))"
  using assms(1)
proof (cases rule: receive_request_cases)
  case (counted d count q)
  have "card (insert (caller env) (signers (bridge w) h)) = unat count"
    using counted inv by (intro card_new_signer) auto
  with counted assms(3,4) show ?thesis
    by (auto simp: abs_votes_def cast_vote_def Let_def signers_signed signers_def word_less_nat_alt fun_eq_iff)
next
  case (executed d count q)
  have "card (insert (caller env) (signers (bridge w) h)) = unat count"
    using executed inv by (intro card_new_signer) auto
  with executed assms(3,4) show ?thesis
    by (auto simp: abs_votes_def cast_vote_def Let_def signers_signed signers_def word_le_nat_alt fun_eq_iff)
qed (auto simp: abs_votes_def cast_vote_def signers_def)

lemma other_message_votes:
  assumes "run_message K L R env msg w = Ok w'" and "\<And>h c t a r n. msg \<noteq> ReceiveRequest h c t a r n"
  shows "signatures (bridge w') = signatures (bridge w) \<and> processed_requests (bridge w') = processed_requests (bridge w)"
proof (cases msg)
  case (SendRequest s a r)
  with assms(1) have "send_request L R env s a r w = Ok w'" by simp
  then show ?thesis by (rule send_request_bridge) simp
next
  case (PayoutRewards c a)
  with assms(1) have "payout_rewards R env c a w = Ok w'" by simp
  then show ?thesis by (cases rule: payout_rewards_bridge) auto
next
  case (ReceiveRequest h c t a r n)
  then show ?thesis using assms(2) by simp
qed (use assms(1) in \<open>auto simp: message_defs set_committee_def lift_bridge_def result_elims set_data_def emit_event_def Let_def
      split: if_splits option.splits dest!: call_token_bridge transfer_native_bridge\<close>)

lemma most_tx_run:
  "most_tx K L R env msg w = w \<or> (\<exists>v. bridge v = bridge w \<and> run_message K L R env msg v = Ok (most_tx K L R env msg w))"
proof (cases rule: most_tx_cases [of K L R env msg w])
  case (ran n)
  then show ?thesis by (intro disjI2 exI [of _ "w\<lparr>native := n\<rparr>"]) simp
qed simp

text \<open>A transaction on Aleph Zero casts at most one vote, the caller's.\<close>

lemma most_tx_ballot:
  assumes inv: "bridge_inv K (bridge w)"
  shows "abs_votes (bridge (most_tx K L R env msg w)) = abs_votes (bridge w) \<or>
    (\<exists>h c t a r n q. msg = ReceiveRequest h c t a r n \<and> q \<in> quorums_azero (bridge w) \<and>
       abs_votes (bridge (most_tx K L R env msg w)) = cast_vote q h (caller env) (abs_votes (bridge w)))"
proof -
  obtain d q where d: "data_cell (bridge w) = Some d" "signature_thresholds (bridge w) (d_committee_id d) = Some q"
    using inv unfolding bridge_inv_def committee_inv_def by blast
  have run: "abs_votes (bridge v') = abs_votes (bridge w) \<or> (\<exists>h c t a r n q. msg = ReceiveRequest h c t a r n \<and>
      q \<in> quorums_azero (bridge w) \<and> abs_votes (bridge v') = cast_vote q h (caller env) (abs_votes (bridge w)))"
    if "run_message K L R env msg v = Ok v'" and v: "bridge v = bridge w" for v v'
  proof (cases "\<exists>h c t a r n. msg = ReceiveRequest h c t a r n")
    case True
    then obtain h c t a r n where msg: "msg = ReceiveRequest h c t a r n" by blast
    have "abs_votes (bridge v') = cast_vote (unat q) h (caller env) (abs_votes (bridge w))"
      using receive_request_ballot [of K L R env h c t a r n v v' d q] that msg d inv by (simp add: bridge_inv_def)
    moreover have "unat q \<in> quorums_azero (bridge w)" using d(2) by (auto simp: quorums_azero_def)
    ultimately show ?thesis using msg by blast
  next
    case False
    then show ?thesis using other_message_votes [OF that(1)] v by (auto simp: abs_votes_def signers_def)
  qed
  from most_tx_run [of K L R env msg w] show ?thesis
  proof
    assume "\<exists>v. bridge v = bridge w \<and> run_message K L R env msg v = Ok (most_tx K L R env msg w)"
    then show ?thesis using run by blast
  qed simp
qed

section \<open>The contract on Ethereum\<close>

definition abs_votes_eth :: "'oz eth_most \<Rightarrow> eth_address vote_ledger" where
  "abs_votes_eth m = \<lparr>voters = eth_signers m, executed = Collect (processedRequests m)\<rparr>"

definition quorums_eth :: "'oz eth_most \<Rightarrow> nat set" where
  "quorums_eth m = {unat (signatureThreshold m c) |c. c \<le> committeeId m}"

text \<open>
  A vote is genuine when the voter's member id for the committee the vote names is not the member id of
  somebody in an earlier committee.  Without such a collision of Keccak a voter for a committee that does
  not exist is turned away.
\<close>

definition genuine_vote :: "(u8 list \<Rightarrow> bytes32) \<Rightarrow> eth_env \<Rightarrow> eth_msg \<Rightarrow> bool" where
  "genuine_vote K env msg \<longleftrightarrow>
     (\<forall>h c t a r n c' b. msg = ReceiveRequest_Eth h c t a r n \<longrightarrow> c' < c \<longrightarrow>
        committee_member_id K c' b \<noteq> committee_member_id K c (msg_sender env))"

lemma genuine_quorum:
  assumes "eth_committee_inv K m" and "isInCommittee K c (msg_sender env) m"
    and "genuine_vote K env (ReceiveRequest_Eth h c t a r n)"
  shows "unat (signatureThreshold m c) \<in> quorums_eth m"
proof -
  obtain c' b where "c' \<le> committeeId m" "committee_member_id K c' b = committee_member_id K c (msg_sender env)"
    using assms(1,2) unfolding eth_committee_inv_def isInCommittee_def by metis
  moreover from this have "\<not> c' < c" using assms(3) unfolding genuine_vote_def by blast
  ultimately have "c \<le> committeeId m" by simp
  then show ?thesis by (auto simp: quorums_eth_def)
qed

text \<open>The voters for whose vote a run has room.\<close>

definition may_vote :: "(eth_env \<Rightarrow> eth_msg \<Rightarrow> bool) \<Rightarrow> bytes32 \<Rightarrow> eth_address \<Rightarrow> bool" where
  "may_vote G h a \<longleftrightarrow> (\<exists>env c t amount r n. msg_sender env = a \<and> G env (ReceiveRequest_Eth h c t amount r n))"

lemma may_voteI: "G env (ReceiveRequest_Eth h c t a r n) \<Longrightarrow> may_vote G h (msg_sender env)"
  unfolding may_vote_def by blast

lemma abs_votes_voted:
  assumes "eth_vote_inv K m" and "\<not> processedRequests m h" "\<not> hasSignedRequest a h m"
    and "unat count = unat (signatureCount (pendingRequests m h)) + 1" and "count < threshold"
  shows "abs_votes_eth (voted h a count m) = cast_vote (unat threshold) h a (abs_votes_eth m)"
  using assms eth_vote_card [OF assms(1-4)]
  by (simp add: abs_votes_eth_def cast_vote_def hasSignedRequest_signers word_less_nat_alt Let_def fun_eq_iff)

lemma abs_votes_settled:
  assumes "eth_vote_inv K m" and "\<not> processedRequests m h" "\<not> hasSignedRequest a h m"
    and "unat count = unat (signatureCount (pendingRequests m h)) + 1" and "threshold \<le> count"
  shows "abs_votes_eth (settled h (voted h a count m)) = cast_vote (unat threshold) h a (abs_votes_eth m)"
proof -
  have "Collect ((processedRequests m)(h := True)) = insert h (Collect (processedRequests m))" by auto
  with assms eth_vote_card [OF assms(1-4)] show ?thesis
    by (simp add: abs_votes_eth_def cast_vote_def hasSignedRequest_signers word_le_nat_alt Let_def fun_eq_iff)
qed

lemma eth_atom_ballot:
  assumes "eth_atom K init G s s'" and "eth_vote_inv K (snd s)" "eth_committee_inv K (snd s)"
    and "\<And>env msg. G env msg \<Longrightarrow> genuine_vote K env msg"
  shows "abs_votes_eth (snd s') = abs_votes_eth (snd s) \<or>
    (\<exists>h a q. may_vote G h a \<and> q \<in> quorums_eth (snd s) \<and>
       abs_votes_eth (snd s') = cast_vote q h a (abs_votes_eth (snd s)))"
  using assms
proof (induction rule: eth_atom.induct)
  case (atom_quiet m m' F)
  then show ?case by (simp add: abs_votes_eth_def quiet_views)
next
  case (atom_counted env h c t a r n m count F)
  have "unat (signatureThreshold m c) \<in> quorums_eth m"
    using genuine_quorum [OF _ atom_counted(3) atom_counted(10) [OF atom_counted(1)]] atom_counted(9) by simp
  moreover have "abs_votes_eth (voted h (msg_sender env) count m) =
      cast_vote (unat (signatureThreshold m c)) h (msg_sender env) (abs_votes_eth m)"
    using abs_votes_voted [OF _ atom_counted(4-7)] atom_counted(8) by simp
  moreover have "may_vote G h (msg_sender env)" by (rule may_voteI [of G, OF atom_counted(1)])
  ultimately show ?case unfolding snd_conv by blast
next
  case (atom_executed env h c t a r n m count F)
  have "unat (signatureThreshold m c) \<in> quorums_eth m"
    using genuine_quorum [OF _ atom_executed(3) atom_executed(10) [OF atom_executed(1)]] atom_executed(9) by simp
  moreover have "abs_votes_eth (settled h (voted h (msg_sender env) count m)) =
      cast_vote (unat (signatureThreshold m c)) h (msg_sender env) (abs_votes_eth m)"
    using abs_votes_settled [OF _ atom_executed(4-7)] atom_executed(8) by simp
  moreover have "may_vote G h (msg_sender env)" by (rule may_voteI [of G, OF atom_executed(1)])
  ultimately show ?case unfolding snd_conv by blast
qed (auto simp: abs_votes_eth_def)

text \<open>A run on Ethereum counts one ballot after the other, whatever calls back in between.\<close>

lemma quorums_eth_atom:
  assumes "eth_atom K init G s s'" and "eth_committee_inv K (snd s)"
  shows "quorums_eth (snd s) \<subseteq> quorums_eth (snd s')"
  using assms
proof (induction rule: eth_atom.induct)
  case (atom_committee c m threshold accounts members F)
  have "signatureThreshold m' c' = signatureThreshold m c' \<and> c' \<le> committeeId m'"
    if "c' \<le> committeeId m" and "m' = log_event (Eth_CommitteeUpdated c) (m\<lparr>committeeId := c, eth_committee := members,
       committeeSize := (committeeSize m)(c := of_nat (length accounts)),
       signatureThreshold := (signatureThreshold m)(c := threshold)\<rparr>)" for c' m'
    using that atom_committee(1) by (auto simp: word_le_nat_alt)
  then show ?case unfolding quorums_eth_def by fastforce
qed (auto simp: quorums_eth_def quiet_views)

lemma eth_atoms_ballots:
  assumes "(eth_atom K init G)\<^sup>*\<^sup>* s s'" and "eth_most_inv K (fst s) (snd s)"
    and "\<And>env msg. G env msg \<Longrightarrow> genuine_vote K env msg"
  shows "\<exists>bs. abs_votes_eth (snd s') = count_ballots bs (abs_votes_eth (snd s)) \<and>
      quorums_eth (snd s) \<subseteq> quorums_eth (snd s') \<and>
      (\<forall>(h, a, q)\<in>set bs. q \<in> quorums_eth (snd s') \<and>
         may_vote G h a)"
  using assms(1)
proof (induction rule: rtranclp_induct)
  case base
  show ?case by (intro exI [of _ "[]"]) simp
next
  case (step u v)
  have inv: "eth_vote_inv K (snd u)" "eth_committee_inv K (snd u)"
    using eth_most_inv_atoms [OF step(1) assms(2)] by (simp_all add: eth_most_inv_def)
  from step.IH obtain bs where bs: "abs_votes_eth (snd u) = count_ballots bs (abs_votes_eth (snd s))"
    "quorums_eth (snd s) \<subseteq> quorums_eth (snd u)"
    "\<forall>(h, a, q)\<in>set bs. q \<in> quorums_eth (snd u) \<and>
       may_vote G h a" by blast
  have grow: "quorums_eth (snd u) \<subseteq> quorums_eth (snd v)" by (rule quorums_eth_atom [OF step(2) inv(2)])
  from eth_atom_ballot [OF step(2) inv assms(3)] show ?case
  proof
    assume "abs_votes_eth (snd v) = abs_votes_eth (snd u)"
    with bs grow show ?thesis by (intro exI [of _ bs]) auto
  next
    assume "\<exists>h a q. may_vote G h a \<and> q \<in> quorums_eth (snd u) \<and>
       abs_votes_eth (snd v) = cast_vote q h a (abs_votes_eth (snd u))"
    then obtain h a q where "may_vote G h a" "q \<in> quorums_eth (snd u)"
       "abs_votes_eth (snd v) = cast_vote q h a (abs_votes_eth (snd u))" by blast
    with bs grow show ?thesis by (intro exI [of _ "bs @ [(h, a, q)]"]) auto
  qed
qed

theorem eth_evolves_ballots:
  assumes "eth_evolves K Z G w w'" and "initializer_law Z init" and "init (oz_state (emost w))" and "eth_most_inv K {} (emost w)"
    and "\<And>env msg. G env msg \<Longrightarrow> genuine_vote K env msg"
  shows "eth_most_inv K {} (emost w') \<and> init (oz_state (emost w'))"
    and "\<exists>bs. abs_votes_eth (emost w') = count_ballots bs (abs_votes_eth (emost w)) \<and>
      quorums_eth (emost w) \<subseteq> quorums_eth (emost w') \<and>
      (\<forall>(h, a, q)\<in>set bs. q \<in> quorums_eth (emost w') \<and>
         may_vote G h a)"
proof -
  have "in_flight init {} (emost w)" using assms(3) by (simp add: in_flight_def)
  moreover from this have run: "(eth_atom K init G)\<^sup>*\<^sup>* ({}, emost w) ({}, emost w')"
    using eth_evolves_tame [OF assms(1,2)] by (simp add: tame_def)
  ultimately show "eth_most_inv K {} (emost w') \<and> init (oz_state (emost w'))"
    using eth_most_inv_atoms [OF run] in_flight_atoms [OF run] assms(4) by (simp add: in_flight_def)
  show "\<exists>bs. abs_votes_eth (emost w') = count_ballots bs (abs_votes_eth (emost w)) \<and>
      quorums_eth (emost w) \<subseteq> quorums_eth (emost w') \<and>
      (\<forall>(h, a, q)\<in>set bs. q \<in> quorums_eth (emost w') \<and>
         may_vote G h a)"
    using eth_atoms_ballots [OF run _ assms(5)] assms(4) by simp
qed

end
