(* ===== verification/Most_Properties.thy ===== *)
theory Most_Properties
  imports Sample_Chain Most_Tokens Vote_Refinement
begin

text \<open>
  The properties of the bridge contract, each over the states its transactions reach, with the
  witnesses evaluated on the chain of \<open>Sample_Chain\<close>.
\<close>

section \<open>A run of the sample chain that executes a request\<close>

text \<open>Guardians 1 and 2 vote for the request of 30 units of token 7 for account 60.\<close>

definition vote_msg :: most_msg where
  "vote_msg = ReceiveRequest 112 0 7 30 60 0"

definition sample_tx :: "account_id \<Rightarrow> u128 \<Rightarrow> most_msg \<Rightarrow> ledger chain \<Rightarrow> ledger chain" where
  "sample_tx who v = most_tx sample_keccak ledger_lib sample_runtime (sample_env who v)"

definition voted_chain :: "ledger chain" where
  "voted_chain = on_bridge (\<lambda>m. m\<lparr>
     signatures := [(112, 1) \<mapsto> ()],
     pending_requests := [112 \<mapsto> \<lparr>signature_count = 1\<rparr>],
     most_events := most_events m @ [RequestSigned 112 1]\<rparr>) open_chain"

definition minted_token :: "ledger token" where
  "minted_token = sample_token\<lparr>
     token_data := (token_data sample_token)\<lparr>
       balances := (balances (token_data sample_token))(60 := 30), ledger_supply := 530\<rparr>,
     token_events := [Token_Transfer None (Some 60) 30]\<rparr>"

definition done_chain :: "ledger chain" where
  "done_chain = voted_chain\<lparr>
     bridge := (bridge voted_chain)\<lparr>
       signatures := [(112, 1) \<mapsto> (), (112, 2) \<mapsto> ()],
       pending_requests := Map.empty, processed_requests := [112 \<mapsto> ()],
       most_events := most_events (bridge voted_chain) @ [RequestSigned 112 2, RequestProcessed 112 7]\<rparr>,
     tokens := [7 \<mapsto> minted_token]\<rparr>"

lemmas run_defs =
  sample_tx_def most_tx_def vote_msg_def receive_request_def execute_request_def mint_to_def
  call_token_def transfer_native_def ensure_not_halted_def is_halted_def read_data_def
  only_committee_member_def is_in_committee_def insert_committee_def default_request_def
  on_bridge_def emit_event_def checked_add_def token_mint_def token_ensure_minter_def
  token_minter_def token_apply_def token_emit_events_eq ledger_lib_def
  Let_def word_le_nat_alt word_less_nat_alt

lemma first_vote: "sample_tx 1 0 vote_msg open_chain = voted_chain"
  by (simp add: run_defs voted_chain_def sample_defs)

lemma second_vote: "sample_tx 2 0 vote_msg voted_chain = done_chain"
  by (simp add: run_defs voted_chain_def done_chain_def minted_token_def sample_defs
      fun_upd_twist fun_eq_iff)

lemma sample_step:
  "reachable sample_keccak w \<Longrightarrow> id_headroom (bridge w) \<Longrightarrow> reachable sample_keccak (sample_tx who v msg w)"
  unfolding sample_tx_def by (rule reachable.transaction)

lemma sample_headroom:
  "id_headroom (bridge open_chain)" "id_headroom (bridge voted_chain)" "id_headroom (bridge done_chain)"
  by (simp_all add: id_headroom_def sample_defs voted_chain_def done_chain_def on_bridge_def)

lemma voted_reachable: "reachable sample_keccak voted_chain"
  using sample_step [OF open_reachable sample_headroom(1), of 1 0 vote_msg] by (simp only: first_vote)

lemma done_reachable: "reachable sample_keccak done_chain"
  using sample_step [OF voted_reachable sample_headroom(2), of 2 0 vote_msg] by (simp only: second_vote)

lemma unat_ucast_u32: "unat (ucast (x :: u128) :: u32) = unat x mod 2 ^ 32"
  by (simp add: unsigned_ucast_eq take_bit_eq_mod)

section \<open>Votes and quorum\<close>

lemma request_status_unknown:
  "request_status h m = RequestHashNotKnown \<longleftrightarrow>
     pending_requests m h = None \<and> processed_requests m h = None"
  by (cases "processed_requests m h"; cases "pending_requests m h") (simp_all add: request_status_def)

text \<open>
  C4.  No request is executed without a quorum: in every reachable state a processed request has
  at least as many distinct signers as the non-zero threshold of some committee of the contract,
  and every one of the signers was a member of the committee named in the request data that
  hashes to the request.
\<close>

theorem processed_has_quorum:
  assumes "reachable K w" and "processed_requests (bridge w) h \<noteq> None"
  shows "(\<exists>c threshold. signature_thresholds (bridge w) c = Some threshold \<and> threshold \<noteq> 0 \<and>
            unat threshold \<le> card (signers (bridge w) h)) \<and>
         (\<forall>a \<in> signers (bridge w) h. \<exists>cid t amount r n.
            h = hash_request_data K cid t amount r n \<and> is_in_committee cid a (bridge w))"
  using reachable_inv [OF assms(1)] assms(2)
  unfolding bridge_inv_def vote_inv_def is_in_committee_members by blast

lemma processed_has_quorum_witness:
  "processed_requests (bridge done_chain) 112 \<noteq> None \<and>
   (\<exists>c threshold. signature_thresholds (bridge done_chain) c = Some threshold \<and>
      unat threshold \<le> card (signers (bridge done_chain) 112))"
proof -
  have p: "processed_requests (bridge done_chain) 112 \<noteq> None"
    by (simp add: done_chain_def)
  with processed_has_quorum [OF done_reachable p] show ?thesis by blast
qed

text \<open>
  C5.  A request is executed at most once.  In every reachable state the executions announced in
  the event log are distinct and are exactly the processed requests, and a further
  \<^verbatim>\<open>receive_request\<close> for a processed hash, whoever sends it and whatever data it carries, either
  fails or only appends one event: no token is minted and no balance moves.
\<close>

theorem executed_at_most_once:
  assumes "reachable K w"
  shows "distinct (processed_log (most_events (bridge w))) \<and>
         set (processed_log (most_events (bridge w))) = dom (processed_requests (bridge w)) \<and>
         (processed_requests (bridge w) h \<noteq> None \<longrightarrow>
          receive_request K L R env h cid t amount r n w = Ok w' \<longrightarrow>
          w' = on_bridge (emit_event (SignedProcessedRequest h (caller env))) w)"
proof -
  have "w' = on_bridge (emit_event (SignedProcessedRequest h (caller env))) w"
    if "processed_requests (bridge w) h \<noteq> None"
      and "receive_request K L R env h cid t amount r n w = Ok w'"
    using that(2) by (cases rule: receive_request_cases) (use that(1) in auto)
  with reachable_inv [OF assms] show ?thesis
    by (auto simp: bridge_inv_def log_inv_def)
qed

lemma executed_at_most_once_witness:
  "\<exists>w'. receive_request sample_keccak ledger_lib sample_runtime (sample_env 3 0) 112 0 7 30 60 0 done_chain = Ok w' \<and>
     tokens w' = tokens done_chain \<and> native w' = native done_chain"
proof -
  let ?r = "receive_request sample_keccak ledger_lib sample_runtime (sample_env 3 0) 112 0 7 30 60 0 done_chain"
  have "is_ok ?r"
    by (simp add: run_defs done_chain_def voted_chain_def sample_defs)
  then obtain w' where w': "?r = Ok w'" by (auto simp: is_ok_iff)
  have "processed_requests (bridge done_chain) 112 \<noteq> None"
    by (simp add: done_chain_def)
  with w' executed_at_most_once [OF done_reachable] have
    "w' = on_bridge (emit_event (SignedProcessedRequest 112 (caller (sample_env 3 0)))) done_chain"
    by blast
  with w' show ?thesis by simp
qed

text \<open>
  C8.  The vote counter is exact and each guardian counts once: in every reachable state the
  counter of a pending request equals the number of different accounts that signed it, a request
  that is neither pending nor processed has no signature, and the \<^verbatim>\<open>RequestSigned\<close> events are
  pairwise different and list exactly the recorded signatures.
\<close>

theorem votes_counted_once:
  assumes "reachable K w"
  shows "(\<forall>h req. pending_requests (bridge w) h = Some req \<longrightarrow>
            unat (signature_count req) = card (signers (bridge w) h) \<and>
            processed_requests (bridge w) h = None) \<and>
         (\<forall>h. request_status h (bridge w) = RequestHashNotKnown \<longrightarrow> signers (bridge w) h = {}) \<and>
         distinct (signed_log (most_events (bridge w))) \<and>
         set (signed_log (most_events (bridge w))) = dom (signatures (bridge w))"
  using reachable_inv [OF assms]
  by (auto simp: bridge_inv_def vote_inv_def log_inv_def request_status_unknown)

lemma votes_counted_once_witness:
  "pending_requests (bridge voted_chain) 112 = Some \<lparr>signature_count = 1\<rparr> \<and>
   card (signers (bridge voted_chain) 112) = 1"
proof -
  have p: "pending_requests (bridge voted_chain) 112 = Some \<lparr>signature_count = 1\<rparr>"
    by (simp add: voted_chain_def)
  with votes_counted_once [OF voted_reachable] have "unat (1 :: u128) = card (signers (bridge voted_chain) 112)"
    by force
  with p show ?thesis by simp
qed

section \<open>Tokens\<close>

text \<open>
  C9.  A vote that completes the quorum mints exactly the requested amount: the token contract
  of the request credits the receiver and its supply by the amount, no other account of that
  token and no other token contract changes, and the token had granted the bridge the minter
  role.  A vote that does not complete the quorum touches no token.  The hypothesis on the
  library is its documented effect of minting.
\<close>

theorem execution_mints_exactly:
  assumes "psp22_mint_law L"
    and "receive_request K L R env h cid t amount r n w = Ok w'"
    and "processed_requests (bridge w) h = None"
  shows "if processed_requests (bridge w') h = None then tokens w' = tokens w
         else \<exists>tok tok'. tokens w t = Some tok \<and> tokens w' = (tokens w)(t \<mapsto> tok') \<and>
           minter_burner tok = self_account env \<and>
           unat (token_balance_of L tok' r) = unat (token_balance_of L tok r) + unat amount \<and>
           (\<forall>a. a \<noteq> r \<longrightarrow> token_balance_of L tok' a = token_balance_of L tok a) \<and>
           unat (token_total_supply L tok') = unat (token_total_supply L tok) + unat amount"
  using assms(2)
proof (cases rule: receive_request_cases)
  case (executed data count threshold)
  from executed(10) obtain tok tok' where
    tok: "tokens w t = Some tok" "token_mint L (callee_env env t) r amount tok = Ok tok'"
      "tokens w' = (tokens w)(t \<mapsto> tok')"
    by (rule execute_request_tokens) simp
  note mint = token_mint_Ok [OF assms(1) tok(2)]
  from executed tok mint show ?thesis by auto
qed (use assms(3) in \<open>auto simp: emit_event_def\<close>)

lemma execution_mints_exactly_witness:
  "\<exists>tok tok'. tokens voted_chain 7 = Some tok \<and> tokens done_chain 7 = Some tok' \<and>
     unat (token_balance_of ledger_lib tok' 60) = unat (token_balance_of ledger_lib tok 60) + 30"
proof -
  have r: "receive_request sample_keccak ledger_lib sample_runtime (sample_env 2 0) 112 0 7 30 60 0 voted_chain
      = Ok done_chain"
    by (simp add: run_defs voted_chain_def done_chain_def minted_token_def sample_defs
      fun_upd_twist fun_eq_iff)
  have p: "processed_requests (bridge voted_chain) 112 = None"
    "processed_requests (bridge done_chain) 112 \<noteq> None"
    by (simp_all add: voted_chain_def done_chain_def sample_defs)
  from execution_mints_exactly [OF ledger_mint_law r p(1)] p(2) show ?thesis by auto
qed

text \<open>
  C10.  A request that is accepted for sending burns exactly the amount it announces: the
  caller's balance and the supply of the source token drop by it, no other balance of that
  token changes (the bridge's own included), and the emitted event carries that amount, the
  receiver, the partner of the source token and the nonce that was current before the call,
  which the call increments.
\<close>

theorem send_request_burns_and_announces:
  assumes "psp22_transfer_from_law L" and "psp22_burn_law L"
    and "send_request L R env src amount dest w = Ok w'" and "caller env \<noteq> self_account env"
  shows "\<exists>d to tok tok'. data_cell (bridge w) = Some d \<and> supported_pairs (bridge w) src = Some to \<and>
     tokens w src = Some tok \<and> tokens w' = (tokens w)(src \<mapsto> tok') \<and>
     unat (token_balance_of L tok (caller env)) =
       unat (token_balance_of L tok' (caller env)) + unat amount \<and>
     (\<forall>a. a \<noteq> caller env \<longrightarrow> token_balance_of L tok' a = token_balance_of L tok a) \<and>
     unat (token_total_supply L tok) = unat (token_total_supply L tok') + unat amount \<and>
     most_events (bridge w') = most_events (bridge w) @
       [CrosschainTransferRequest (d_committee_id d) to amount dest (d_request_nonce d)] \<and>
     (\<exists>n. get_request_nonce (bridge w') = Ok n \<and> unat n = unat (d_request_nonce d) + 1)"
proof -
  from assms(3) obtain d to fee tot nonce' where b: "data_cell (bridge w) = Some d"
    "supported_pairs (bridge w) src = Some to" "unat nonce' = unat (d_request_nonce d) + 1"
    "bridge w' = (bridge w)\<lparr>data_cell := Some (d\<lparr>d_request_nonce := nonce'\<rparr>),
       collected_committee_rewards := (collected_committee_rewards (bridge w))(d_committee_id d \<mapsto> tot),
       most_events := most_events (bridge w) @
         [CrosschainTransferRequest (d_committee_id d) to amount dest (d_request_nonce d)]\<rparr>"
    by (rule send_request_bridge)
  from assms(3) obtain w1 where w1: "burn_from L env src (caller env) amount w = Ok w1"
    "tokens w' = tokens w1" by (rule send_request_tokens)
  from assms(1,2) w1(1) assms(4) obtain tok tok' where t: "tokens w src = Some tok"
    "w1 = w\<lparr>tokens := (tokens w)(src \<mapsto> tok')\<rparr>"
    "unat (token_balance_of L tok (caller env)) = unat (token_balance_of L tok' (caller env)) + unat amount"
    "\<forall>a. a \<noteq> caller env \<longrightarrow> token_balance_of L tok' a = token_balance_of L tok a"
    "unat (token_total_supply L tok) = unat (token_total_supply L tok') + unat amount"
    by (rule burn_from_Ok)
  have "get_request_nonce (bridge w') = Ok nonce'"
    by (simp add: get_request_nonce_def read_data_def b)
  with b t w1(2) show ?thesis by auto
qed

text \<open>The user 50 sends 30 units of token 7 with a fee of 500, of which 300 are the base fee.\<close>

definition sent_result :: "(ledger chain, most_error) result" where
  "sent_result = send_request ledger_lib sample_runtime (sample_env 50 500) 7 30 99 open_chain"

lemmas send_defs =
  send_request_def get_base_fee_def current_gas_price_def invoke_get_price_def oracle_get_price_def
  burn_from_def token_transfer_from_def token_burn_def token_ensure_burner_def token_burner_def
  ledger_move_def move_native_def checked_mul_def checked_div_def checked_sub_def set_data_def
  GAS_ORACLE_MAX_AGE_def BASE_FEE_BUFFER_PERCENTAGE_def ETH_ZERO_ADDRESS_def

lemma sent_ok: "is_ok sent_result"
  by (simp add: sent_result_def send_defs run_defs callee_env_def sample_defs)

lemma send_request_burns_and_announces_witness:
  "\<exists>w' tok'. sent_result = Ok w' \<and> tokens w' 7 = Some tok' \<and>
     unat (token_balance_of ledger_lib tok' 50) + 30 = 500"
proof -
  obtain w' where w': "sent_result = Ok w'"
    using sent_ok by (auto simp: is_ok_iff)
  then have r: "send_request ledger_lib sample_runtime (sample_env 50 500) 7 30 99 open_chain = Ok w'"
    by (simp add: sent_result_def)
  have c: "caller (sample_env 50 500) \<noteq> self_account (sample_env 50 500)"
    by (simp add: sample_env_def)
  have b: "tokens open_chain 7 = Some sample_token" "token_balance_of ledger_lib sample_token 50 = 500"
    by (simp_all add: sample_defs token_balance_of_def ledger_lib_def)
  from send_request_burns_and_announces [OF ledger_transfer_from_law ledger_burn_law r c] b w'
  show ?thesis by (auto simp: sample_env_def)
qed

text \<open>
  C16.  Nonces are consecutive and never reused: in every reachable state the nonces of the
  emitted cross-chain requests are, in order, \<open>0, 1, 2, \<dots>\<close> up to the stored nonce.
\<close>

theorem nonces_consecutive:
  assumes "reachable K w"
  shows "\<exists>n. get_request_nonce (bridge w) = Ok n \<and>
             sent_nonces (most_events (bridge w)) = [0..<unat n]"
  using reachable_inv [OF assms]
  by (auto simp: bridge_inv_def nonce_inv_def get_request_nonce_def read_data_def)

lemma nonces_consecutive_witness:
  "\<exists>w n. most_tx sample_keccak ledger_lib sample_runtime (sample_env 50 500) (SendRequest 7 30 99) open_chain = w \<and>
     get_request_nonce (bridge w) = Ok n \<and> sent_nonces (most_events (bridge w)) = [0..<unat n]"
  using nonces_consecutive [OF sample_step [OF open_reachable sample_headroom(1), of 50 500 "SendRequest 7 30 99"]]
  by (simp add: sample_tx_def)

section \<open>Rewards\<close>




text \<open>
  A payout settles the account: afterwards nothing is outstanding for that member, the
  runtime was asked to move exactly the outstanding amount from the bridge to the member (and
  nothing at all if there was none), and no token changed.
\<close>

theorem payout_settles:
  assumes "payout_rewards R env c a w = Ok w'"
  shows "\<exists>out. get_outstanding_member_rewards c a (bridge w) = Ok out \<and>
           get_outstanding_member_rewards c a (bridge w') = Ok 0 \<and> tokens w' = tokens w \<and>
           (if out = 0 then w' = w
            else rt_transfer R (native w) (self_account env) a out = Ok (native w') \<and>
                 unat (get_paid_out_member_rewards c a (bridge w')) =
                 unat (get_paid_out_member_rewards c a (bridge w)) + unat out)"
proof -
  from assms obtain out where out: "get_outstanding_member_rewards c a (bridge w) = Ok out"
    by (auto simp: payout_rewards_def result_elims Let_def)
  show ?thesis
  proof (cases "out = 0")
    case True
    with assms out have "w' = w" by (auto simp: payout_rewards_def result_elims Let_def)
    with True out show ?thesis by auto
  next
    case False
    with assms out obtain n tot where n: "rt_transfer R (native w) (self_account env) a out = Ok n"
      and tot: "unat tot = unat (get_paid_out_member_rewards c a (bridge w)) + unat out"
      and w': "w' = w\<lparr>native := n, bridge := (bridge w)\<lparr>paid_out_member_rewards :=
             (paid_out_member_rewards (bridge w))((a, c) \<mapsto> tot)\<rparr>\<rparr>"
      by (auto simp: payout_rewards_def result_elims checked_arith Let_def transfer_native_def
          on_bridge_def word_neq_0_conv)
    have "get_outstanding_member_rewards c a (bridge w') = Ok 0"
      using out tot False
      by (auto simp: w' outstanding_Ok is_in_committee_def get_collected_committee_rewards_def
          get_paid_out_member_rewards_def unat_eq_0)
    with False out n tot show ?thesis by (auto simp: w' get_paid_out_member_rewards_def)
  qed
qed

text \<open>A chain on which the base fee of one request, 300, has been collected.\<close>

definition earned_chain :: "ledger chain" where
  "earned_chain = on_bridge (\<lambda>m. m\<lparr>collected_committee_rewards := [0 \<mapsto> 300]\<rparr>) open_chain"

lemma payout_settles_witness:
  "\<exists>w'. payout_rewards sample_runtime (sample_env 3 0) 0 1 earned_chain = Ok w' \<and>
     get_outstanding_member_rewards 0 1 (bridge w') = Ok 0"
proof -
  let ?r = "payout_rewards sample_runtime (sample_env 3 0) 0 1 earned_chain"
  have "is_ok ?r"
    by (simp add: payout_rewards_def get_outstanding_member_rewards_def get_paid_out_member_rewards_def
        get_collected_committee_rewards_def saturating_sub_def checked_div_def move_native_def
        earned_chain_def run_defs sample_defs)
  then obtain w' where "?r = Ok w'" by (auto simp: is_ok_iff)
  with payout_settles [OF this] show ?thesis by auto
qed

text \<open>
  C32.  Rewards of every committee but the first are locked: \<^verbatim>\<open>set_committee\<close> records no size for
  the new committee, so in every reachable state a payout for a committee other than 0 fails,
  and for a member of it, on a running bridge, with \<^verbatim>\<open>NoSuchCommittee\<close>.
\<close>

theorem later_committees_never_paid:
  assumes "reachable K w" and "c \<noteq> 0"
  shows "\<not> is_ok (payout_rewards R env c a w) \<and>
         (is_halted (bridge w) = Ok False \<and> is_in_committee c a (bridge w) \<longrightarrow>
            payout_rewards R env c a w = Err NoSuchCommittee)"
proof -
  from reachable_inv [OF assms(1)] assms(2) have none: "committee_sizes (bridge w) c = None"
    by (auto simp: bridge_inv_def committee_inv_def)
  have "payout_rewards R env c a w \<noteq> Ok w'" for w'
    using none by (auto simp: payout_rewards_def outstanding_Ok result_elims Let_def)
  moreover have "payout_rewards R env c a w = Err NoSuchCommittee"
    if "is_halted (bridge w) = Ok False" and "is_in_committee c a (bridge w)"
    using that none
    by (simp add: payout_rewards_def ensure_not_halted_def get_outstanding_member_rewards_def
        only_committee_member_def Let_def)
  ultimately show ?thesis by (auto simp: is_ok_iff)
qed

definition committee_tx :: most_msg where
  "committee_tx = SetCommittee [4, 5] 1"

lemmas admin_defs =
  sample_tx_def most_tx_def committee_tx_def set_committee_def set_halted_def owner_only_def
  ensure_owner_def ensure_halted_def is_halted_def read_data_def read_ownable_data_def
  ownable_ensure_owner_def lift_bridge_def on_bridge_def set_data_def emit_event_def
  check_committee_def has_duplicate_distinct Let_def

lemma second_committee_reachable:
  "reachable sample_keccak (sample_tx 100 0 (SetHalted False) (sample_tx 100 0 committee_tx sample_chain))"
  by (intro sample_step sample_reachable) (simp_all add: id_headroom_def admin_defs sample_defs)

lemma later_committees_never_paid_witness:
  "payout_rewards sample_runtime (sample_env 4 0) 1 4
     (sample_tx 100 0 (SetHalted False) (sample_tx 100 0 committee_tx sample_chain)) = Err NoSuchCommittee"
proof -
  let ?w = "sample_tx 100 0 (SetHalted False) (sample_tx 100 0 committee_tx sample_chain)"
  have "is_halted (bridge ?w) = Ok False" "is_in_committee 1 4 (bridge ?w)"
    by (simp_all add: admin_defs sample_defs is_in_committee_def insert_committee_eq)
  with later_committees_never_paid [OF second_committee_reachable, of 1] show ?thesis by simp
qed

text \<open>
  The pocket-money account is never debited: whatever \<^verbatim>\<open>receive_request\<close> does, the stored
  configuration, pocket-money balance included, is the one it found, so the test
  \<^verbatim>\<open>pocket_money_balance >= pocket_money\<close> that guards the subsidy does not limit how often it is
  paid.  In particular a completed quorum on a bridge that passes the test asks the runtime for
  the subsidy and leaves the balance as it was.
\<close>

theorem pocket_money_never_debited:
  assumes "receive_request K L R env h cid t amount r n w = Ok w'"
  shows "data_cell (bridge w') = data_cell (bridge w) \<and>
         get_pocket_money_balance (bridge w') = get_pocket_money_balance (bridge w)"
proof -
  from assms have "data_cell (bridge w') = data_cell (bridge w)"
    by (cases rule: receive_request_cases) (simp_all add: emit_event_def)
  then show ?thesis by (simp add: get_pocket_money_balance_def read_data_def)
qed

text \<open>The chain of the second vote, with 15 units of pocket money funded and 10 per request.\<close>

definition funded_chain :: "ledger chain" where
  "funded_chain = on_bridge (set_data (sample_data\<lparr>d_is_halted := False, d_pocket_money_balance := 15\<rparr>))
     voted_chain"

lemma pocket_money_never_debited_witness:
  "\<exists>w'. receive_request sample_keccak ledger_lib sample_runtime (sample_env 2 0) 112 0 7 30 60 0 funded_chain = Ok w' \<and>
     native w' 60 = native funded_chain 60 + 10 \<and> get_pocket_money_balance (bridge w') = Ok 15"
proof -
  let ?r = "receive_request sample_keccak ledger_lib sample_runtime (sample_env 2 0) 112 0 7 30 60 0 funded_chain"
  have "case ?r of Ok w' \<Rightarrow> native w' 60 = native funded_chain 60 + 10 | _ \<Rightarrow> False"
    by (simp add: run_defs funded_chain_def voted_chain_def set_data_def move_native_def checked_sub_def
        sample_defs)
  then obtain w' where w': "?r = Ok w'" and "native w' 60 = native funded_chain 60 + 10"
    by (cases ?r) auto
  moreover have "get_pocket_money_balance (bridge funded_chain) = Ok 15"
    by (simp add: funded_chain_def get_pocket_money_balance_def read_data_def set_data_def)
  ultimately show ?thesis using pocket_money_never_debited [OF w'] by auto
qed

section \<open>Refinement of the vote ledger\<close>

text \<open>
  C18.  \<^verbatim>\<open>receive_request\<close> refines the vote ledger: on every reachable state, a call that succeeds
  acts on the abstraction of the storage exactly as casting one vote, with the threshold of the
  \<^emph>\<open>currently active\<close> committee, also when the request names an older committee.
\<close>

theorem receive_request_refines:
  assumes "reachable K w" and "receive_request K L R env h cid t amount r n w = Ok w'"
    and "get_current_committee_id (bridge w) = Ok c" and "signature_thresholds (bridge w) c = Some threshold"
  shows "abs_votes (bridge w') = cast_vote (unat threshold) h (caller env) (abs_votes (bridge w))"
proof -
  have inv: "vote_inv K (bridge w)"
    using reachable_inv [OF assms(1)] by (simp add: bridge_inv_def)
  obtain d where "data_cell (bridge w) = Some d" "d_committee_id d = c"
    using assms(3) by (auto simp: get_current_committee_id_def result_elims)
  then show ?thesis using receive_request_ballot [OF assms(2) inv] assms(4) by simp
qed

lemma receive_request_refines_witness:
  "abs_votes (bridge done_chain) = cast_vote 2 112 2 (abs_votes (bridge voted_chain))"
proof -
  have r: "receive_request sample_keccak ledger_lib sample_runtime (sample_env 2 0) 112 0 7 30 60 0 voted_chain
      = Ok done_chain"
    by (simp add: run_defs voted_chain_def done_chain_def minted_token_def sample_defs
      fun_upd_twist fun_eq_iff)
  have c: "get_current_committee_id (bridge voted_chain) = Ok 0"
    "signature_thresholds (bridge voted_chain) 0 = Some 2"
    by (simp_all add: voted_chain_def sample_defs get_current_committee_id_def read_data_def)
  from receive_request_refines [OF voted_reachable r c] show ?thesis
    by (simp add: sample_env_def)
qed

section \<open>Fees\<close>

text \<open>
  C27.  The base fee: it is \<open>price * usage * 120 div 100\<close>, computed without overflow, where
  the price is the configured default or lies within the configured bounds; and if the oracle
  answers with a price that is at most a day old, the price lies within the bounds.
\<close>

theorem base_fee_bounded:
  assumes "get_base_fee R env w = Ok fee" and "data_cell (bridge w) = Some d"
    and "d_min_gas_price d \<le> d_max_gas_price d"
  shows "\<exists>price. (price = d_default_gas_price d \<or>
                    d_min_gas_price d \<le> price \<and> price \<le> d_max_gas_price d) \<and>
           unat fee = unat price * unat (d_relay_gas_usage d) * 120 div 100 \<and>
           (\<forall>address p ts. d_gas_price_oracle d = Some address \<longrightarrow> invoke_get_price R address w = Some (p, ts) \<longrightarrow>
              unat (block_timestamp env) \<le> unat ts + 86400000 \<longrightarrow> unat ts + 86400000 < 2 ^ 64 \<longrightarrow>
              price = max (d_min_gas_price d) (min p (d_max_gas_price d)))"
proof (intro exI conjI allI impI)
  let ?p = "current_gas_price R env d w"
  show "?p = d_default_gas_price d \<or> d_min_gas_price d \<le> ?p \<and> ?p \<le> d_max_gas_price d"
    using assms(3) by (auto simp: current_gas_price_def split: option.splits prod.splits if_splits)
  show "unat fee = unat ?p * unat (d_relay_gas_usage d) * 120 div 100"
    using assms(1,2)
    by (auto simp: get_base_fee_def read_data_def result_elims checked_arith Let_def unat_div
        BASE_FEE_BUFFER_PERCENTAGE_def)
  fix address p ts
  assume o: "d_gas_price_oracle d = Some address" "invoke_get_price R address w = Some (p, ts)"
    and fresh: "unat (block_timestamp env) \<le> unat ts + 86400000" "unat ts + 86400000 < 2 ^ 64"
  have "unat (ts + GAS_ORACLE_MAX_AGE) = unat ts + 86400000"
    using fresh(2) by (simp add: GAS_ORACLE_MAX_AGE_def unat_word_ariths)
  with fresh(1) have "\<not> ts + GAS_ORACLE_MAX_AGE < block_timestamp env"
    by (simp add: word_less_nat_alt)
  with o assms(3) show "?p = max (d_min_gas_price d) (min p (d_max_gas_price d))"
    by (auto simp: current_gas_price_def max_def min_def)
qed

lemma base_fee_bounded_witness:
  "\<exists>fee price :: u128. get_base_fee sample_runtime (sample_env 50 500) open_chain = Ok fee \<and>
     unat fee = unat price * 10 * 120 div 100 \<and> price = 25"
proof -
  let ?f = "get_base_fee sample_runtime (sample_env 50 500) open_chain"
  have f: "?f = Ok 300"
    by (simp add: send_defs run_defs sample_defs)
  have d: "data_cell (bridge open_chain) = Some (sample_data\<lparr>d_is_halted := False\<rparr>)"
    "d_min_gas_price (sample_data\<lparr>d_is_halted := False\<rparr>) \<le> d_max_gas_price (sample_data\<lparr>d_is_halted := False\<rparr>)"
    by (simp_all add: sample_defs)
  have o: "invoke_get_price sample_runtime 9 open_chain = Some (25, 90000)"
    by (simp add: invoke_get_price_def oracle_get_price_def sample_defs)
  obtain price where "unat (300 :: u128) = unat price * 10 * 120 div 100"
    and "\<forall>address p ts. Some 9 = Some address \<longrightarrow>
           invoke_get_price sample_runtime address open_chain = Some (p, ts) \<longrightarrow>
           100000 \<le> unat ts + 86400000 \<longrightarrow> unat ts + 86400000 < 2 ^ 64 \<longrightarrow> price = max 20 (min p 40)"
    using base_fee_bounded [OF f d] by (auto simp: sample_data_def sample_env_def)
  with o f show ?thesis by (auto simp: max_def min_def)
qed

section \<open>Committees\<close>

text \<open>
  C28.  Reachable storage is well formed.  In every reachable state the configuration and the owner can be
  read; no message, whoever sends it, answers that the storage is corrupted, neither directly nor through
  the ownership trait; and \<^verbatim>\<open>receive_request\<close> never misses the threshold of the committee in office.
\<close>

theorem storage_never_corrupted:
  assumes "reachable K w"
  shows "(\<exists>data own. read_data (bridge w) = Ok data \<and> get_owner (bridge w) = Ok own) \<and>
    (\<forall>e. run_message K L R env msg w = Err e \<longrightarrow>
       e \<noteq> CorruptedStorage \<and> e \<noteq> Ownable (Ownable_Custom ''CorruptedStorage'')) \<and>
    receive_request K L R env h c t a r n w \<noteq> Err InvalidThreshold"
proof -
  have inv: "bridge_inv K (bridge w)" using reachable_inv [OF assms] .
  then obtain d where d: "data_cell (bridge w) = Some d" by (auto simp: bridge_inv_def committee_inv_def)
  obtain own where own: "ownable_cell (bridge w) = Some own" using inv by (auto simp: bridge_inv_def)
  obtain threshold where thr: "signature_thresholds (bridge w) (d_committee_id d) = Some threshold"
    using inv d by (fastforce simp: bridge_inv_def committee_inv_def)
  have "execute_request L R env h t a r data v \<noteq> Err InvalidThreshold" for data v
    by (auto simp: execute_request_def result_errors Let_def split: if_splits)
  then have "receive_request K L R env h c t a r n w \<noteq> Err InvalidThreshold"
    using d thr
    by (auto simp: receive_request_def result_errors Let_def ensure_not_halted_def is_halted_def read_data_def
        only_committee_member_def emit_event_def split: if_splits bool.splits)
  moreover have "storage_sound (run_message K L R env msg w)" using sound_messages d own by blast
  ultimately show ?thesis
    using d own by (auto simp: storage_sound_def read_data_def get_owner_def read_ownable_data_def ownable_get_owner_def)
qed

theorem storage_never_corrupted_witness:
  "run_message sample_keccak ledger_lib sample_runtime (sample_env 50 0) (SetHalted False) open_chain
     = Err (Ownable (CallerNotOwner 50)) \<and> CallerNotOwner 50 \<noteq> Ownable_Custom ''CorruptedStorage''"
proof -
  have "run_message sample_keccak ledger_lib sample_runtime (sample_env 50 0) (SetHalted False) open_chain
     = Err (Ownable (CallerNotOwner 50))"
    by (simp add: set_halted_def owner_only_def ensure_owner_def read_ownable_data_def ownable_ensure_owner_def lift_bridge_def
        sample_defs)
  with storage_never_corrupted [OF open_reachable] show ?thesis by blast
qed

text \<open>
  C31.  A threshold no committee can reach is accepted: for every \<open>k\<close>, a committee of distinct
  guardians passes the check with threshold \<open>2 ^ 32 * k + q\<close> whenever it passes with
  \<open>q\<close>; the contract is then deployed with a threshold above the number of its guardians.
\<close>

theorem unreachable_threshold_accepted:
  assumes "check_committee committee q = Ok ()" and "unat q < 2 ^ 32" and "0 < k" and "k < 2 ^ 96"
    and "length committee < 2 ^ 32"
  shows "\<exists>threshold m. unat threshold = 2 ^ 32 * k + unat q \<and>
           most_new code committee threshold pocket usage pmin pmax pdefault orc who = Ok m \<and>
           signature_thresholds m 0 = Some threshold \<and> length committee < unat threshold"
proof -
  define threshold :: u128 where "threshold = of_nat (2 ^ 32 * k + unat q)"
  have "2 ^ 32 * k + unat q < 2 ^ 32 * k + 2 ^ 32" using assms(2) by simp
  also have "\<dots> = 2 ^ 32 * (k + 1)" by simp
  also have "\<dots> \<le> 2 ^ 32 * 2 ^ 96" using assms(4) by (intro mult_le_mono2) simp
  also have "\<dots> = (2 :: nat) ^ 128" by (simp flip: power_add)
  finally have t: "unat threshold = 2 ^ 32 * k + unat q"
    unfolding threshold_def by (intro unat_of_nat_small) simp
  have mod: "unat threshold mod 2 ^ 32 = unat q" using assms(2) by (simp add: t)
  have "2 ^ 32 * 1 \<le> 2 ^ 32 * k" using assms(3) by (intro mult_le_mono2) simp
  with assms(5) have len: "length committee < unat threshold" by (simp add: t)
  then have "threshold \<noteq> 0" by auto
  with assms(1,2) mod have "check_committee committee threshold = Ok ()"
    by (auto simp: check_committee_def unat_ucast_u32 split: if_splits)
  with t len show ?thesis by (auto simp: most_new_def Let_def)
qed

lemma unreachable_threshold_accepted_witness:
  "\<exists>threshold m. unat threshold = 4294967298 \<and>
     most_new 5 [1, 2, 3] threshold 10 10 20 40 30 (Some 9) 100 = Ok m \<and> 3 < unat threshold"
proof -
  have "check_committee [1, 2, 3] 2 = Ok ()"
    by (simp add: check_committee_def has_duplicate_distinct)
  from unreachable_threshold_accepted [OF this, of 1 5 10 10 20 40 30 "Some 9" 100] show ?thesis
    by auto
qed

text \<open>
  C29.  Committees accumulate: a transaction never removes anyone from any committee, whatever
  the message, so the members of a replaced committee keep the right to sign requests that name
  the old committee id; and a successful \<^verbatim>\<open>set_committee\<close> gives exactly the new list the next id.
\<close>

theorem committees_accumulate:
  assumes "reachable K w" and "id_headroom (bridge w)"
  shows "(is_in_committee c a (bridge w) \<longrightarrow> is_in_committee c a (bridge (most_tx K L R env msg w))) \<and>
         (set_committee env committee threshold (bridge w) = Ok m' \<longrightarrow>
            (\<exists>c'. get_current_committee_id m' = Ok c' \<and> members c' m' = set committee \<and>
                 signature_thresholds m' c' = Some threshold))"
proof (intro conjI impI)
  obtain d where d: "data_cell (bridge w) = Some d"
    using assms(2) by (auto simp: id_headroom_def split: option.splits)
  assume "is_in_committee c a (bridge w)"
  with most_tx_effect [OF d, of K L R env msg] show "is_in_committee c a (bridge (most_tx K L R env msg w))"
    by (induction rule: bridge_effect.induct)
      (auto simp: is_in_committee_def same_books_def insert_committee_eq)
next
  assume "set_committee env committee threshold (bridge w) = Ok m'"
  then obtain d where d: "data_cell (bridge w) = Some d" and m': "m' = (bridge w)\<lparr>
      committees := insert_committee (d_committee_id d + 1) committee (committees (bridge w)),
      data_cell := Some (d\<lparr>d_committee_id := d_committee_id d + 1\<rparr>),
      signature_thresholds := (signature_thresholds (bridge w))(d_committee_id d + 1 \<mapsto> threshold)\<rparr>"
    by (auto simp: set_committee_def result_elims set_data_def Let_def)
  from d assms(2) have "d_committee_id d < d_committee_id d + 1"
    by (intro word_Suc_fresh) (simp add: id_headroom_def)
  with reachable_inv [OF assms(1)] d have "committees (bridge w) (d_committee_id d + 1, a) = None" for a
    by (force simp: bridge_inv_def committee_inv_def)
  with m' show "\<exists>c'. get_current_committee_id m' = Ok c' \<and> members c' m' = set committee \<and>
      signature_thresholds m' c' = Some threshold"
    by (auto simp: get_current_committee_id_def read_data_def members_def insert_committee_eq)
qed

lemma committees_accumulate_witness:
  "is_in_committee 0 1 (bridge (sample_tx 100 0 committee_tx sample_chain))"
proof -
  have "id_headroom (bridge sample_chain)" "is_in_committee 0 1 (bridge sample_chain)"
    by (simp_all add: id_headroom_def is_in_committee_def insert_committee_eq sample_defs)
  with committees_accumulate [OF sample_reachable, of 0 1 ledger_lib sample_runtime "sample_env 100 0" committee_tx]
  show ?thesis by (simp add: sample_tx_def)
qed

section \<open>Access control\<close>

fun owner_message :: "most_msg \<Rightarrow> bool" where
  "owner_message (SendRequest s a r) = False"
| "owner_message (ReceiveRequest h c t a r n) = False"
| "owner_message (PayoutRewards c a) = False"
| "owner_message FundPocketMoney = False"
| "owner_message AcceptOwnership = False"
| "owner_message _ = True"

lemma owner_only_other:
  assumes "ownable_cell m = Some od" and "caller env \<noteq> owner od"
  shows "owner_only env m = Err (Ownable (CallerNotOwner (caller env)))"
  using assms by (simp add: owner_only_def ensure_owner_def read_ownable_data_def ownable_ensure_owner_def)

text \<open>
  Administration is the owner's: on a reachable state every administrative message sent
  without value by anyone but the owner is refused with \<^verbatim>\<open>CallerNotOwner\<close>, and the transaction
  changes nothing.
\<close>

theorem admin_messages_owner_only:
  assumes "reachable K w" and "owner_message msg" and "get_owner (bridge w) \<noteq> Ok (caller env)"
  shows "run_message K L R env msg w = Err (Ownable (CallerNotOwner (caller env))) \<and>
         most_tx K L R env msg w = w"
proof -
  obtain od where od: "ownable_cell (bridge w) = Some od"
    using reachable_inv [OF assms(1)] by (auto simp: bridge_inv_def)
  with assms(3) have ne: "caller env \<noteq> owner od"
    by (auto simp: get_owner_def read_ownable_data_def ownable_get_owner_def)
  note refused = owner_only_other [OF od ne]
  have "run_message K L R env msg w = Err (Ownable (CallerNotOwner (caller env)))"
    using assms(2) refused od ne
    by (cases msg)
      (simp_all add: message_defs set_committee_def lift_bridge_def read_ownable_data_def
        ownable_transfer_ownership_def ownable_ensure_owner_def)
  moreover have "\<not> payable msg" using assms(2) by (cases msg) auto
  ultimately show ?thesis by (simp add: most_tx_def)
qed

lemma admin_messages_owner_only_witness:
  "sample_tx 50 0 (SetHalted False) sample_chain = sample_chain"
  using admin_messages_owner_only [OF sample_reachable, of "SetHalted False" "sample_env 50 0"
      ledger_lib sample_runtime]
  by (simp add: sample_tx_def get_owner_def read_ownable_data_def ownable_get_owner_def sample_defs)

text \<open>
  C30.  A halted bridge is frozen: while the contract is halted, sending, voting and payouts
  fail with \<^verbatim>\<open>IsHalted\<close> and such a transaction changes nothing.
\<close>

theorem halted_bridge_frozen:
  assumes "is_halted (bridge w) = Ok True"
  shows "send_request L R env s amount r w = Err IsHalted \<and>
         receive_request K L R env h c t amount r n w = Err IsHalted \<and>
         payout_rewards R env c a w = Err IsHalted \<and>
         most_tx K L R env (SendRequest s amount r) w = w \<and>
         most_tx K L R env (ReceiveRequest h c t amount r n) w = w \<and>
         most_tx K L R env (PayoutRewards c a) w = w"
proof -
  have g: "ensure_not_halted (bridge w') = Err IsHalted" if "bridge w' = bridge w" for w' :: "'a chain"
    using assms that by (simp add: ensure_not_halted_def)
  have s: "send_request L R env s amount r w' = Err IsHalted" if "bridge w' = bridge w" for w'
    using g [OF that] by (simp add: send_request_def)
  have tx: "most_tx K L R env (SendRequest s amount r) w = w"
    by (cases "rt_transfer R (native w) (caller env) (self_account env) (transferred_value env)")
      (simp_all add: most_tx_def s)
  show ?thesis
    using g [of w] s [of w] tx
    by (simp add: receive_request_def payout_rewards_def most_tx_def)
qed

lemma halted_bridge_frozen_witness:
  "sample_tx 50 500 (SendRequest 7 30 99) sample_chain = sample_chain"
  using halted_bridge_frozen [of sample_chain ledger_lib sample_runtime "sample_env 50 500" 7 30 99]
  by (simp add: sample_tx_def is_halted_def read_data_def sample_defs)

text \<open>
  Ownership is handed over in two steps: the owner's nomination succeeds and changes no
  rights; the nominee's acceptance then succeeds, makes the nominee the owner and clears the
  nomination; from then on the former owner cannot nominate.  Until the acceptance, a call by an
  account that is neither owner nor nominee has no effect.
\<close>

theorem ownership_two_step:
  assumes "ownable_cell m \<noteq> None" and "get_owner m = Ok a"
  shows "\<exists>m1 m2. transfer_ownership (env\<lparr>caller := a\<rparr>) n m = Ok m1 \<and> get_owner m1 = Ok a \<and>
           get_pending_owner m1 = Ok n \<and>
           (\<forall>x. x \<noteq> a \<longrightarrow> x \<noteq> n \<longrightarrow>
              transfer_ownership (env\<lparr>caller := x\<rparr>) x m1 = Err (CallerNotOwner x) \<and>
              accept_ownership (env\<lparr>caller := x\<rparr>) m1 = Err (CallerNotPendingOwner x)) \<and>
           accept_ownership (env\<lparr>caller := n\<rparr>) m1 = Ok m2 \<and> get_owner m2 = Ok n \<and>
           get_pending_owner m2 = Err NoPendingOwner \<and>
           (a \<noteq> n \<longrightarrow> transfer_ownership (env\<lparr>caller := a\<rparr>) n m2 = Err (CallerNotOwner a))"
proof -
  from own_most.transfer_by_owner [OF assms, of env n] obtain m1 where
    m1: "transfer_ownership (env\<lparr>caller := a\<rparr>) n m = Ok m1" "ownable_cell m1 \<noteq> None"
      "get_owner m1 = Ok a" "get_pending_owner m1 = Ok n" by blast
  from own_most.accept_by_pending [OF m1(2,4), of env] obtain m2 where
    m2: "accept_ownership (env\<lparr>caller := n\<rparr>) m1 = Ok m2" "ownable_cell m2 \<noteq> None"
      "get_owner m2 = Ok n" "get_pending_owner m2 = Err NoPendingOwner" by blast
  have "transfer_ownership (env\<lparr>caller := x\<rparr>) x m1 = Err (CallerNotOwner x) \<and>
      accept_ownership (env\<lparr>caller := x\<rparr>) m1 = Err (CallerNotPendingOwner x)"
    if "x \<noteq> a" "x \<noteq> n" for x
    using own_most.transfer_by_other [OF m1(2), of x env x] that m1(3)
      own_most.accept_by_other [OF m1(2,4), of x env] by auto
  with m1 m2 own_most.transfer_by_other [OF m2(2), of a env n] show ?thesis by auto
qed

lemma ownership_two_step_witness:
  "\<exists>m1 m2. transfer_ownership ((sample_env 1 0)\<lparr>caller := 100\<rparr>) 50 sample_most = Ok m1 \<and>
     accept_ownership ((sample_env 1 0)\<lparr>caller := 50\<rparr>) m1 = Ok m2 \<and> get_owner m2 = Ok 50"
  using ownership_two_step [of sample_most 100 "sample_env 1 0" 50]
  by (auto simp: sample_defs get_owner_def read_ownable_data_def ownable_get_owner_def)

section \<open>Request hashes\<close>

text \<open>
  Two requests that differ in committee, token, amount, receiver or nonce can share a hash
  only through a collision of Keccak-256 on two different inputs of 112 bytes: the encoding of
  the five fields is injective and of fixed length.
\<close>

theorem request_hash_identifies_data:
  assumes "hash_request_data keccak c t a r n = hash_request_data keccak c' t' a' r' n'"
    and "(c, t, a, r, n) \<noteq> (c', t', a', r', n')"
  shows "\<exists>x y. x \<noteq> y \<and> length x = 112 \<and> length y = 112 \<and> keccak x = keccak y \<and>
           x = request_data c t a r n \<and> y = request_data c' t' a' r' n'"
  using hash_request_data_collision [OF assms] by (simp add: length_request_data)

lemma request_hash_identifies_data_witness:
  "\<exists>x y. x \<noteq> y \<and> length x = 112 \<and> length y = 112 \<and> sample_keccak x = sample_keccak y \<and>
     x = request_data 0 7 30 60 0 \<and> y = request_data 0 7 30 60 1"
  by (rule request_hash_identifies_data) simp_all

section \<open>Supported pairs\<close>

text \<open>
  Pairs: a pair that was added is the one \<^verbatim>\<open>send_request\<close> will use, adding requires that the
  token has granted the bridge the minter role, removing it makes sending fail with
  \<^verbatim>\<open>UnsupportedPair\<close> (for a non-zero amount and receiver on a running bridge), and neither touches
  any other pair.
\<close>

theorem pairs_added_and_removed:
  assumes "add_pair env from to w = Ok w'" and "remove_pair env from (bridge w') = Ok m"
  shows "supported_pairs (bridge w') = (supported_pairs (bridge w))(from \<mapsto> to) \<and>
         (\<exists>tok. tokens w from = Some tok \<and> token_minter tok = self_account env) \<and>
         supported_pairs m = (supported_pairs (bridge w))(from := None) \<and>
         (\<forall>w2 amount r. supported_pairs (bridge w2) = supported_pairs m \<longrightarrow>
            is_halted (bridge w2) = Ok False \<longrightarrow> amount \<noteq> 0 \<longrightarrow> r \<noteq> ETH_ZERO_ADDRESS \<longrightarrow>
            send_request L R env' from amount r w2 = Err UnsupportedPair)"
proof -
  have add: "supported_pairs (bridge w') = (supported_pairs (bridge w))(from \<mapsto> to)"
    "\<exists>tok. tokens w from = Some tok \<and> token_minter tok = self_account env"
    using assms(1) by (auto simp: add_pair_def result_elims split: option.splits if_splits)
  have rem: "supported_pairs m = (supported_pairs (bridge w))(from := None)"
    using assms(2) add(1) by (auto simp: remove_pair_def result_elims)
  have "send_request L R env' from amount r w2 = Err UnsupportedPair"
    if "supported_pairs (bridge w2) = supported_pairs m" "is_halted (bridge w2) = Ok False"
      "amount \<noteq> 0" "r \<noteq> ETH_ZERO_ADDRESS" for w2 amount r
  proof -
    from that(2) obtain d where "read_data (bridge w2) = Ok d"
      by (auto simp: is_halted_def result_elims read_data_def)
    with that rem show ?thesis by (simp add: send_request_def ensure_not_halted_def)
  qed
  with add rem show ?thesis by blast
qed

lemma pairs_added_and_removed_witness:
  "\<exists>w' m. add_pair (sample_env 100 0) 7 77 sample_chain = Ok w' \<and>
     remove_pair (sample_env 100 0) 7 (bridge w') = Ok m \<and> supported_pairs m 7 = None"
proof -
  let ?w = "on_bridge (\<lambda>m. m\<lparr>supported_pairs := (supported_pairs m)(7 \<mapsto> 77)\<rparr>) sample_chain"
  let ?m = "(bridge ?w)\<lparr>supported_pairs := (supported_pairs (bridge ?w))(7 := None)\<rparr>"
  have a: "add_pair (sample_env 100 0) 7 77 sample_chain = Ok ?w"
    by (simp add: add_pair_def token_minter_def admin_defs sample_defs)
  have r: "remove_pair (sample_env 100 0) 7 (bridge ?w) = Ok ?m"
    by (simp add: remove_pair_def admin_defs sample_defs)
  from pairs_added_and_removed [OF a r, where L = ledger_lib and R = sample_runtime and env' = "sample_env 1 0"]
  have "supported_pairs ?m = (supported_pairs (bridge sample_chain))(7 := None)" by blast
  with a r show ?thesis by fastforce
qed

end
