(* ===== verification/Polling.thy ===== *)
theory Polling
  imports Bridge_Prelude
begin

text \<open>
  The polling loops of the relayer, \<^verbatim>\<open>loop { match ask().await { .. return .. }; sleep(..).await }\<close>:
  a question is put to a node until an answer ends the loop.  The node's state \<open>'w\<close> moves on with
  every question.  Such a loop may run for ever, so it is a partial function, whose value \<open>None\<close>
  means that it does not return; \<open>poll_iff\<close> says exactly when it returns and with what.
\<close>

partial_function (option) poll :: "('w \<Rightarrow> 'a option \<times> 'w) \<Rightarrow> 'w \<Rightarrow> ('a \<times> 'w) option" where
  "poll ask w = (case ask w of (Some a, w') \<Rightarrow> Some (a, w') | (None, w') \<Rightarrow> poll ask w')"

text \<open>The node's state after \<open>k\<close> questions.\<close>

primrec asked :: "('w \<Rightarrow> 'a option \<times> 'w) \<Rightarrow> nat \<Rightarrow> 'w \<Rightarrow> 'w" where
  "asked ask 0 w = w"
| "asked ask (Suc k) w = asked ask k (snd (ask w))"

definition answered_after :: "('w \<Rightarrow> 'a option \<times> 'w) \<Rightarrow> nat \<Rightarrow> 'w \<Rightarrow> 'a \<Rightarrow> 'w \<Rightarrow> bool" where
  "answered_after ask k w a w' \<longleftrightarrow>
     (\<forall>j<k. fst (ask (asked ask j w)) = None) \<and> ask (asked ask k w) = (Some a, w')"

lemma answered_after_0 [simp]: "answered_after ask 0 w a w' \<longleftrightarrow> ask w = (Some a, w')"
  by (simp add: answered_after_def)

lemma answered_after_Suc:
  "answered_after ask (Suc k) w a w' \<longleftrightarrow> (\<exists>v. ask w = (None, v) \<and> answered_after ask k v a w')"
proof -
  have "(\<forall>j<Suc k. fst (ask (asked ask j w)) = None) \<longleftrightarrow>
        fst (ask w) = None \<and> (\<forall>j<k. fst (ask (asked ask j (snd (ask w)))) = None)"
    by (auto simp: less_Suc_eq_0_disj)
  then show ?thesis by (cases "ask w") (auto simp: answered_after_def)
qed

lemma poll_answered: "answered_after ask k w a w' \<Longrightarrow> poll ask w = Some (a, w')"
proof (induction k arbitrary: w)
  case 0
  then show ?case by (simp add: poll.simps)
next
  case (Suc k)
  then show ?case by (subst poll.simps) (auto simp: answered_after_Suc)
qed

lemma poll_returned: "poll ask w = Some aw \<Longrightarrow> \<exists>k. answered_after ask k w (fst aw) (snd aw)"
proof (erule poll.raw_induct [rotated])
  fix rec ask w aw
  assume ih: "\<And>ask w aw. rec ask w = Some aw \<Longrightarrow> \<exists>k. answered_after ask k w (fst aw) (snd aw)"
    and step: "(case ask w of (None, w') \<Rightarrow> rec ask w' | (Some a, w') \<Rightarrow> Some (a, w')) = Some aw"
  show "\<exists>k. answered_after ask k w (fst aw) (snd aw)"
  proof (cases "fst (ask w)")
    case None
    with step have "rec ask (snd (ask w)) = Some aw" by (cases "ask w") simp
    then obtain k where "answered_after ask k (snd (ask w)) (fst aw) (snd aw)" using ih by blast
    with None have "answered_after ask (Suc k) w (fst aw) (snd aw)"
      by (cases "ask w") (simp add: answered_after_Suc)
    then show ?thesis by blast
  next
    case (Some a)
    with step have "answered_after ask 0 w (fst aw) (snd aw)" by (cases "ask w") auto
    then show ?thesis by blast
  qed
qed

theorem poll_iff: "poll ask w = Some (a, w') \<longleftrightarrow> (\<exists>k. answered_after ask k w a w')"
  using poll_answered poll_returned by fastforce

text \<open>What every answer of the question satisfies holds of the loop's result.\<close>

lemma poll_answer:
  assumes "poll ask w = Some (a, w')"
  obtains v where "ask v = (Some a, w')"
  using assms unfolding poll_iff answered_after_def by blast

section \<open>Windows of blocks\<close>

text \<open>
  Both listeners walk the chain in windows: from the first unprocessed block to the finalized head,
  but no further than \<^verbatim>\<open>sync_step\<close> blocks.  The \<^verbatim>\<open>u32\<close> sum wraps.
\<close>

definition window_end :: "u32 \<Rightarrow> u32 \<Rightarrow> u32 \<Rightarrow> u32" where
  "window_end finalized first sync_step = min finalized (first + sync_step - 1)"

text \<open>The Rust range \<^verbatim>\<open>from..=to\<close>.\<close>

definition block_range :: "u32 \<Rightarrow> u32 \<Rightarrow> u32 list" where
  "block_range from to = map of_nat [unat from..<Suc (unat to)]"

lemma set_block_range [simp]: "set (block_range a b) = {a..b}"
proof
  show "set (block_range a b) \<subseteq> {a..b}"
  proof
    fix x assume "x \<in> set (block_range a b)"
    then obtain n where n: "x = of_nat n" "unat a \<le> n" "n \<le> unat b"
      by (auto simp: block_range_def)
    then have "unat x = n" using unsigned_less [of b, where 'a = nat] by (auto intro!: unat_of_nat_small)
    with n show "x \<in> {a..b}" by (simp add: word_le_nat_alt)
  qed
next
  show "{a..b} \<subseteq> set (block_range a b)"
  proof
    fix x assume "x \<in> {a..b}"
    then have "unat x \<in> {unat a..<Suc (unat b)}" by (auto simp: word_le_nat_alt)
    then have "of_nat (unat x) \<in> set (block_range a b)" unfolding block_range_def set_map set_upt by (rule imageI)
    then show "x \<in> set (block_range a b)" by simp
  qed
qed

text \<open>
  When the head stays below a bound \<open>B\<close> that leaves room for one more step, a window starting at
  \<open>first\<close> neither wraps nor moves back: its successor lies in \<open>first..B\<close>.
\<close>

definition window_room :: "nat \<Rightarrow> u32 \<Rightarrow> bool" where
  "window_room B sync_step \<longleftrightarrow> B + unat sync_step < 2 ^ 32"

lemma window_end_bounds:
  assumes room: "window_room B sync_step" and "1 \<le> unat first" and "unat first \<le> B"
    and "first \<le> finalized" and "unat finalized < B"
  shows "unat first \<le> unat (window_end finalized first sync_step) + 1"
    and "unat (window_end finalized first sync_step) < B"
proof -
  have "unat (first + sync_step) = unat first + unat sync_step"
    using assms by (intro unat_add_lem [THEN iffD1]) (simp add: window_room_def)
  moreover have "unat (first + sync_step - 1) = unat (first + sync_step) - 1"
    using assms calculation by (intro unat_minus_one) auto
  ultimately have sum: "unat (first + sync_step - 1) + 1 = unat first + unat sync_step"
    using assms(2) by linarith
  show "unat first \<le> unat (window_end finalized first sync_step) + 1"
    using sum assms(4) by (auto simp: window_end_def min_def word_le_nat_alt)
  show "unat (window_end finalized first sync_step) < B"
    using assms(5) by (auto simp: window_end_def min_def word_le_nat_alt)
qed

lemma unat_succ_small: "unat (b :: u32) < 2 ^ 32 - 1 \<Longrightarrow> unat (b + 1) = unat b + 1"
  by (simp add: unat_word_ariths)

end
