(* ===== verification/Relayer_Config.thy ===== *)
theory Relayer_Config
  imports Bridge_Prelude
begin

text \<open>
  The relayer's configuration (\<^verbatim>\<open>relayer/src/config.rs\<close>) and its persistent block cursor in Redis
  (\<^verbatim>\<open>relayer/src/connections/redis_helpers.rs\<close>).  The relayer is built in release mode, where a
  plain \<^verbatim>\<open>+\<close> or \<^verbatim>\<open>-\<close> on \<^verbatim>\<open>u32\<close> wraps; it does on words.
\<close>

section \<open>Parsing a starting block\<close>

text \<open>\<^verbatim>\<open>str::parse::<u32>\<close> of the standard library, with the messages of its error type.\<close>

datatype parse_int_error = Empty | InvalidDigit | PosOverflow

fun parse_int_error_display :: "parse_int_error \<Rightarrow> string" where
  "parse_int_error_display Empty = ''cannot parse integer from empty string''"
| "parse_int_error_display InvalidDigit = ''invalid digit found in string''"
| "parse_int_error_display PosOverflow = ''number too large to fit in target type''"

definition to_digit :: "char \<Rightarrow> u32 option" where
  "to_digit c = (let n = of_char c :: nat in if 48 \<le> n \<and> n \<le> 57 then Some (of_nat (n - 48)) else None)"

fun parse_digits :: "u32 \<Rightarrow> string \<Rightarrow> (u32, parse_int_error) result" where
  "parse_digits acc [] = Ok acc"
| "parse_digits acc (c # cs) =
     (case to_digit c of
        None \<Rightarrow> Err InvalidDigit
      | Some d \<Rightarrow>
          try_res (ok_or (checked_mul acc 10) PosOverflow) (\<lambda>m.
          try_res (ok_or (checked_add m d) PosOverflow) (\<lambda>a. parse_digits a cs)))"

definition parse_u32 :: "string \<Rightarrow> (u32, parse_int_error) result" where
  "parse_u32 s =
     (case s of
        [] \<Rightarrow> Err Empty
      | [c] \<Rightarrow> if c = CHR ''+'' \<or> c = CHR ''-'' then Err InvalidDigit else parse_digits 0 s
      | c # cs \<Rightarrow> if c = CHR ''+'' then parse_digits 0 cs else parse_digits 0 s)"

datatype sync_from_block = SyncFromBlock u32

definition sync_from_str :: "string \<Rightarrow> (sync_from_block, string) result" where
  "sync_from_str s =
     try_res (map_err parse_int_error_display (parse_u32 s)) (\<lambda>inner. Ok (SyncFromBlock (max 1 inner)))"

fun sync_deref :: "sync_from_block \<Rightarrow> u32" where
  "sync_deref (SyncFromBlock n) = n"

section \<open>Configuration\<close>

datatype log_level = Log_Error | Log_Warn | Log_Info | Log_Debug | Log_Trace

record config =
  cfg_name :: string
  cfg_dev :: bool
  cfg_dev_account_index :: u32
  cfg_override_azero_cache :: bool
  cfg_override_eth_cache :: bool
  cfg_advisory_contract_addresses :: "string list option"
  cfg_advisory_contract_metadata :: string
  cfg_signer_cid :: "u32 option"
  cfg_signer_port :: u32
  cfg_azero_contract_address :: string
  cfg_azero_contract_metadata :: string
  cfg_azero_node_wss_url :: string
  cfg_azero_max_event_handler_tasks :: u64
  cfg_azero_ref_time_limit :: u64
  cfg_azero_proof_size_limit :: u64
  cfg_default_sync_from_block_azero :: sync_from_block
  cfg_eth_contract_address :: string
  cfg_eth_keystore_password :: string
  cfg_eth_keystore_path :: string
  cfg_eth_node_http_url :: string
  cfg_eth_tx_submission_retries :: u64
  cfg_eth_tx_min_confirmations :: u64
  cfg_default_sync_from_block_eth :: sync_from_block
  cfg_eth_gas_limit :: u32
  cfg_sync_step :: u32
  cfg_redis_node :: string
  cfg_rust_log :: log_level

section \<open>The block cursor\<close>

text \<open>
  The Redis connection is a parameter: reading a \<^verbatim>\<open>u32\<close> under a key and writing one, each of
  which may fail.  \<open>redis_law\<close> is what a key-value store promises: after a successful write, a
  successful read of that key returns the value, and other keys answer as before.
\<close>

type_synonym redis_error = string

record 'r redis =
  redis_get :: "string \<Rightarrow> 'r \<Rightarrow> (u32, redis_error) result"
  redis_set :: "string \<Rightarrow> u32 \<Rightarrow> 'r \<Rightarrow> ('r, redis_error) result"

definition redis_law :: "'r redis \<Rightarrow> bool" where
  "redis_law C \<longleftrightarrow> (\<forall>k v s s'. redis_set C k v s = Ok s' \<longrightarrow>
     (\<forall>x. redis_get C k s' = Ok x \<longrightarrow> x = v) \<and>
     (\<forall>k'. k' \<noteq> k \<longrightarrow> redis_get C k' s' = redis_get C k' s))"

definition redis_key :: "string \<Rightarrow> string \<Rightarrow> string" where
  "redis_key name key = name @ '':'' @ key"

definition read_first_unprocessed_block_number ::
  "'r redis \<Rightarrow> string \<Rightarrow> string \<Rightarrow> u32 \<Rightarrow> 'r \<Rightarrow> u32" where
  "read_first_unprocessed_block_number C name key default_block s =
     (case redis_get C (redis_key name key) s of
        Ok value \<Rightarrow> value + 1
      | _ \<Rightarrow> default_block)"

definition write_last_processed_block ::
  "'r redis \<Rightarrow> string \<Rightarrow> string \<Rightarrow> u32 \<Rightarrow> 'r \<Rightarrow> ('r, redis_error) result" where
  "write_last_processed_block C name key last_block_number s =
     redis_set C (redis_key name key) last_block_number s"

definition ALEPH_LAST_BLOCK_KEY :: string where
  "ALEPH_LAST_BLOCK_KEY = ''alephzero_last_known_block_number''"

definition ETH_LAST_BLOCK_KEY :: string where
  "ETH_LAST_BLOCK_KEY = ''ethereum_last_known_block_number''"

lemma cursor_keys_differ: "redis_key name ALEPH_LAST_BLOCK_KEY \<noteq> redis_key name' ETH_LAST_BLOCK_KEY"
proof
  assume "redis_key name ALEPH_LAST_BLOCK_KEY = redis_key name' ETH_LAST_BLOCK_KEY"
  then have "rev (redis_key name ALEPH_LAST_BLOCK_KEY) = rev (redis_key name' ETH_LAST_BLOCK_KEY)"
    by simp
  then show False by (simp add: redis_key_def ALEPH_LAST_BLOCK_KEY_def ETH_LAST_BLOCK_KEY_def)
qed

lemma read_after_write:
  assumes "redis_law C" and "write_last_processed_block C name key n s = Ok s'"
  shows "read_first_unprocessed_block_number C name key default_block s' \<in> {n + 1, default_block}"
  using assms
  by (auto simp: redis_law_def write_last_processed_block_def read_first_unprocessed_block_number_def
      split: result.splits)

lemma other_cursor_kept:
  assumes "redis_law C" and "write_last_processed_block C name key n s = Ok s'"
    and "redis_key name' key' \<noteq> redis_key name key"
  shows "redis_get C (redis_key name' key') s' = redis_get C (redis_key name' key') s"
  using assms unfolding redis_law_def write_last_processed_block_def by blast

lemma cursor_written:
  assumes "redis_law C" and "write_last_processed_block C name key n s = Ok s'"
    and "redis_get C (redis_key name key) s' = Ok x"
  shows "x = n"
  using assms unfolding redis_law_def write_last_processed_block_def by blast

section \<open>Decimal numerals\<close>

fun decimal :: "nat \<Rightarrow> string" where
  "decimal n = (if n < 10 then [] else decimal (n div 10)) @ [char_of (48 + n mod 10)]"

declare decimal.simps [simp del]

lemma to_digit_char: "d < 10 \<Longrightarrow> to_digit (char_of (48 + d)) = Some (of_nat d)"
  by (simp add: to_digit_def of_char_of Let_def)

lemma parse_digits_snoc:
  "parse_digits acc (xs @ [c]) = try_res (parse_digits acc xs) (\<lambda>a. parse_digits a [c])"
proof (induction xs arbitrary: acc)
  case (Cons x xs)
  show ?case
    by (cases "to_digit x"; cases "ok_or (checked_mul acc 10) PosOverflow")
       (simp_all add: Cons.IH try_res_assoc del: parse_digits.simps(1) split: result.splits)
qed simp

lemma checked_add_of_nat:
  "m + n < 2 ^ LENGTH('a) \<Longrightarrow> checked_add (of_nat m :: 'a::len word) (of_nat n) = Some (of_nat (m + n))"
  unfolding checked_add_Some by (subst (1 2 3) unat_of_nat_small) linarith+

lemma checked_mul_of_nat:
  assumes "m * n < 2 ^ LENGTH('a)" and "0 < n" and "n < 2 ^ LENGTH('a)"
  shows "checked_mul (of_nat m :: 'a::len word) (of_nat n) = Some (of_nat (m * n))"
proof -
  have "m * 1 \<le> m * n" using assms(2) by (intro mult_le_mono) auto
  then have "m < 2 ^ LENGTH('a)" using assms(1) by linarith
  with assms show ?thesis unfolding checked_mul_Some by (simp only: unat_of_nat_small)
qed

lemma parse_decimal: "n < 2 ^ 32 \<Longrightarrow> parse_digits 0 (decimal n) = Ok (of_nat n)"
proof (induction n rule: decimal.induct)
  case (1 n)
  let ?q = "if n < 10 then 0 else n div 10"
  have q: "parse_digits 0 (if n < 10 then [] else decimal (n div 10)) = Ok (of_nat ?q)"
    using 1 by auto
  have n: "?q * 10 + n mod 10 = n" by auto
  have "?q * 10 < 2 ^ 32" using 1(2) n by linarith
  then have mul: "checked_mul (of_nat ?q :: u32) 10 = Some (of_nat (?q * 10))"
    using checked_mul_of_nat [of ?q 10, where 'a = 32] by simp
  have add: "checked_add (of_nat (?q * 10) :: u32) (of_nat (n mod 10)) = Some (of_nat n)"
    using checked_add_of_nat [of "?q * 10" "n mod 10", where 'a = 32] n 1(2) by (simp del: of_nat_mult)
  have "parse_digits 0 (decimal n) = parse_digits (of_nat ?q) [char_of (48 + n mod 10)]"
    by (subst decimal.simps) (simp only: parse_digits_snoc q try_res.simps)
  also have "\<dots> = Ok (of_nat n)"
    using mul add by (simp add: to_digit_char)
  finally show ?case .
qed

lemma sign_chars: "\<not> 48 \<le> (of_char (CHR ''+'') :: nat)" "\<not> 48 \<le> (of_char (CHR ''-'') :: nat)"
  by simp_all

lemma digit_not_sign: "char_of (48 + d mod 10 :: nat) \<noteq> CHR ''+'' \<and> char_of (48 + d mod 10 :: nat) \<noteq> CHR ''-''"
proof -
  have "of_char (char_of (48 + d mod 10 :: nat)) = 48 + d mod 10"
    by (simp add: of_char_of)
  then have "48 \<le> (of_char (char_of (48 + d mod 10 :: nat)) :: nat)" by linarith
  then show ?thesis by (metis sign_chars)
qed

lemma decimal_first: "decimal n = c # cs \<Longrightarrow> c \<noteq> CHR ''+'' \<and> c \<noteq> CHR ''-''"
proof (induction n arbitrary: c cs rule: decimal.induct)
  case (1 n)
  show ?case
  proof (cases "n < 10")
    case True
    with 1(2) show ?thesis using digit_not_sign [of n] by (subst (asm) decimal.simps) auto
  next
    case False
    obtain c' cs' where first: "decimal (n div 10) = c' # cs'"
      by (cases "decimal (n div 10)") (auto simp: decimal.simps [of "n div 10"])
    with 1(2) False have "c' = c" by (subst (asm) decimal.simps) simp
    with 1(1) [OF False] first show ?thesis by blast
  qed
qed

lemma parse_u32_decimal: "n < 2 ^ 32 \<Longrightarrow> parse_u32 (decimal n) = Ok (of_nat n)"
proof -
  assume "n < 2 ^ 32"
  then have digits: "parse_digits 0 (decimal n) = Ok (of_nat n)" by (rule parse_decimal)
  obtain c cs where "decimal n = c # cs"
    by (cases "decimal n") (auto simp: decimal.simps [of n])
  with digits decimal_first [OF this] show ?thesis
    by (simp add: parse_u32_def del: parse_digits.simps split: list.split)
qed

lemma sync_from_str_positive: "sync_from_str s = Ok b \<Longrightarrow> 1 \<le> sync_deref b"
  by (auto simp: sync_from_str_def result_elims)

lemma decimal_inject: "decimal m = decimal n \<longleftrightarrow> m = n"
proof
  show "decimal m = decimal n \<Longrightarrow> m = n"
  proof (induction m arbitrary: n rule: decimal.induct)
    case (1 m)
    have ne: "decimal k \<noteq> []" "[] \<noteq> decimal k" for k by (simp_all add: decimal.simps [of k])
    have "(if m < 10 then [] else decimal (m div 10)) @ [char_of (48 + m mod 10)] =
        (if n < 10 then [] else decimal (n div 10)) @ [char_of (48 + n mod 10)]"
      using 1(2) unfolding decimal.simps [of m] decimal.simps [of n] .
    then have eq: "(if m < 10 then [] else decimal (m div 10)) = (if n < 10 then [] else decimal (n div 10))"
      and "char_of (48 + m mod 10) = (char_of (48 + n mod 10) :: char)" by simp_all
    then have "(of_char (char_of (48 + m mod 10)) :: nat) = of_char (char_of (48 + n mod 10))" by simp
    then have digit: "m mod 10 = n mod 10" by simp
    show ?case
    proof (cases "m < 10")
      case True
      with eq ne have "n < 10" by (auto split: if_splits)
      with True digit show ?thesis by simp
    next
      case False
      with eq ne have "\<not> n < 10" by (auto split: if_splits)
      with False eq 1(1) have "m div 10 = n div 10" by simp
      with digit show ?thesis by (metis div_mod_decomp)
    qed
  qed
qed simp

section \<open>The contract of a cursor\<close>

lemma less_succ_le: "(b :: u32) < x + 1 \<Longrightarrow> b \<le> x"
proof (cases "1 + x = 0")
  case False
  then have "unat (x + 1) = Suc (unat x)" by (subst add.commute) (rule unatSuc)
  then show "b < x + 1 \<Longrightarrow> b \<le> x" by (simp add: word_less_nat_alt word_le_nat_alt)
qed (simp add: add.commute)

text \<open>
  What both listeners promise of their cursor: wherever a run leads, the cursor in Redis is the one found at
  the start, or every block from the first one of the run up to it has been handled.  Then a restart resumes at
  a block before which nothing was missed.
\<close>

locale block_cursor =
  fixes C :: "'r redis" and name :: string and key :: string and default_block :: u32
    and redis_of :: "'st \<Rightarrow> 'r" and run :: "'st \<Rightarrow> 'st \<Rightarrow> bool" and handled :: "'st \<Rightarrow> 'st \<Rightarrow> u32 \<Rightarrow> bool"
  assumes cursor_sound: "run st0 st \<Longrightarrow> redis_get C (redis_key name key) (redis_of st) = Ok x \<Longrightarrow>
      redis_get C (redis_key name key) (redis_of st0) = Ok x \<or>
      (\<forall>b. read_first_unprocessed_block_number C name key default_block (redis_of st0) \<le> b \<longrightarrow> b < x + 1 \<longrightarrow> handled st0 st b)"
begin

definition resume :: "'st \<Rightarrow> u32" where
  "resume st = read_first_unprocessed_block_number C name key default_block (redis_of st)"

lemma resume_skips_nothing:
  assumes "run st0 st" and "redis_get C (redis_key name key) (redis_of st) = Ok x"
    and "resume st0 \<le> b" and "b < resume st"
  shows "handled st0 st b"
proof -
  have b: "b < x + 1" using assms(2,4) by (simp add: resume_def read_first_unprocessed_block_number_def)
  then have "redis_get C (redis_key name key) (redis_of st0) \<noteq> Ok x"
    using assms(3) by (auto simp: resume_def read_first_unprocessed_block_number_def)
  with cursor_sound [OF assms(1,2)] assms(3) b show ?thesis by (simp add: resume_def)
qed

end

end
