(* ===== verification/Contracts_Azero.thy ===== *)
theory Contracts_Azero
  imports Relayer_Config
begin

text \<open>
  The relayer's view of the Aleph Zero contracts (\<^verbatim>\<open>relayer/src/contracts/azero.rs\<close>): the wrappers
  around the bridge and the advisory contracts, and the decoding of their events and answers.
  The client library (\<^verbatim>\<open>aleph_client\<close>, its transcoder and its connection) is a parameter of type
  \<open>aleph_lib\<close>; the type \<open>'w\<close> is the state of the chain as the client sees it, which moves on with
  every call.
\<close>

section \<open>Transcoded values\<close>

text \<open>
  \<^verbatim>\<open>contract_transcode::Value\<close>: the four constructors the sources match on, with \<open>Other\<close> for the
  remaining ones, whose content they never look at.
\<close>

datatype 'o transcoded =
    UInt u128
  | Bool_Value bool
  | Seq "'o transcoded list"
  | Tuple "string option" "'o transcoded list"
  | Other 'o

type_synonym 'o event_data = "string \<Rightarrow> 'o transcoded option"

text \<open>\<^verbatim>\<open>AzeroContractError\<close>; an \<^verbatim>\<open>anyhow::Error\<close> is kept as its rendering.\<close>

datatype azero_contract_error =
    Client_Error string
  | NotAccountId string
  | InvalidUTF8 string
  | MissingOrInvalidField string
  | DryRunFailed string

section \<open>The client library\<close>

record weight =
  ref_time :: u64
  proof_size :: u64

datatype tx_status = InBlock | Finalized | Submitted

record tx_info =
  tx_block_hash :: bytes32
  tx_tx_hash :: bytes32

record block_details =
  block_number :: u32
  block_hash :: bytes32

record 'o contract_event =
  event_name :: "string option"
  event_data :: "'o event_data"

text \<open>
  \<open>contract_call\<close> submits a signed contract call and waits for the given status; \<open>call_and_get\<close> is
  a dry run, whose outer result is the connection's and whose inner one the execution's;
  \<open>contract_read_bool\<close> is \<^verbatim>\<open>contract_read0::<bool, _>\<close>.
\<close>

record ('c, 't, 'o, 'raw, 'w) aleph_lib =
  account_from_str :: "string \<Rightarrow> (account_id, string) result"
  contract_instance :: "account_id \<Rightarrow> string \<Rightarrow> ('c, string) result"
  transcoder_load :: "string \<Rightarrow> ('t, string) result"
  encode_message :: "'t \<Rightarrow> string \<Rightarrow> string list \<Rightarrow> (u8 list, string) result"
  decode_return :: "'t \<Rightarrow> string \<Rightarrow> u8 list \<Rightarrow> ('o transcoded, string) result"
  contract_call :: "account_id \<Rightarrow> u128 \<Rightarrow> weight \<Rightarrow> u8 list \<Rightarrow> tx_status \<Rightarrow> 'w \<Rightarrow> (tx_info, string) result \<times> 'w"
  call_and_get :: "account_id \<Rightarrow> account_id \<Rightarrow> u8 list \<Rightarrow> 'w \<Rightarrow> ((u8 list, string) result, string) result \<times> 'w"
  contract_read_bool :: "'c \<Rightarrow> string \<Rightarrow> 'w \<Rightarrow> (bool, string) result \<times> 'w"
  translate_events :: "'c \<Rightarrow> 'raw list \<Rightarrow> block_details \<Rightarrow> ('o contract_event, string) result list"
  hex_encode :: "u8 list \<Rightarrow> string"
  debug_value :: "'o transcoded \<Rightarrow> string"
  debug_values :: "'o transcoded list \<Rightarrow> string"

section \<open>Decoding\<close>

text \<open>\<^verbatim>\<open>{:?}\<close> of a field name; the names are plain identifiers, so nothing is escaped.\<close>

definition quoted :: "string \<Rightarrow> string" where
  "quoted s = [char_of (34 :: nat)] @ s @ [char_of (34 :: nat)]"

definition decode_uint_field :: "'o event_data \<Rightarrow> string \<Rightarrow> (u128, azero_contract_error) result" where
  "decode_uint_field data field =
     (case data field of
        Some (UInt x) \<Rightarrow> Ok x
      | _ \<Rightarrow> Err (MissingOrInvalidField
               (''Data field '' @ quoted field @ '' couldn't be found or has incorrect format'')))"

text \<open>The \<^verbatim>\<open>try_fold\<close> over the elements; \<^verbatim>\<open>*x as u8\<close> keeps the low eight bits.\<close>

fun push_bytes :: "string \<Rightarrow> u8 list \<Rightarrow> 'o transcoded list \<Rightarrow> (u8 list, azero_contract_error) result" where
  "push_bytes field v [] = Ok v"
| "push_bytes field v (UInt x # xs) = push_bytes field (v @ [ucast x]) xs"
| "push_bytes field v (x # xs) =
     Err (MissingOrInvalidField
       (''Seq under data field '' @ quoted field @ '' contains elements of incorrect type''))"

definition decode_seq_field :: "'o event_data \<Rightarrow> string \<Rightarrow> (bytes32, azero_contract_error) result" where
  "decode_seq_field data field =
     (case data field of
        Some (Seq elems) \<Rightarrow>
          try_res (push_bytes field [] elems) (\<lambda>v.
            if length v = 32 then Ok (array_of_bytes v)
            else Err (MissingOrInvalidField
                   (''Seq under data field '' @ quoted field @ '' has incorrect length'')))
      | _ \<Rightarrow> Err (MissingOrInvalidField
               (''Data field '' @ quoted field @ '' couldn't be found or has incorrect format'')))"

record transfer_request =
  tr_committee_id :: u128
  tr_dest_token_address :: bytes32
  tr_amount :: u128
  tr_dest_receiver_address :: bytes32
  tr_request_nonce :: u128

definition get_request_event_data :: "'o event_data \<Rightarrow> (transfer_request, azero_contract_error) result" where
  "get_request_event_data data =
     try_res (decode_uint_field data ''committee_id'') (\<lambda>committee_id.
     try_res (decode_seq_field data ''dest_token_address'') (\<lambda>dest_token_address.
     try_res (decode_uint_field data ''amount'') (\<lambda>amount.
     try_res (decode_seq_field data ''dest_receiver_address'') (\<lambda>dest_receiver_address.
     try_res (decode_uint_field data ''request_nonce'') (\<lambda>request_nonce.
       Ok \<lparr>tr_committee_id = committee_id, tr_dest_token_address = dest_token_address,
           tr_amount = amount, tr_dest_receiver_address = dest_receiver_address,
           tr_request_nonce = request_nonce\<rparr>)))))"

text \<open>Indexing the collected values with \<^verbatim>\<open>[0]\<close> panics on an empty tuple.\<close>

definition decode_bool_from_tuple ::
  "('o transcoded \<Rightarrow> string) \<Rightarrow> 'o transcoded \<Rightarrow> (bool, azero_contract_error) result" where
  "decode_bool_from_tuple dbg data =
     (case data of
        Tuple ident (Bool_Value x # vs) \<Rightarrow> Ok x
      | Tuple ident [] \<Rightarrow> Panic
      | _ \<Rightarrow> Err (DryRunFailed (''Value '' @ dbg data @ '' couldn't be decoded as bool'')))"

definition bytes32_to_str :: "('c, 't, 'o, 'raw, 'w) aleph_lib \<Rightarrow> bytes32 \<Rightarrow> string" where
  "bytes32_to_str L data = ''0x'' @ hex_encode L (array_bytes data)"

section \<open>The advisory wrapper\<close>

record 'c advisory_instance =
  ai_contract :: 'c
  ai_address :: account_id

definition advisory_instance_new ::
  "('c, 't, 'o, 'raw, 'w) aleph_lib \<Rightarrow> string \<Rightarrow> string \<Rightarrow> ('c advisory_instance, azero_contract_error) result" where
  "advisory_instance_new L address metadata_path =
     try_res (map_err NotAccountId (account_from_str L address)) (\<lambda>address.
     try_res (map_err Client_Error (contract_instance L address metadata_path)) (\<lambda>contract.
       Ok \<lparr>ai_contract = contract, ai_address = address\<rparr>))"

definition advisory_read_emergency ::
  "('c, 't, 'o, 'raw, 'w) aleph_lib \<Rightarrow> 'c advisory_instance \<Rightarrow> 'w
    \<Rightarrow> (bool \<times> account_id, azero_contract_error) result \<times> 'w" where
  "advisory_read_emergency L inst w =
     (case contract_read_bool L (ai_contract inst) ''is_emergency'' w of
        (Ok is_emergency, w') \<Rightarrow> (Ok (is_emergency, ai_address inst), w')
      | (Err why, w') \<Rightarrow> (Err (Client_Error why), w')
      | (Panic, w') \<Rightarrow> (Panic, w'))"

section \<open>The bridge wrapper\<close>

record ('c, 't) most_instance =
  mi_contract :: 'c
  mi_address :: account_id
  mi_transcoder :: 't
  mi_ref_time_limit :: u64
  mi_proof_size_limit :: u64

definition most_instance_new ::
  "('c, 't, 'o, 'raw, 'w) aleph_lib \<Rightarrow> string \<Rightarrow> string \<Rightarrow> u64 \<Rightarrow> u64
    \<Rightarrow> (('c, 't) most_instance, azero_contract_error) result" where
  "most_instance_new L address metadata_path ref_time_limit proof_size_limit =
     try_res (map_err NotAccountId (account_from_str L address)) (\<lambda>address.
     try_res (map_err Client_Error (transcoder_load L metadata_path)) (\<lambda>transcoder.
     try_res (map_err Client_Error (contract_instance L address metadata_path)) (\<lambda>contract.
       Ok \<lparr>mi_contract = contract, mi_address = address, mi_transcoder = transcoder,
           mi_ref_time_limit = ref_time_limit, mi_proof_size_limit = proof_size_limit\<rparr>)))"

definition receive_request_args ::
  "('c, 't, 'o, 'raw, 'w) aleph_lib \<Rightarrow> bytes32 \<Rightarrow> u128 \<Rightarrow> bytes32 \<Rightarrow> u128 \<Rightarrow> bytes32 \<Rightarrow> u128 \<Rightarrow> string list" where
  "receive_request_args L request_hash committee_id dest_token_address amount dest_receiver_address request_nonce =
     [bytes32_to_str L request_hash, decimal (unat committee_id), bytes32_to_str L dest_token_address,
      decimal (unat amount), bytes32_to_str L dest_receiver_address, decimal (unat request_nonce)]"

definition send_receive_request ::
  "('c, 't, 'o, 'raw, 'w) aleph_lib \<Rightarrow> ('c, 't) most_instance \<Rightarrow> bytes32 \<Rightarrow> u128 \<Rightarrow> bytes32 \<Rightarrow> u128
    \<Rightarrow> bytes32 \<Rightarrow> u128 \<Rightarrow> 'w \<Rightarrow> (tx_info, azero_contract_error) result \<times> 'w" where
  "send_receive_request L self request_hash committee_id dest_token_address amount
     dest_receiver_address request_nonce w =
     (case map_err Client_Error (encode_message L (mi_transcoder self) ''receive_request''
             (receive_request_args L request_hash committee_id dest_token_address amount
                dest_receiver_address request_nonce)) of
        Ok data \<Rightarrow>
          (case contract_call L (mi_address self) 0
                  \<lparr>ref_time = mi_ref_time_limit self, proof_size = mi_proof_size_limit self\<rparr>
                  data Finalized w of
             (r, w') \<Rightarrow> (map_err Client_Error r, w'))
      | Err e \<Rightarrow> (Err e, w)
      | Panic \<Rightarrow> (Panic, w))"

text \<open>What \<^verbatim>\<open>is_halted\<close> makes of the transcoded answer of the dry run.\<close>

definition decode_is_halted ::
  "('c, 't, 'o, 'raw, 'w) aleph_lib \<Rightarrow> 'o transcoded \<Rightarrow> (bool, azero_contract_error) result" where
  "decode_is_halted L answer =
     (case answer of
        Tuple ident values \<Rightarrow>
          if ident = Some ''Ok'' then
            (case values of [] \<Rightarrow> Panic | v # _ \<Rightarrow> decode_bool_from_tuple (debug_value L) v)
          else if ident = Some ''Err'' then Err (DryRunFailed (debug_values L values))
          else Err (DryRunFailed ''Invalid response'')
      | _ \<Rightarrow> Err (DryRunFailed ''Invalid response''))"

definition most_is_halted ::
  "('c, 't, 'o, 'raw, 'w) aleph_lib \<Rightarrow> ('c, 't) most_instance \<Rightarrow> account_id \<Rightarrow> 'w
    \<Rightarrow> (bool, azero_contract_error) result \<times> 'w" where
  "most_is_halted L self account w =
     (case map_err Client_Error (encode_message L (mi_transcoder self) ''is_halted'' []) of
        Ok data \<Rightarrow>
          (case call_and_get L account (mi_address self) data w of
             (Ok (Ok res), w') \<Rightarrow>
               (try_res (map_err Client_Error (decode_return L (mi_transcoder self) ''is_halted'' res))
                  (decode_is_halted L), w')
           | (Ok (Err why), w') \<Rightarrow> (Err (DryRunFailed why), w')
           | (Ok Panic, w') \<Rightarrow> (Panic, w')
           | (Err why, w') \<Rightarrow> (Err (Client_Error why), w')
           | (Panic, w') \<Rightarrow> (Panic, w'))
      | Err e \<Rightarrow> (Err e, w)
      | Panic \<Rightarrow> (Panic, w))"

fun ok_events :: "('a, 'e) result list \<Rightarrow> 'a list" where
  "ok_events [] = []"
| "ok_events (Ok event # rs) = event # ok_events rs"
| "ok_events (_ # rs) = ok_events rs"

definition filter_events ::
  "('c, 't, 'o, 'raw, 'w) aleph_lib \<Rightarrow> ('c, 't) most_instance \<Rightarrow> 'raw list \<Rightarrow> block_details \<Rightarrow> 'o contract_event list" where
  "filter_events L self events details =
     ok_events (translate_events L (mi_contract self) events details)"

section \<open>Round trip\<close>

definition uint_seq :: "u8 list \<Rightarrow> 'o transcoded" where
  "uint_seq bs = Seq (map (\<lambda>b. UInt (ucast b)) bs)"

lemma ucast_u8_u128: "ucast (ucast b :: u128) = (b :: u8)"
  by (rule bit_word_eqI) (auto simp: bit_simps)

lemma push_uint_seq: "push_bytes field v (map (\<lambda>b. UInt (ucast b)) bs) = Ok (v @ bs)"
  by (induction bs arbitrary: v) (simp_all add: ucast_u8_u128)

lemma push_bytes_Ok:
  "push_bytes field v xs = Ok bs \<longleftrightarrow> (\<exists>us. xs = map UInt us \<and> bs = v @ map ucast us)"
  by (induction field v xs rule: push_bytes.induct) (auto simp: map_eq_Cons_conv Cons_eq_map_conv)

lemma decode_uint_Ok: "decode_uint_field d f = Ok x \<longleftrightarrow> d f = Some (UInt x)"
  by (auto simp: decode_uint_field_def split: option.splits transcoded.splits)

lemma decode_seq_Ok:
  "decode_seq_field d f = Ok a \<longleftrightarrow>
     (\<exists>us. d f = Some (Seq (map UInt us)) \<and> length us = 32 \<and> a = array_of_bytes (map ucast us))"
  by (auto simp: decode_seq_field_def result_elims push_bytes_Ok split: option.splits transcoded.splits)

lemma decode_uint_seq: "d f = Some (uint_seq (array_bytes a)) \<Longrightarrow> decode_seq_field d f = Ok a"
  by (simp add: decode_seq_field_def uint_seq_def push_uint_seq)

text \<open>The fields of a \<^verbatim>\<open>CrosschainTransferRequest\<close> event as the transcoder presents them.\<close>

definition request_fields :: "transfer_request \<Rightarrow> 'o event_data" where
  "request_fields d = [''committee_id'' \<mapsto> UInt (tr_committee_id d),
     ''dest_token_address'' \<mapsto> uint_seq (array_bytes (tr_dest_token_address d)),
     ''amount'' \<mapsto> UInt (tr_amount d),
     ''dest_receiver_address'' \<mapsto> uint_seq (array_bytes (tr_dest_receiver_address d)),
     ''request_nonce'' \<mapsto> UInt (tr_request_nonce d)]"

lemma request_fields_decode: "get_request_event_data (request_fields d) = Ok d"
  by (simp add: get_request_event_data_def request_fields_def decode_uint_field_def decode_uint_seq)

end
