(* ===== verification/Eth_Listener.thy ===== *)
theory Eth_Listener
  imports Polling Contracts_Azero Shared_Hash
begin

text \<open>
  The listener on Ethereum (\<^verbatim>\<open>relayer/src/listeners/eth.rs\<close>): it reads the finalized blocks in
  windows of \<^verbatim>\<open>sync_step\<close>, votes on Aleph Zero for every transfer request found there and then moves
  its cursor in Redis.  The provider library \<^verbatim>\<open>ethers\<close> is a parameter of type \<open>eth_lib\<close>.
\<close>

section \<open>The provider library\<close>

text \<open>
  The events of the Ethereum contract, as the generated bindings decode them; of the events other
  than \<^verbatim>\<open>CrosschainTransferRequest\<close> the listener looks at nothing.
\<close>

datatype eth_most_event =
    CrosschainTransferRequestFilter (ev_committee_id: u256) (ev_dest_token_address: bytes32)
      (ev_amount: u256) (ev_dest_receiver_address: bytes32) (ev_request_nonce: u256)
  | Other_Event

datatype eth_listener_error =
    Eth_Provider string
  | Eth_FromHex string
  | Eth_Contract string
  | Eth_AzeroContract azero_contract_error
  | Eth_AbiEncode string
  | Eth_Redis redis_error

text \<open>
  \<open>get_block_finalized\<close> answers with the finalized block, if there is one, and its number, if it has
  one.  \<open>as_u32\<close> and \<open>as_u128\<close> are the checked narrowing conversions of the big integers.
\<close>

record 'w eth_lib =
  parse_address :: "string \<Rightarrow> (eth_address, string) result"
  get_block_finalized :: "'w \<Rightarrow> (u64 option option, string) result \<times> 'w"
  query_events :: "eth_address \<Rightarrow> u32 \<Rightarrow> u32 \<Rightarrow> 'w \<Rightarrow> (eth_most_event list, string) result \<times> 'w"
  as_u32 :: "u64 \<Rightarrow> u32 option"
  as_u128 :: "u256 \<Rightarrow> u128 option"
  eth_keccak :: "u8 list \<Rightarrow> bytes32"

text \<open>What the conversions promise: the value when it fits, a panic (\<open>None\<close>) when it does not.\<close>

definition narrowing_law :: "'w eth_lib \<Rightarrow> bool" where
  "narrowing_law E \<longleftrightarrow>
     (\<forall>x. as_u32 E x = (if unat x < 2 ^ 32 then Some (ucast x) else None)) \<and>
     (\<forall>x. as_u128 E x = (if unat x < 2 ^ 128 then Some (ucast x) else None))"

fun or_panic :: "'a option \<Rightarrow> ('a, 'e) result" where
  "or_panic (Some a) = Ok a"
| "or_panic None = Panic"

lemma or_panic_Ok [result_elims]: "or_panic x = Ok a \<longleftrightarrow> x = Some a"
  by (cases x) simp_all

section \<open>Waiting for a finalized block\<close>

definition ask_finalized_eth ::
  "'w eth_lib \<Rightarrow> u32 \<Rightarrow> 'w \<Rightarrow> (u32, 'e) result option \<times> 'w" where
  "ask_finalized_eth E not_older_than w =
     (case get_block_finalized E w of
        (Ok (Some number), w') \<Rightarrow>
          (case try_res (or_panic number) (\<lambda>n. or_panic (as_u32 E n)) of
             Ok best_finalized_block_number \<Rightarrow>
               (if best_finalized_block_number \<ge> not_older_than
                then Some (Ok best_finalized_block_number) else None, w')
           | r \<Rightarrow> (Some r, w'))
      | (Ok None, w') \<Rightarrow> (None, w')
      | (Err e, w') \<Rightarrow> (None, w')
      | (Panic, w') \<Rightarrow> (Some Panic, w'))"

definition get_next_finalized_block_number_eth ::
  "'w eth_lib \<Rightarrow> u32 \<Rightarrow> 'w \<Rightarrow> ((u32, 'e) result \<times> 'w) option" where
  "get_next_finalized_block_number_eth E not_older_than = poll (ask_finalized_eth E not_older_than)"

section \<open>Handling one event\<close>

definition eth_request_bytes :: "u128 \<Rightarrow> bytes32 \<Rightarrow> u128 \<Rightarrow> bytes32 \<Rightarrow> u128 \<Rightarrow> u8 list" where
  "eth_request_bytes committee_id dest_token_address amount dest_receiver_address request_nonce =
     concat_u8_arrays [to_le_bytes committee_id, array_bytes dest_token_address, to_le_bytes amount,
       array_bytes dest_receiver_address, to_le_bytes request_nonce]"

definition eth_handle_event ::
  "('c, 't, 'o, 'raw, 'w) aleph_lib \<Rightarrow> 'w eth_lib \<Rightarrow> config \<Rightarrow> eth_most_event \<Rightarrow> 'w
    \<Rightarrow> (unit, eth_listener_error) result \<times> 'w" where
  "eth_handle_event L E cfg event w =
     (case event of
        CrosschainTransferRequestFilter committee dest_token_address amount dest_receiver_address nonce \<Rightarrow>
          (case try_res (or_panic (as_u128 E committee)) (\<lambda>c.
                try_res (or_panic (as_u128 E amount)) (\<lambda>a.
                try_res (or_panic (as_u128 E nonce)) (\<lambda>n.
                try_res (map_err Eth_AzeroContract
                    (most_instance_new L (cfg_azero_contract_address cfg) (cfg_azero_contract_metadata cfg)
                       (cfg_azero_ref_time_limit cfg) (cfg_azero_proof_size_limit cfg))) (\<lambda>contract.
                  Ok (c, a, n, contract))))) of
             Ok (c, a, n, contract) \<Rightarrow>
               let request_hash = eth_keccak E (eth_request_bytes c dest_token_address a dest_receiver_address n) in
               (case send_receive_request L contract request_hash c dest_token_address a
                       dest_receiver_address n w of
                  (r, w') \<Rightarrow> (map_ok (\<lambda>_. ()) (map_err Eth_AzeroContract r), w'))
           | Err e \<Rightarrow> (Err e, w)
           | Panic \<Rightarrow> (Panic, w))
      | Other_Event \<Rightarrow> (Ok (), w))"

section \<open>Handling the events of a window\<close>

definition ask_not_halted ::
  "('c, 't, 'o, 'raw, 'w) aleph_lib \<Rightarrow> ('c, 't) most_instance \<Rightarrow> account_id \<Rightarrow> 'w
    \<Rightarrow> (unit, eth_listener_error) result option \<times> 'w" where
  "ask_not_halted L most_azero account w =
     (case most_is_halted L most_azero account w of
        (Ok halted, w') \<Rightarrow> (if \<not> halted then Some (Ok ()) else None, w')
      | (Err e, w') \<Rightarrow> (Some (Err (Eth_AzeroContract e)), w')
      | (Panic, w') \<Rightarrow> (Some Panic, w'))"

definition wait_until_not_halted ::
  "('c, 't, 'o, 'raw, 'w) aleph_lib \<Rightarrow> ('c, 't) most_instance \<Rightarrow> account_id \<Rightarrow> 'w
    \<Rightarrow> ((unit, eth_listener_error) result \<times> 'w) option" where
  "wait_until_not_halted L most_azero account = poll (ask_not_halted L most_azero account)"

text \<open>The inner \<^verbatim>\<open>loop\<close> of the main loop: retry one event for as long as the bridge is halted.\<close>

partial_function (option) eth_retry_event ::
  "('c, 't, 'o, 'raw, 'w) aleph_lib \<Rightarrow> 'w eth_lib \<Rightarrow> config \<Rightarrow> ('c, 't) most_instance \<Rightarrow> account_id
    \<Rightarrow> eth_most_event \<Rightarrow> 'w \<Rightarrow> ((unit, eth_listener_error) result \<times> 'w) option" where
  "eth_retry_event L E cfg most_azero account event w =
     (case eth_handle_event L E cfg event w of
        (Err (Eth_AzeroContract e), w1) \<Rightarrow>
          (case most_is_halted L most_azero account w1 of
             (Ok halted, w2) \<Rightarrow>
               if halted then
                 (case wait_until_not_halted L most_azero account w2 of
                    Some (Ok _, w3) \<Rightarrow> eth_retry_event L E cfg most_azero account event w3
                  | Some (r, w3) \<Rightarrow> Some (r, w3)
                  | None \<Rightarrow> None)
               else Some (Err (Eth_AzeroContract e), w2)
           | (Err e', w2) \<Rightarrow> Some (Err (Eth_AzeroContract e'), w2)
           | (Panic, w2) \<Rightarrow> Some (Panic, w2))
      | (r, w1) \<Rightarrow> Some (r, w1))"

fun eth_handle_events ::
  "('c, 't, 'o, 'raw, 'w) aleph_lib \<Rightarrow> 'w eth_lib \<Rightarrow> config \<Rightarrow> ('c, 't) most_instance \<Rightarrow> account_id
    \<Rightarrow> eth_most_event list \<Rightarrow> 'w \<Rightarrow> ((unit, eth_listener_error) result \<times> 'w) option" where
  "eth_handle_events L E cfg most_azero account [] w = Some (Ok (), w)"
| "eth_handle_events L E cfg most_azero account (event # events) w =
     (case eth_retry_event L E cfg most_azero account event w of
        Some (Ok _, w') \<Rightarrow> eth_handle_events L E cfg most_azero account events w'
      | Some (r, w') \<Rightarrow> Some (r, w')
      | None \<Rightarrow> None)"

section \<open>The main loop\<close>

text \<open>
  \<open>emergency\<close> reads the shared flag the advisory listener writes.
\<close>

record ('r, 'w) eth_state =
  es_first_unprocessed :: u32
  es_redis :: 'r
  es_world :: 'w

definition eth_round ::
  "('c, 't, 'o, 'raw, 'w) aleph_lib \<Rightarrow> 'w eth_lib \<Rightarrow> 'r redis \<Rightarrow> ('w \<Rightarrow> bool) \<Rightarrow> config \<Rightarrow> eth_address
    \<Rightarrow> ('c, 't) most_instance \<Rightarrow> account_id \<Rightarrow> ('r, 'w) eth_state
    \<Rightarrow> ((unit, eth_listener_error) result \<times> ('r, 'w) eth_state) option" where
  "eth_round L E C emergency cfg address most_azero account st =
     (case get_next_finalized_block_number_eth E (es_first_unprocessed st) (es_world st) of
        None \<Rightarrow> None
      | Some (Ok next_finalized_block_number, w1) \<Rightarrow>
          if emergency w1 then Some (Ok (), st\<lparr>es_world := w1\<rparr>)
          else
            let to_block = window_end next_finalized_block_number (es_first_unprocessed st) (cfg_sync_step cfg) in
            (case query_events E address (es_first_unprocessed st) to_block w1 of
               (Ok events, w2) \<Rightarrow>
                 (case eth_handle_events L E cfg most_azero account events w2 of
                    None \<Rightarrow> None
                  | Some (Ok _, w3) \<Rightarrow>
                      let st' = st\<lparr>es_first_unprocessed := to_block + 1, es_world := w3\<rparr> in
                      (case write_last_processed_block C (cfg_name cfg) ETH_LAST_BLOCK_KEY to_block (es_redis st) of
                         Ok r \<Rightarrow> Some (Ok (), st'\<lparr>es_redis := r\<rparr>)
                       | Err e \<Rightarrow> Some (Err (Eth_Redis e), st')
                       | Panic \<Rightarrow> Some (Panic, st'))
                  | Some (r, w3) \<Rightarrow> Some (r, st\<lparr>es_world := w3\<rparr>))
             | (Err e, w2) \<Rightarrow> Some (Err (Eth_Contract e), st\<lparr>es_world := w2\<rparr>)
             | (Panic, w2) \<Rightarrow> Some (Panic, st\<lparr>es_world := w2\<rparr>))
      | Some (Err e, w1) \<Rightarrow> Some (Err e, st\<lparr>es_world := w1\<rparr>)
      | Some (Panic, w1) \<Rightarrow> Some (Panic, st\<lparr>es_world := w1\<rparr>))"

partial_function (option) eth_loop ::
  "('c, 't, 'o, 'raw, 'w) aleph_lib \<Rightarrow> 'w eth_lib \<Rightarrow> 'r redis \<Rightarrow> ('w \<Rightarrow> bool) \<Rightarrow> config \<Rightarrow> eth_address
    \<Rightarrow> ('c, 't) most_instance \<Rightarrow> account_id \<Rightarrow> ('r, 'w) eth_state
    \<Rightarrow> ((unit, eth_listener_error) result \<times> ('r, 'w) eth_state) option" where
  "eth_loop L E C emergency cfg address most_azero account st =
     (case eth_round L E C emergency cfg address most_azero account st of
        None \<Rightarrow> None
      | Some (Ok _, st') \<Rightarrow> eth_loop L E C emergency cfg address most_azero account st'
      | Some (r, st') \<Rightarrow> Some (r, st'))"

definition eth_listener_setup ::
  "('c, 't, 'o, 'raw, 'w) aleph_lib \<Rightarrow> 'w eth_lib \<Rightarrow> 'r redis \<Rightarrow> config \<Rightarrow> 'r
    \<Rightarrow> (eth_address \<times> ('c, 't) most_instance \<times> u32, eth_listener_error) result" where
  "eth_listener_setup L E C cfg r =
     try_res (map_err Eth_FromHex (parse_address E (cfg_eth_contract_address cfg))) (\<lambda>address.
     try_res (map_err Eth_AzeroContract
         (most_instance_new L (cfg_azero_contract_address cfg) (cfg_azero_contract_metadata cfg)
            (cfg_azero_ref_time_limit cfg) (cfg_azero_proof_size_limit cfg))) (\<lambda>most_azero.
       Ok (address, most_azero,
           read_first_unprocessed_block_number C (cfg_name cfg) ETH_LAST_BLOCK_KEY
             (sync_deref (cfg_default_sync_from_block_eth cfg)) r)))"

definition eth_listener_run ::
  "('c, 't, 'o, 'raw, 'w) aleph_lib \<Rightarrow> 'w eth_lib \<Rightarrow> 'r redis \<Rightarrow> ('w \<Rightarrow> bool) \<Rightarrow> config \<Rightarrow> account_id
    \<Rightarrow> 'r \<Rightarrow> 'w \<Rightarrow> ((unit, eth_listener_error) result \<times> 'r \<times> 'w) option" where
  "eth_listener_run L E C emergency cfg account r w =
     (case eth_listener_setup L E C cfg r of
        Ok (address, most_azero, first) \<Rightarrow>
          map_option (\<lambda>(res, st). (res, es_redis st, es_world st))
            (eth_loop L E C emergency cfg address most_azero account
               \<lparr>es_first_unprocessed = first, es_redis = r, es_world = w\<rparr>)
      | Err e \<Rightarrow> Some (Err e, r, w)
      | Panic \<Rightarrow> Some (Panic, r, w))"

section \<open>What a handled event is\<close>

text \<open>The listener hashes exactly the bytes the contract on Aleph Zero hashes.\<close>

lemma eth_request_bytes_eq: "eth_request_bytes c t a r n = request_data c t a r n"
  by (simp add: eth_request_bytes_def request_data_def concat_u8_arrays_eq)

definition vote_cast ::
  "('c, 't, 'o, 'raw, 'w) aleph_lib \<Rightarrow> 'w eth_lib \<Rightarrow> config \<Rightarrow> eth_most_event \<Rightarrow> bool" where
  "vote_cast L E cfg event \<longleftrightarrow> (\<exists>w w'. eth_handle_event L E cfg event w = (Ok (), w'))"

lemma eth_handle_event_Ok:
  assumes "eth_handle_event L E cfg (CrosschainTransferRequestFilter committee t amount r nonce) w = (Ok (), w')"
  obtains c a n inst info where
    "as_u128 E committee = Some c" "as_u128 E amount = Some a" "as_u128 E nonce = Some n"
    "most_instance_new L (cfg_azero_contract_address cfg) (cfg_azero_contract_metadata cfg)
       (cfg_azero_ref_time_limit cfg) (cfg_azero_proof_size_limit cfg) = Ok inst"
    "send_receive_request L inst (eth_keccak E (request_data c t a r n)) c t a r n w = (Ok info, w')"
  using assms
  by (auto simp: eth_handle_event_def eth_request_bytes_eq result_elims Let_def
      split: result.splits prod.splits)

lemma eth_retry_event_cast:
  "eth_retry_event L E cfg most_azero account event w = Some rw \<Longrightarrow>
     fst rw = Ok () \<longrightarrow> vote_cast L E cfg event"
  by (erule eth_retry_event.raw_induct [rotated])
     (fastforce simp: vote_cast_def split: prod.splits result.splits eth_listener_error.splits
        if_splits option.splits)

lemma eth_retry_event_Ok:
  "eth_retry_event L E cfg most_azero account event w = Some (Ok (), w') \<Longrightarrow> vote_cast L E cfg event"
  by (drule eth_retry_event_cast) simp

lemma eth_handle_events_Ok:
  "eth_handle_events L E cfg most_azero account events w = Some (Ok (), w') \<Longrightarrow>
     list_all (vote_cast L E cfg) events"
proof (induction events arbitrary: w)
  case (Cons event events)
  obtain v where "eth_retry_event L E cfg most_azero account event w = Some (Ok (), v)"
    and "eth_handle_events L E cfg most_azero account events v = Some (Ok (), w')"
    using Cons.prems by (auto split: option.splits prod.splits result.splits)
  with Cons.IH show ?case by (auto dest: eth_retry_event_Ok)
qed simp

lemma eth_handle_events_append:
  "eth_handle_events L E cfg most_azero account (xs @ ys) w = Some (Ok (), w') \<longleftrightarrow>
     (\<exists>v. eth_handle_events L E cfg most_azero account xs w = Some (Ok (), v) \<and>
        eth_handle_events L E cfg most_azero account ys v = Some (Ok (), w'))"
  by (induction xs arbitrary: w) (auto split: option.splits prod.splits result.splits)

section \<open>Runs of the listener\<close>

text \<open>
  What the listener relies on: the finalized head stays below a bound, and the logs of finalized
  blocks are fixed, so that a successful query returns those of the blocks asked for.
\<close>

definition finalized_below :: "'w eth_lib \<Rightarrow> nat \<Rightarrow> bool" where
  "finalized_below E B \<longleftrightarrow>
     (\<forall>w n w' b. get_block_finalized E w = (Ok (Some (Some n)), w') \<longrightarrow> as_u32 E n = Some b \<longrightarrow> unat b < B)"

definition query_law :: "'w eth_lib \<Rightarrow> eth_address \<Rightarrow> (u32 \<Rightarrow> eth_most_event list) \<Rightarrow> bool" where
  "query_law E address logs \<longleftrightarrow>
     (\<forall>a b w evs w'. query_events E address a b w = (Ok evs, w') \<longrightarrow> evs = concat (map logs (block_range a b)))"

lemma next_finalized_eth:
  assumes "get_next_finalized_block_number_eth E first w = Some (Ok fin :: (u32, 'e) result, w')"
    and "finalized_below E B"
  shows "first \<le> fin" and "unat fin < B"
proof -
  obtain v where "ask_finalized_eth E first v = (Some (Ok fin :: (u32, 'e) result), w')"
    using assms(1) unfolding get_next_finalized_block_number_eth_def by (rule poll_answer)
  then obtain n where "get_block_finalized E v = (Ok (Some (Some n)), w')" "as_u32 E n = Some fin" "first \<le> fin"
    by (auto simp: ask_finalized_eth_def result_elims split: prod.splits result.splits option.splits if_splits)
  with assms(2) show "first \<le> fin" "unat fin < B" by (auto simp: finalized_below_def)
qed

text \<open>
  The states between rounds.  In between, the other tasks of the relayer move the world and write
  the other cursor.
\<close>

inductive eth_reaches ::
  "('c, 't, 'o, 'raw, 'w) aleph_lib \<Rightarrow> 'w eth_lib \<Rightarrow> 'r redis \<Rightarrow> ('w \<Rightarrow> bool) \<Rightarrow> config \<Rightarrow> eth_address
    \<Rightarrow> ('c, 't) most_instance \<Rightarrow> account_id \<Rightarrow> ('r, 'w) eth_state \<Rightarrow> ('r, 'w) eth_state \<Rightarrow> bool"
  for L E C emergency cfg address most_azero account st0 where
  start: "eth_reaches L E C emergency cfg address most_azero account st0 st0"
| round: "eth_reaches L E C emergency cfg address most_azero account st0 st \<Longrightarrow>
     eth_round L E C emergency cfg address most_azero account st = Some (Ok (), st') \<Longrightarrow>
     eth_reaches L E C emergency cfg address most_azero account st0 st'"
| others: "eth_reaches L E C emergency cfg address most_azero account st0 st \<Longrightarrow>
     write_last_processed_block C (cfg_name cfg) ALEPH_LAST_BLOCK_KEY n (es_redis st) = Ok r \<Longrightarrow>
     eth_reaches L E C emergency cfg address most_azero account st0 (st\<lparr>es_redis := r, es_world := w\<rparr>)"

text \<open>A round that ends well either paused or finished a whole window and wrote the cursor.\<close>

lemma eth_round_Ok:
  assumes "eth_round L E C emergency cfg address most_azero account st = Some (Ok (), st')"
  obtains (paused) w where "st' = st\<lparr>es_world := w\<rparr>"
  | (window) fin w1 to_block events w2 w3 r where
      "get_next_finalized_block_number_eth E (es_first_unprocessed st) (es_world st) =
         Some (Ok fin :: (u32, eth_listener_error) result, w1)"
      "\<not> emergency w1"
      "to_block = window_end fin (es_first_unprocessed st) (cfg_sync_step cfg)"
      "query_events E address (es_first_unprocessed st) to_block w1 = (Ok events, w2)"
      "eth_handle_events L E cfg most_azero account events w2 = Some (Ok (), w3)"
      "write_last_processed_block C (cfg_name cfg) ETH_LAST_BLOCK_KEY to_block (es_redis st) = Ok r"
      "st' = st\<lparr>es_first_unprocessed := to_block + 1, es_world := w3, es_redis := r\<rparr>"
  using assms unfolding eth_round_def Let_def
  by (auto split: option.splits prod.splits result.splits if_splits)

text \<open>
  A vote of the run: in a round between \<open>st0\<close> and \<open>st\<close> the event was among those the query returned, and in the world
  its predecessors left behind the retry loop cast the vote for it.
\<close>

definition voted_in_round ::
  "('c, 't, 'o, 'raw, 'w) aleph_lib \<Rightarrow> 'w eth_lib \<Rightarrow> config \<Rightarrow> eth_address \<Rightarrow> ('c, 't) most_instance \<Rightarrow> account_id
    \<Rightarrow> eth_most_event \<Rightarrow> ('r, 'w) eth_state \<Rightarrow> ('r, 'w) eth_state \<Rightarrow> bool" where
  "voted_in_round L E cfg address most_azero account event st st' \<longleftrightarrow>
     (\<exists>fin w1 to_block before after w2 v v'.
        get_next_finalized_block_number_eth E (es_first_unprocessed st) (es_world st) =
          Some (Ok fin :: (u32, eth_listener_error) result, w1) \<and>
        query_events E address (es_first_unprocessed st) to_block w1 = (Ok (before @ event # after), w2) \<and>
        eth_handle_events L E cfg most_azero account before w2 = Some (Ok (), v) \<and>
        eth_retry_event L E cfg most_azero account event v = Some (Ok (), v') \<and>
        eth_handle_events L E cfg most_azero account after v' = Some (Ok (), es_world st'))"

definition voted_in_run ::
  "('c, 't, 'o, 'raw, 'w) aleph_lib \<Rightarrow> 'w eth_lib \<Rightarrow> 'r redis \<Rightarrow> ('w \<Rightarrow> bool) \<Rightarrow> config \<Rightarrow> eth_address
    \<Rightarrow> ('c, 't) most_instance \<Rightarrow> account_id \<Rightarrow> ('r, 'w) eth_state \<Rightarrow> ('r, 'w) eth_state \<Rightarrow> eth_most_event \<Rightarrow> bool" where
  "voted_in_run L E C emergency cfg address most_azero account st0 st event \<longleftrightarrow>
     vote_cast L E cfg event \<and>
     (\<exists>st1 st2. eth_reaches L E C emergency cfg address most_azero account st0 st1 \<and>
        eth_round L E C emergency cfg address most_azero account st1 = Some (Ok (), st2) \<and>
        voted_in_round L E cfg address most_azero account event st1 st2 \<and>
        eth_reaches L E C emergency cfg address most_azero account st2 st)"

lemma window_voted:
  assumes "get_next_finalized_block_number_eth E (es_first_unprocessed st) (es_world st) =
         Some (Ok fin :: (u32, eth_listener_error) result, w1)"
    and "query_events E address (es_first_unprocessed st) to_block w1 = (Ok events, w2)"
    and "eth_handle_events L E cfg most_azero account events w2 = Some (Ok (), es_world st')" and "event \<in> set events"
  shows "voted_in_round L E cfg address most_azero account event st st'"
proof -
  obtain before after where events: "events = before @ event # after" using assms(4) by (meson split_list)
  obtain v where "eth_handle_events L E cfg most_azero account before w2 = Some (Ok (), v)"
    and rest: "eth_handle_events L E cfg most_azero account (event # after) v = Some (Ok (), es_world st')"
    using assms(3) [unfolded events eth_handle_events_append] by blast
  moreover obtain v' where "eth_retry_event L E cfg most_azero account event v = Some (Ok (), v')"
    "eth_handle_events L E cfg most_azero account after v' = Some (Ok (), es_world st')"
    using rest by (auto split: option.splits prod.splits result.splits)
  ultimately show ?thesis using assms(1,2) events unfolding voted_in_round_def by blast
qed

definition eth_inv ::
  "('c, 't, 'o, 'raw, 'w) aleph_lib \<Rightarrow> 'w eth_lib \<Rightarrow> 'r redis \<Rightarrow> ('w \<Rightarrow> bool) \<Rightarrow> config \<Rightarrow> eth_address
    \<Rightarrow> ('c, 't) most_instance \<Rightarrow> account_id \<Rightarrow> (u32 \<Rightarrow> eth_most_event list) \<Rightarrow> nat
    \<Rightarrow> ('r, 'w) eth_state \<Rightarrow> ('r, 'w) eth_state \<Rightarrow> bool" where
  "eth_inv L E C emergency cfg address most_azero account logs B st0 st \<longleftrightarrow>
     unat (es_first_unprocessed st0) \<le> unat (es_first_unprocessed st) \<and> unat (es_first_unprocessed st) \<le> B \<and>
     (\<forall>b. es_first_unprocessed st0 \<le> b \<and> b < es_first_unprocessed st \<longrightarrow>
        list_all (voted_in_run L E C emergency cfg address most_azero account st0 st) (logs b)) \<and>
     (\<forall>x. redis_get C (redis_key (cfg_name cfg) ETH_LAST_BLOCK_KEY) (es_redis st) = Ok x \<longrightarrow>
        redis_get C (redis_key (cfg_name cfg) ETH_LAST_BLOCK_KEY) (es_redis st0) = Ok x \<or> x + 1 = es_first_unprocessed st)"

lemma voted_in_run_round:
  assumes "eth_round L E C emergency cfg address most_azero account st = Some (Ok (), st')"
    and "voted_in_run L E C emergency cfg address most_azero account st0 st event"
  shows "voted_in_run L E C emergency cfg address most_azero account st0 st' event"
  using assms(2) eth_reaches.round [OF _ assms(1)] unfolding voted_in_run_def by blast

lemma eth_round_inv:
  assumes laws: "redis_law C" "query_law E address logs" "finalized_below E B" "window_room B (cfg_sync_step cfg)"
    and first0: "1 \<le> unat (es_first_unprocessed st0)"
    and run: "eth_reaches L E C emergency cfg address most_azero account st0 st"
    and inv: "eth_inv L E C emergency cfg address most_azero account logs B st0 st"
    and step: "eth_round L E C emergency cfg address most_azero account st = Some (Ok (), st')"
  shows "eth_inv L E C emergency cfg address most_azero account logs B st0 st'"
proof -
  let ?voted = "\<lambda>st. voted_in_run L E C emergency cfg address most_azero account st0 st"
  have kept: "list_all (?voted st') (logs b)" if "es_first_unprocessed st0 \<le> b" "b < es_first_unprocessed st" for b
    using that inv voted_in_run_round [OF step] by (simp add: eth_inv_def list_all_iff)
  show ?thesis
    using step
  proof (cases rule: eth_round_Ok)
    case (paused w)
    with inv kept show ?thesis by (simp add: eth_inv_def)
  next
    case (window fin w1 to_block events w2 w3 r)
    let ?first = "es_first_unprocessed st"
    have fin: "?first \<le> fin" "unat fin < B"
      using next_finalized_eth [OF window(1) laws(3)] .
    have first: "1 \<le> unat ?first" "unat ?first \<le> B"
      using inv first0 by (auto simp: eth_inv_def)
    have bounds: "unat ?first \<le> unat to_block + 1" "unat to_block < B"
      using window_end_bounds [OF laws(4) first fin] by (simp_all add: window(3))
    have succ: "unat (to_block + 1) = unat to_block + 1"
      using bounds laws(4) by (intro unat_succ_small) (simp add: window_room_def)
    have "eth_handle_events L E cfg most_azero account events w2 = Some (Ok (), es_world st')"
      using window(5,7) by simp
    from window_voted [OF window(1,4) this] eth_handle_events_Ok [OF window(5)]
    have here: "?voted st' event" if "event \<in> set events" for event
      using that run step eth_reaches.start unfolding voted_in_run_def list_all_iff by blast
    have votes: "list_all (?voted st') (logs b)" if "es_first_unprocessed st0 \<le> b" "b < to_block + 1" for b
    proof (cases "b < ?first")
      case False
      then have "b \<in> {?first..to_block}" using that succ by (auto simp: word_le_nat_alt word_less_nat_alt)
      moreover have "events = concat (map logs (block_range ?first to_block))"
        using laws(2) window(4) unfolding query_law_def by blast
      ultimately have "set (logs b) \<subseteq> set events" by auto
      with here show ?thesis by (auto simp: list_all_iff)
    qed (use kept that in blast)
    have cursor: "x = to_block"
      if "redis_get C (redis_key (cfg_name cfg) ETH_LAST_BLOCK_KEY) r = Ok x" for x
      using cursor_written [OF laws(1) window(6) that] .
    have st': "es_first_unprocessed st' = to_block + 1" "es_redis st' = r" using window(7) by simp_all
    show ?thesis
      using bounds succ votes cursor inv unfolding eth_inv_def st' by auto
  qed
qed

lemma eth_reaches_inv:
  assumes laws: "redis_law C" "query_law E address logs" "finalized_below E B" "window_room B (cfg_sync_step cfg)"
    and start: "1 \<le> unat (es_first_unprocessed st0)" "unat (es_first_unprocessed st0) \<le> B"
    and run: "eth_reaches L E C emergency cfg address most_azero account st0 st"
  shows "eth_inv L E C emergency cfg address most_azero account logs B st0 st"
  using run
proof induction
  case start
  then show ?case using assms(6) by (auto simp: eth_inv_def word_le_nat_alt word_less_nat_alt)
next
  case (round st st')
  then show ?case using eth_round_inv [OF laws assms(5)] by blast
next
  case (others st n r w)
  have "redis_get C (redis_key (cfg_name cfg) ETH_LAST_BLOCK_KEY) r =
        redis_get C (redis_key (cfg_name cfg) ETH_LAST_BLOCK_KEY) (es_redis st)"
    using other_cursor_kept [OF laws(1) others(2)] cursor_keys_differ by metis
  moreover have "voted_in_run L E C emergency cfg address most_azero account st0 (st\<lparr>es_redis := r, es_world := w\<rparr>) event"
    if "voted_in_run L E C emergency cfg address most_azero account st0 st event" for event
    using that eth_reaches.others [OF _ others(2)] unfolding voted_in_run_def by blast
  ultimately show ?case using others(3) by (simp add: eth_inv_def list_all_iff)
qed

section \<open>The cursor of the listener\<close>

text \<open>A run from the block the cursor gives, against a node and a store that keep their promises.\<close>

definition eth_lawful_run ::
  "('c, 't, 'o, 'raw, 'w) aleph_lib \<Rightarrow> 'w eth_lib \<Rightarrow> 'r redis \<Rightarrow> ('w \<Rightarrow> bool) \<Rightarrow> config \<Rightarrow> eth_address
    \<Rightarrow> ('c, 't) most_instance \<Rightarrow> account_id \<Rightarrow> (u32 \<Rightarrow> eth_most_event list) \<Rightarrow> nat \<Rightarrow> u32
    \<Rightarrow> ('r, 'w) eth_state \<Rightarrow> ('r, 'w) eth_state \<Rightarrow> bool" where
  "eth_lawful_run L E C emergency cfg address most_azero account logs B default_block st0 st \<longleftrightarrow>
     redis_law C \<and> query_law E address logs \<and> finalized_below E B \<and> window_room B (cfg_sync_step cfg) \<and>
     1 \<le> unat (es_first_unprocessed st0) \<and> unat (es_first_unprocessed st0) \<le> B \<and>
     es_first_unprocessed st0 =
       read_first_unprocessed_block_number C (cfg_name cfg) ETH_LAST_BLOCK_KEY default_block (es_redis st0) \<and>
     eth_reaches L E C emergency cfg address most_azero account st0 st"

interpretation eth_cursor: block_cursor C "cfg_name cfg" ETH_LAST_BLOCK_KEY default_block es_redis
  "eth_lawful_run L E C emergency cfg address most_azero account logs B default_block"
  "\<lambda>st0 st b. list_all (voted_in_run L E C emergency cfg address most_azero account st0 st) (logs b)"
  for C cfg default_block L E emergency address most_azero account logs B
proof
  fix st0 st x
  assume run: "eth_lawful_run L E C emergency cfg address most_azero account logs B default_block st0 st"
    and cursor: "redis_get C (redis_key (cfg_name cfg) ETH_LAST_BLOCK_KEY) (es_redis st) = Ok x"
  have "eth_inv L E C emergency cfg address most_azero account logs B st0 st"
    using run unfolding eth_lawful_run_def by (blast intro: eth_reaches_inv)
  with cursor run
  show "redis_get C (redis_key (cfg_name cfg) ETH_LAST_BLOCK_KEY) (es_redis st0) = Ok x \<or>
      (\<forall>b. read_first_unprocessed_block_number C (cfg_name cfg) ETH_LAST_BLOCK_KEY default_block (es_redis st0) \<le> b \<longrightarrow>
        b < x + 1 \<longrightarrow> list_all (voted_in_run L E C emergency cfg address most_azero account st0 st) (logs b))"
    by (auto simp: eth_inv_def eth_lawful_run_def)
qed

end
