(* ===== verification/Azero_Listener.thy ===== *)
theory Azero_Listener
  imports Eth_Listener "HOL-Library.Multiset"
begin

text \<open>
  The listener on Aleph Zero (\<^verbatim>\<open>relayer/src/listeners/azero.rs\<close>).  It walks the finalized blocks in
  windows, starts one task per event, which votes on Ethereum, and one sealing task per block, which
  waits for the events of the block and then moves the Redis cursor up to the oldest block that is
  still pending.  Tasks run concurrently with the main loop: \<open>azero_step\<close> is the step relation of
  their interleavings.
\<close>

section \<open>Errors and the provider library\<close>

datatype azero_listener_error =
    Az_AlephClient string
  | Az_FromHex string
  | Az_Subxt string
  | Az_Provider string
  | Az_AzeroContract azero_contract_error
  | Az_EthContractTx string
  | Az_BlockNotFound
  | Az_TxNotPresentInBlockOrMempool
  | Az_MissingEventData string
  | Az_BridgeHaltedRestartRequired
  | Az_Redis redis_error
  | Az_Join
  | Az_Semaphore
  | Az_EthContractReverted

definition ALEPH_MAX_REQUESTS_PER_BLOCK :: nat where
  "ALEPH_MAX_REQUESTS_PER_BLOCK = 50"

datatype abi_token = Uint_Token u256 | FixedBytes_Token "u8 list"

record receipt =
  transaction_hash :: bytes32
  status :: "u64 option"

text \<open>The call \<^verbatim>\<open>most.receive_request(..)\<close> with the gas limit and the nonce it is sent with.\<close>

record eth_call =
  call_to :: eth_address
  call_request_hash :: bytes32
  call_committee_id :: u256
  call_dest_token_address :: bytes32
  call_amount :: u256
  call_dest_receiver_address :: bytes32
  call_request_nonce :: u256
  call_gas :: u32
  call_nonce :: u256

text \<open>
  The signed connection: the nonce manager, sending a transaction, waiting for its confirmations,
  looking a transaction up (with the number of its block, once it is in one) and reading
  \<^verbatim>\<open>paused()\<close>; and the block queries of the Aleph Zero client.
\<close>

record ('p, 'w) eth_signed_lib =
  next_nonce :: "'w \<Rightarrow> u256 \<times> 'w"
  send_tx :: "eth_call \<Rightarrow> 'w \<Rightarrow> ('p, string) result \<times> 'w"
  await_confirmations :: "'p \<Rightarrow> u64 \<Rightarrow> u64 \<Rightarrow> 'w \<Rightarrow> (receipt option, string) result \<times> 'w"
  get_transaction :: "bytes32 \<Rightarrow> 'w \<Rightarrow> (u64 option option, string) result \<times> 'w"
  paused_call :: "eth_address \<Rightarrow> 'w \<Rightarrow> (bool, string) result \<times> 'w"
  abi_encode :: "abi_token list \<Rightarrow> u8 list"

record ('raw, 'w) azero_node =
  get_finalized_block_hash :: "'w \<Rightarrow> (bytes32, string) result \<times> 'w"
  get_block_number :: "bytes32 \<Rightarrow> 'w \<Rightarrow> (u32 option, string) result \<times> 'w"
  get_block_hash :: "u32 \<Rightarrow> 'w \<Rightarrow> (bytes32 option, string) result \<times> 'w"
  events_at :: "bytes32 \<Rightarrow> 'w \<Rightarrow> ('raw list, string) result \<times> 'w"

section \<open>Waiting loops\<close>

definition ask_tx_finality ::
  "'w eth_lib \<Rightarrow> ('p, 'w) eth_signed_lib \<Rightarrow> bytes32 \<Rightarrow> 'w
    \<Rightarrow> ((unit, azero_listener_error) result option \<times> 'w) option" where
  "ask_tx_finality E S tx_hash w =
     (case get_next_finalized_block_number_eth E 0 w of
        None \<Rightarrow> None
      | Some (Ok finalized_head_number, w1) \<Rightarrow>
          (case get_transaction S tx_hash w1 of
             (Ok (Some (Some tx_block)), w2) \<Rightarrow>
               Some (if tx_block \<le> ucast finalized_head_number then Some (Ok ()) else None, w2)
           | (Ok (Some None), w2) \<Rightarrow> Some (None, w2)
           | (Err err, w2) \<Rightarrow> Some (None, w2)
           | (Ok None, w2) \<Rightarrow> Some (Some Panic, w2)
           | (Panic, w2) \<Rightarrow> Some (Some Panic, w2))
      | Some (Err e, w1) \<Rightarrow> Some (Some (Err e), w1)
      | Some (Panic, w1) \<Rightarrow> Some (Some Panic, w1))"

partial_function (option) wait_for_eth_tx_finality ::
  "'w eth_lib \<Rightarrow> ('p, 'w) eth_signed_lib \<Rightarrow> bytes32 \<Rightarrow> 'w
    \<Rightarrow> ((unit, azero_listener_error) result \<times> 'w) option" where
  "wait_for_eth_tx_finality E S tx_hash w =
     (case ask_tx_finality E S tx_hash w of
        None \<Rightarrow> None
      | Some (Some r, w') \<Rightarrow> Some (r, w')
      | Some (None, w') \<Rightarrow> wait_for_eth_tx_finality E S tx_hash w')"

definition ask_unpaused ::
  "('p, 'w) eth_signed_lib \<Rightarrow> eth_address \<Rightarrow> 'w \<Rightarrow> (unit, azero_listener_error) result option \<times> 'w" where
  "ask_unpaused S most_eth w =
     (case paused_call S most_eth w of
        (Ok paused, w') \<Rightarrow> (if \<not> paused then Some (Ok ()) else None, w')
      | (Err e, w') \<Rightarrow> (Some (Err (Az_EthContractTx e)), w')
      | (Panic, w') \<Rightarrow> (Some Panic, w'))"

definition wait_until_unpaused ::
  "('p, 'w) eth_signed_lib \<Rightarrow> eth_address \<Rightarrow> 'w \<Rightarrow> ((unit, azero_listener_error) result \<times> 'w) option" where
  "wait_until_unpaused S most_eth = poll (ask_unpaused S most_eth)"

definition ask_finalized_azero ::
  "('raw, 'w) azero_node \<Rightarrow> u32 \<Rightarrow> 'w \<Rightarrow> (u32, azero_listener_error) result option \<times> 'w" where
  "ask_finalized_azero N not_older_than w =
     (case get_finalized_block_hash N w of
        (Ok hash, w1) \<Rightarrow>
          (case get_block_number N hash w1 of
             (Ok (Some best_finalized_block_number), w2) \<Rightarrow>
               (if best_finalized_block_number \<ge> not_older_than
                then Some (Ok best_finalized_block_number) else None, w2)
           | (Ok None, w2) \<Rightarrow> (Some Panic, w2)
           | (Err err, w2) \<Rightarrow> (None, w2)
           | (Panic, w2) \<Rightarrow> (Some Panic, w2))
      | (Err err, w1) \<Rightarrow> (None, w1)
      | (Panic, w1) \<Rightarrow> (Some Panic, w1))"

definition get_next_finalized_block_number_azero ::
  "('raw, 'w) azero_node \<Rightarrow> u32 \<Rightarrow> 'w \<Rightarrow> ((u32, azero_listener_error) result \<times> 'w) option" where
  "get_next_finalized_block_number_azero N not_older_than = poll (ask_finalized_azero N not_older_than)"

section \<open>Handling one event\<close>

definition azero_request_bytes :: "('p, 'w) eth_signed_lib \<Rightarrow> transfer_request \<Rightarrow> u8 list" where
  "azero_request_bytes S d =
     abi_encode S
       [Uint_Token (ucast (tr_committee_id d)), FixedBytes_Token (array_bytes (tr_dest_token_address d)),
        Uint_Token (ucast (tr_amount d)), FixedBytes_Token (array_bytes (tr_dest_receiver_address d)),
        Uint_Token (ucast (tr_request_nonce d))]"

definition azero_vote_call ::
  "'w eth_lib \<Rightarrow> ('p, 'w) eth_signed_lib \<Rightarrow> config \<Rightarrow> eth_address \<Rightarrow> transfer_request \<Rightarrow> u256 \<Rightarrow> eth_call" where
  "azero_vote_call E S cfg address d nonce =
     \<lparr>call_to = address, call_request_hash = eth_keccak E (azero_request_bytes S d),
      call_committee_id = ucast (tr_committee_id d), call_dest_token_address = tr_dest_token_address d,
      call_amount = ucast (tr_amount d), call_dest_receiver_address = tr_dest_receiver_address d,
      call_request_nonce = ucast (tr_request_nonce d), call_gas = cfg_eth_gas_limit cfg,
      call_nonce = nonce\<rparr>"

definition azero_handle_event ::
  "'w eth_lib \<Rightarrow> ('p, 'w) eth_signed_lib \<Rightarrow> config \<Rightarrow> 'o contract_event \<Rightarrow> 'w
    \<Rightarrow> ((unit, azero_listener_error) result \<times> 'w) option" where
  "azero_handle_event E S cfg event w =
     (if event_name event = Some ''CrosschainTransferRequest'' then
        case try_res (map_err Az_AzeroContract (get_request_event_data (event_data event))) (\<lambda>d.
             try_res (map_err Az_FromHex (parse_address E (cfg_eth_contract_address cfg))) (\<lambda>address.
               Ok (d, address))) of
          Ok (d, address) \<Rightarrow>
            (case next_nonce S w of (nonce, w1) \<Rightarrow>
             case send_tx S (azero_vote_call E S cfg address d nonce) w1 of
               (Ok pending_tx, w2) \<Rightarrow>
                 (case await_confirmations S pending_tx (cfg_eth_tx_min_confirmations cfg)
                         (cfg_eth_tx_submission_retries cfg) w2 of
                    (Ok (Some receipt), w3) \<Rightarrow>
                      if status receipt = Some 0 then Some (Err Az_EthContractReverted, w3)
                      else wait_for_eth_tx_finality E S (transaction_hash receipt) w3
                  | (Ok None, w3) \<Rightarrow> Some (Err Az_TxNotPresentInBlockOrMempool, w3)
                  | (Err e, w3) \<Rightarrow> Some (Err (Az_Provider e), w3)
                  | (Panic, w3) \<Rightarrow> Some (Panic, w3))
             | (Err e, w2) \<Rightarrow> Some (Err (Az_EthContractTx e), w2)
             | (Panic, w2) \<Rightarrow> Some (Panic, w2))
        | Err e \<Rightarrow> Some (Err e, w)
        | Panic \<Rightarrow> Some (Panic, w)
      else Some (Ok (), w))"

section \<open>Pending blocks and sealing\<close>

definition add_to_pending :: "u32 \<Rightarrow> u32 set \<Rightarrow> u32 set" where
  "add_to_pending n pending = insert n pending"

text \<open>
  The results of the event tasks in the order in which they finish; a task that panicked is a join
  error.
\<close>

fun join_event_tasks :: "(unit, azero_listener_error) result list \<Rightarrow> (unit, azero_listener_error) result" where
  "join_event_tasks [] = Ok ()"
| "join_event_tasks (Ok _ # rs) = join_event_tasks rs"
| "join_event_tasks (Err e # rs) = Err e"
| "join_event_tasks (Panic # rs) = Err Az_Join"

definition seal_processed_block ::
  "'r redis \<Rightarrow> config \<Rightarrow> u32 \<Rightarrow> (unit, azero_listener_error) result list \<Rightarrow> u32 set \<Rightarrow> 'r
    \<Rightarrow> (unit, azero_listener_error) result \<times> u32 set \<times> 'r" where
  "seal_processed_block C cfg n event_tasks pending r =
     (case join_event_tasks event_tasks of
        Ok _ \<Rightarrow>
          let pending' = pending - {n} in
          if pending' = {} then (Panic, pending', r)
          else
            (case write_last_processed_block C (cfg_name cfg) ALEPH_LAST_BLOCK_KEY (Min pending' - 1) r of
               Ok r' \<Rightarrow> (Ok (), pending', r')
             | Err e \<Rightarrow> (Err (Az_Redis e), pending', r)
             | Panic \<Rightarrow> (Panic, pending', r))
      | Err e \<Rightarrow> (Err e, pending, r)
      | Panic \<Rightarrow> (Panic, pending, r))"

text \<open>
  The loop of \<^verbatim>\<open>handle_events\<close>: a task is added to the set of the block, which panics as soon as it has
  fifty of them.
\<close>

definition start_event_task :: "'e list \<Rightarrow> 'e \<Rightarrow> ('e list, azero_listener_error) result" where
  "start_event_task event_tasks event =
     (let event_tasks = event_tasks @ [event] in
      if length event_tasks \<ge> ALEPH_MAX_REQUESTS_PER_BLOCK then Panic else Ok event_tasks)"

section \<open>Fetching the events of a window\<close>

definition fetch_block ::
  "('raw, 'w) azero_node \<Rightarrow> u32 \<Rightarrow> 'w \<Rightarrow> (block_details \<times> 'raw list, azero_listener_error) result \<times> 'w" where
  "fetch_block N n w =
     (case get_block_hash N n w of
        (Ok (Some hash), w1) \<Rightarrow>
          (case events_at N hash w1 of
             (r, w2) \<Rightarrow> (map_ok (\<lambda>events. (\<lparr>block_number = n, block_hash = hash\<rparr>, events)) (map_err Az_Subxt r), w2))
      | (Ok None, w1) \<Rightarrow> (Err Az_BlockNotFound, w1)
      | (Err e, w1) \<Rightarrow> (Err (Az_AlephClient e), w1)
      | (Panic, w1) \<Rightarrow> (Panic, w1))"

text \<open>The results of the fetching tasks, in the order in which they finish.\<close>

fun join_fetching_tasks :: "('a, azero_listener_error) result list \<Rightarrow> ('a list, azero_listener_error) result" where
  "join_fetching_tasks [] = Ok []"
| "join_fetching_tasks (Ok a # rs) = map_ok ((#) a) (join_fetching_tasks rs)"
| "join_fetching_tasks (Err e # rs) = Err e"
| "join_fetching_tasks (Panic # rs) = Err Az_Join"

text \<open>
  \<open>finished_as xs task ok rs\<close>: tasks of \<open>xs\<close> were joined with results \<open>rs\<close>, in the order in which they
  finished; joining stops early only at a failure, and the remaining tasks are dropped.
\<close>

definition finished_as :: "'x list \<Rightarrow> ('x \<Rightarrow> 'a \<Rightarrow> bool) \<Rightarrow> ('a list \<Rightarrow> bool) \<Rightarrow> 'a list \<Rightarrow> bool" where
  "finished_as xs task ok rs \<longleftrightarrow>
     (\<exists>ys. mset ys \<subseteq># mset xs \<and> list_all2 task ys rs \<and> (length rs < length xs \<longrightarrow> \<not> ok rs))"

definition fetch_events_in_block_range ::
  "('raw, 'w) azero_node \<Rightarrow> u32 \<Rightarrow> u32 \<Rightarrow> ((block_details \<times> 'raw list) list, azero_listener_error) result \<Rightarrow> bool" where
  "fetch_events_in_block_range N from to res \<longleftrightarrow>
     (\<exists>rs. finished_as (block_range from to) (\<lambda>n r. \<exists>w w'. fetch_block N n w = (r, w'))
             (\<lambda>rs. is_ok (join_fetching_tasks rs)) rs \<and>
           res = join_fetching_tasks rs)"

section \<open>The step relation\<close>

text \<open>
  The program counter of the main loop: waiting for a finalized block; adding the blocks of the
  window to the pending set; fetching; going through the blocks; in \<^verbatim>\<open>handle_events\<close> for a block, with the
  events whose task is started and those still to start; looking at finished sealing tasks; waiting
  for the remaining ones after an error; and returned.
\<close>

datatype ('raw, 'o) azero_pc =
    Waiting
  | Adding "u32 list" u32
  | Fetching u32
  | Spawning "(block_details \<times> 'raw list) list" u32
  | Handling u32 "'o contract_event list" "'o contract_event list" "(block_details \<times> 'raw list) list" u32
  | Joining u32
  | Draining azero_listener_error
  | Returned "(unit, azero_listener_error) result"

text \<open>
  Every call of \<^verbatim>\<open>handle_events\<close> makes a set of event tasks, which gets a fresh number (\<open>az_next\<close> is the
  next one).  \<open>az_permits\<close> is the semaphore, \<open>az_running\<close> the event tasks that run and \<open>az_done\<close> the
  finished ones, in the order in which they finished; \<open>az_tasks\<close> are the sealing tasks that run, with
  their set of event tasks, the block and its events, and \<open>az_finished\<close> the results the main loop has
  not looked at yet.  \<open>az_sealed\<close> is a history variable, the blocks all of whose event tasks succeeded.
\<close>

record ('r, 'raw, 'o) azero_state =
  az_first :: u32
  az_pending :: "u32 set"
  az_redis :: 'r
  az_permits :: nat
  az_next :: nat
  az_running :: "(nat \<times> 'o contract_event) list"
  az_done :: "(nat \<times> 'o contract_event \<times> (unit, azero_listener_error) result) list"
  az_tasks :: "(nat \<times> u32 \<times> 'o contract_event list) list"
  az_finished :: "(unit, azero_listener_error) result list"
  az_pc :: "('raw, 'o) azero_pc"
  az_sealed :: "u32 set"

definition azero_first_block :: "'r redis \<Rightarrow> config \<Rightarrow> 'r \<Rightarrow> u32" where
  "azero_first_block C cfg r =
     read_first_unprocessed_block_number C (cfg_name cfg) ALEPH_LAST_BLOCK_KEY
       (sync_deref (cfg_default_sync_from_block_azero cfg)) r"

definition azero_start :: "'r redis \<Rightarrow> config \<Rightarrow> 'r \<Rightarrow> ('r, 'raw, 'o) azero_state" where
  "azero_start C cfg r =
     (let first = azero_first_block C cfg r in
      \<lparr>az_first = first, az_pending = add_to_pending first {}, az_redis = r,
       az_permits = unat (cfg_azero_max_event_handler_tasks cfg), az_next = 0, az_running = [], az_done = [],
       az_tasks = [], az_finished = [], az_pc = Waiting, az_sealed = {}\<rparr>)"

definition azero_listener_setup ::
  "('c, 't, 'o, 'raw, 'w) aleph_lib \<Rightarrow> 'w eth_lib \<Rightarrow> 'r redis \<Rightarrow> config \<Rightarrow> 'r
    \<Rightarrow> (('c, 't) most_instance \<times> eth_address \<times> ('r, 'raw, 'o) azero_state, azero_listener_error) result" where
  "azero_listener_setup L E C cfg r =
     try_res (map_err Az_AzeroContract
         (most_instance_new L (cfg_azero_contract_address cfg) (cfg_azero_contract_metadata cfg)
            (cfg_azero_ref_time_limit cfg) (cfg_azero_proof_size_limit cfg))) (\<lambda>most_azero.
     try_res (map_err Az_FromHex (parse_address E (cfg_eth_contract_address cfg))) (\<lambda>most_eth.
       Ok (most_azero, most_eth, azero_start C cfg r)))"

text \<open>What the main loop returns once the remaining tasks have finished after the error \<open>err\<close>.\<close>

definition azero_after_error ::
  "('p, 'w) eth_signed_lib \<Rightarrow> eth_address \<Rightarrow> azero_listener_error \<Rightarrow> 'w
    \<Rightarrow> ((unit, azero_listener_error) result \<times> 'w) option" where
  "azero_after_error S most_eth err w =
     (if err = Az_EthContractReverted then
        case paused_call S most_eth w of
          (Ok paused, w1) \<Rightarrow>
            if paused then
              (case wait_until_unpaused S most_eth w1 of
                 Some (Ok _, w2) \<Rightarrow> Some (Err Az_BridgeHaltedRestartRequired, w2)
               | r \<Rightarrow> r)
            else Some (Err err, w1)
        | (Err e, w1) \<Rightarrow> Some (Err (Az_EthContractTx e), w1)
        | (Panic, w1) \<Rightarrow> Some (Panic, w1)
      else Some (Err err, w))"

definition returned :: "('r, 'raw, 'o) azero_state \<Rightarrow> (unit, azero_listener_error) result \<Rightarrow> ('r, 'raw, 'o) azero_state" where
  "returned st res = st\<lparr>az_pc := Returned res, az_tasks := [], az_running := []\<rparr>"

text \<open>What a sealing task has seen of its event tasks: their results, and whether one still runs.\<close>

definition results_of :: "nat \<Rightarrow> ('r, 'raw, 'o) azero_state \<Rightarrow> (unit, azero_listener_error) result list" where
  "results_of i st = map (snd \<circ> snd) (filter (\<lambda>d. fst d = i) (az_done st))"

definition events_running :: "nat \<Rightarrow> ('r, 'raw, 'o) azero_state \<Rightarrow> 'o contract_event list" where
  "events_running i st = map snd (filter (\<lambda>t. fst t = i) (az_running st))"

text \<open>Dropping a set of event tasks aborts those that run, and each gives its permit back.\<close>

definition drop_event_tasks :: "nat \<Rightarrow> ('r, 'raw, 'o) azero_state \<Rightarrow> ('r, 'raw, 'o) azero_state" where
  "drop_event_tasks i st =
     st\<lparr>az_running := filter (\<lambda>t. fst t \<noteq> i) (az_running st),
        az_permits := az_permits st + length (events_running i st)\<rparr>"

inductive azero_step ::
  "('c, 't, 'o, 'raw, 'w) aleph_lib \<Rightarrow> 'w eth_lib \<Rightarrow> ('p, 'w) eth_signed_lib \<Rightarrow> 'r redis \<Rightarrow> ('raw, 'w) azero_node
    \<Rightarrow> ('w \<Rightarrow> bool) \<Rightarrow> config \<Rightarrow> ('c, 't) most_instance \<Rightarrow> eth_address
    \<Rightarrow> ('r, 'raw, 'o) azero_state \<Rightarrow> ('r, 'raw, 'o) azero_state \<Rightarrow> bool"
  for L E S C N emergency cfg most_azero most_eth where
  window: "az_pc st = Waiting \<Longrightarrow>
     get_next_finalized_block_number_azero N (az_first st) w = Some (Ok fin, w') \<Longrightarrow>
     \<not> emergency w' \<Longrightarrow> to_block = window_end fin (az_first st) (cfg_sync_step cfg) \<Longrightarrow>
     azero_step L E S C N emergency cfg most_azero most_eth st
       (st\<lparr>az_pc := Adding (block_range (az_first st) to_block) to_block\<rparr>)"
| paused: "az_pc st = Waiting \<Longrightarrow>
     get_next_finalized_block_number_azero N (az_first st) w = Some (Ok fin, w') \<Longrightarrow> emergency w' \<Longrightarrow>
     azero_step L E S C N emergency cfg most_azero most_eth st st"
| no_number: "az_pc st = Waiting \<Longrightarrow>
     get_next_finalized_block_number_azero N (az_first st) w = Some (Panic, w') \<Longrightarrow>
     azero_step L E S C N emergency cfg most_azero most_eth st (returned st Panic)"
| add: "az_pc st = Adding (n # ns) to_block \<Longrightarrow>
     azero_step L E S C N emergency cfg most_azero most_eth st
       (st\<lparr>az_pending := add_to_pending (n + 1) (az_pending st), az_pc := Adding ns to_block\<rparr>)"
| added: "az_pc st = Adding [] to_block \<Longrightarrow>
     azero_step L E S C N emergency cfg most_azero most_eth st (st\<lparr>az_pc := Fetching to_block\<rparr>)"
| fetched: "az_pc st = Fetching to_block \<Longrightarrow>
     fetch_events_in_block_range N (az_first st) to_block (Ok block_events) \<Longrightarrow>
     azero_step L E S C N emergency cfg most_azero most_eth st (st\<lparr>az_pc := Spawning block_events to_block\<rparr>)"
| fetch_error: "az_pc st = Fetching to_block \<Longrightarrow>
     fetch_events_in_block_range N (az_first st) to_block (Err e) \<Longrightarrow>
     azero_step L E S C N emergency cfg most_azero most_eth st (returned st (Err e))"
| handle: "az_pc st = Spawning ((details, events) # rest) to_block \<Longrightarrow>
     azero_step L E S C N emergency cfg most_azero most_eth st
       (st\<lparr>az_pc := Handling (block_number details) [] (filter_events L most_azero events details) rest to_block\<rparr>)"
| start_event: "az_pc st = Handling n started (event # events) rest to_block \<Longrightarrow> az_permits st = Suc permits \<Longrightarrow>
     start_event_task started event = Ok started' \<Longrightarrow>
     azero_step L E S C N emergency cfg most_azero most_eth st
       (st\<lparr>az_permits := permits, az_running := az_running st @ [(az_next st, event)],
           az_pc := Handling n started' events rest to_block\<rparr>)"
| too_many: "az_pc st = Handling n started (event # events) rest to_block \<Longrightarrow> az_permits st = Suc permits \<Longrightarrow>
     start_event_task started event = Panic \<Longrightarrow>
     azero_step L E S C N emergency cfg most_azero most_eth st (returned st Panic)"
| spawn: "az_pc st = Handling n started [] rest to_block \<Longrightarrow>
     azero_step L E S C N emergency cfg most_azero most_eth st
       (st\<lparr>az_tasks := az_tasks st @ [(az_next st, n, started)], az_next := Suc (az_next st),
           az_pc := Spawning rest to_block\<rparr>)"
| event_done: "az_running st = before @ (i, event) # after \<Longrightarrow>
     azero_handle_event E S cfg event w = Some (r, w') \<Longrightarrow>
     azero_step L E S C N emergency cfg most_azero most_eth st
       (st\<lparr>az_running := before @ after, az_done := az_done st @ [(i, event, r)],
           az_permits := Suc (az_permits st)\<rparr>)"
| spawned: "az_pc st = Spawning [] to_block \<Longrightarrow>
     azero_step L E S C N emergency cfg most_azero most_eth st (st\<lparr>az_pc := Joining to_block\<rparr>)"
| join_ok: "az_pc st = Joining to_block \<Longrightarrow> az_finished st = Ok () # rs \<Longrightarrow>
     azero_step L E S C N emergency cfg most_azero most_eth st (st\<lparr>az_finished := rs\<rparr>)"
| join_error: "az_pc st = Joining to_block \<Longrightarrow> az_finished st = Err e # rs \<Longrightarrow>
     azero_step L E S C N emergency cfg most_azero most_eth st (st\<lparr>az_finished := rs, az_pc := Draining e\<rparr>)"
| join_panic: "az_pc st = Joining to_block \<or> az_pc st = Draining e \<Longrightarrow> az_finished st = Panic # rs \<Longrightarrow>
     azero_step L E S C N emergency cfg most_azero most_eth st (returned st (Err Az_Join))"
| joined: "az_pc st = Joining to_block \<Longrightarrow> az_finished st = [] \<Longrightarrow>
     azero_step L E S C N emergency cfg most_azero most_eth st (st\<lparr>az_first := to_block + 1, az_pc := Waiting\<rparr>)"
| drain: "az_pc st = Draining e \<Longrightarrow> az_finished st = r # rs \<Longrightarrow> r \<noteq> Panic \<Longrightarrow>
     azero_step L E S C N emergency cfg most_azero most_eth st (st\<lparr>az_finished := rs\<rparr>)"
| drained: "az_pc st = Draining e \<Longrightarrow> az_finished st = [] \<Longrightarrow> az_tasks st = [] \<Longrightarrow>
     azero_after_error S most_eth e w = Some (res, w') \<Longrightarrow>
     azero_step L E S C N emergency cfg most_azero most_eth st (returned st res)"
| seal: "az_tasks st = before @ (i, n, events) # after \<Longrightarrow>
     events_running i st = [] \<or> \<not> is_ok (join_event_tasks (results_of i st)) \<Longrightarrow>
     seal_processed_block C cfg n (results_of i st) (az_pending st) (az_redis st) = (res, pending, redis) \<Longrightarrow>
     azero_step L E S C N emergency cfg most_azero most_eth st
       ((drop_event_tasks i st)\<lparr>az_tasks := before @ after, az_finished := az_finished st @ [res],
           az_pending := pending, az_redis := redis,
           az_sealed := (if is_ok (join_event_tasks (results_of i st)) then insert n (az_sealed st) else az_sealed st)\<rparr>)"
| others: "write_last_processed_block C (cfg_name cfg) ETH_LAST_BLOCK_KEY n (az_redis st) = Ok r \<Longrightarrow>
     azero_step L E S C N emergency cfg most_azero most_eth st (st\<lparr>az_redis := r\<rparr>)"

inductive azero_reaches ::
  "('c, 't, 'o, 'raw, 'w) aleph_lib \<Rightarrow> 'w eth_lib \<Rightarrow> ('p, 'w) eth_signed_lib \<Rightarrow> 'r redis \<Rightarrow> ('raw, 'w) azero_node
    \<Rightarrow> ('w \<Rightarrow> bool) \<Rightarrow> config \<Rightarrow> ('c, 't) most_instance \<Rightarrow> eth_address
    \<Rightarrow> ('r, 'raw, 'o) azero_state \<Rightarrow> ('r, 'raw, 'o) azero_state \<Rightarrow> bool"
  for L E S C N emergency cfg most_azero most_eth st0 where
  refl: "azero_reaches L E S C N emergency cfg most_azero most_eth st0 st0"
| step: "azero_reaches L E S C N emergency cfg most_azero most_eth st0 st \<Longrightarrow>
     azero_step L E S C N emergency cfg most_azero most_eth st st' \<Longrightarrow>
     azero_reaches L E S C N emergency cfg most_azero most_eth st0 st'"

section \<open>What a sealed block is\<close>

lemma finished_as_all:
  assumes "finished_as xs task ok rs" and "ok rs" and "x \<in> set xs"
  shows "\<exists>r\<in>set rs. task x r"
proof -
  obtain ys where ys: "mset ys \<subseteq># mset xs" "list_all2 task ys rs" "length rs \<ge> length xs"
    using assms(1,2) by (fastforce simp: finished_as_def not_less)
  then have "size (mset xs) \<le> size (mset ys)" by (simp add: list_all2_lengthD)
  then have "mset ys = mset xs" using ys(1) by (metis size_mset_mono mset_subset_size not_le subset_mset.le_neq_trans)
  then have "set ys = set xs" by (rule mset_eq_setD)
  with assms(3) have "x \<in> set ys" by simp
  with ys(2) show ?thesis by (metis in_set_conv_nth list_all2_conv_all_nth)
qed

lemma finished_as_some:
  assumes "finished_as xs task ok rs" and "r \<in> set rs"
  shows "\<exists>x\<in>set xs. task x r"
proof -
  obtain ys where "mset ys \<subseteq># mset xs" "list_all2 task ys rs"
    using assms(1) by (auto simp: finished_as_def)
  then show ?thesis using assms(2) set_mset_mono [of "mset ys" "mset xs"]
    by (metis in_set_conv_nth list_all2_conv_all_nth set_mset_mset subsetD)
qed

lemma join_event_tasks_Ok: "is_ok (join_event_tasks rs) \<longleftrightarrow> (\<forall>r\<in>set rs. r = Ok ())"
  by (induction rs rule: join_event_tasks.induct) auto

lemma join_fetching_tasks_Ok: "join_fetching_tasks rs = Ok xs \<Longrightarrow> rs = map Ok xs"
proof (induction rs arbitrary: xs rule: join_fetching_tasks.induct)
  case (2 a rs)
  then show ?case by (cases "join_fetching_tasks rs") auto
qed simp_all

text \<open>An event of the run was relayed: a task of the run handled it, with success.\<close>

definition relayed ::
  "'w eth_lib \<Rightarrow> ('p, 'w) eth_signed_lib \<Rightarrow> config \<Rightarrow> ('r, 'raw, 'o) azero_state \<Rightarrow> 'o contract_event \<Rightarrow> bool" where
  "relayed E S cfg st event \<longleftrightarrow>
     (\<exists>i. (i, event, Ok ()) \<in> set (az_done st)) \<and> (\<exists>w w'. azero_handle_event E S cfg event w = Some (Ok (), w'))"

lemma azero_handle_event_sends:
  assumes "azero_handle_event E S cfg event v = Some (Ok (), v')" and "event_name event = Some ''CrosschainTransferRequest''"
    and "get_request_event_data (event_data event) = Ok d"
  obtains address nonce p u u' where "send_tx S (azero_vote_call E S cfg address d nonce) u = (Ok p, u')"
    and "parse_address E (cfg_eth_contract_address cfg) = Ok address"
  using assms
  by (auto simp: azero_handle_event_def result_elims split: result.splits prod.splits)

lemma seal_cases:
  assumes "seal_processed_block C cfg n results pending r = (res, pending', r')"
  obtains (failed) "\<not> is_ok (join_event_tasks results)" "pending' = pending" "r' = r" "\<not> is_ok res"
  | (unwritten) "is_ok (join_event_tasks results)" "pending' = pending - {n}" "r' = r" "\<not> is_ok res"
  | (written) "is_ok (join_event_tasks results)" "pending' = pending - {n}" "pending' \<noteq> {}" "res = Ok ()"
      "write_last_processed_block C (cfg_name cfg) ALEPH_LAST_BLOCK_KEY (Min pending' - 1) r = Ok r'"
proof (cases "join_event_tasks results")
  case (Ok u)
  with assms unwritten written show ?thesis
    unfolding seal_processed_block_def Let_def by (auto split: result.splits if_splits)
next
  case (Err e)
  with assms have "res = Err e" "pending' = pending" "r' = r" by (simp_all add: seal_processed_block_def)
  with Err failed show ?thesis by simp
next
  case Panic
  with assms have "res = Panic" "pending' = pending" "r' = r" by (simp_all add: seal_processed_block_def)
  with Panic failed show ?thesis by simp
qed

end
