(* ===== verification/Azero_Runs.thy ===== *)
theory Azero_Runs
  imports Azero_Listener
begin

text \<open>
  Invariants of the runs of the Aleph Zero listener: the pending set is the interval from the first
  block of the run to the frontier, without the sealed blocks; the frontier is never sealed, so a
  sealing task always finds a pending block; permits and running event tasks add up to the size of the
  semaphore; the cursor in Redis only passes sealed blocks and, while no sealing task has failed, all of
  them; and every event of a sealed block was relayed.
\<close>

section \<open>Assumptions on the node\<close>

definition azero_finalized_below :: "('raw, 'w) azero_node \<Rightarrow> nat \<Rightarrow> bool" where
  "azero_finalized_below N B \<longleftrightarrow>
     (\<forall>hash w n w'. get_block_number N hash w = (Ok (Some n), w') \<longrightarrow> unat n < B)"

text \<open>The events of a finalized block are fixed.\<close>

definition fetch_law ::
  "('c, 't, 'o, 'raw, 'w) aleph_lib \<Rightarrow> ('raw, 'w) azero_node \<Rightarrow> ('c, 't) most_instance
    \<Rightarrow> (u32 \<Rightarrow> 'o contract_event list) \<Rightarrow> bool" where
  "fetch_law L N most_azero events_of \<longleftrightarrow>
     (\<forall>n w details events w'. fetch_block N n w = (Ok (details, events), w') \<longrightarrow>
        filter_events L most_azero events details = events_of n)"

lemma fetch_block_number: "fetch_block N n w = (Ok (details, events), w') \<Longrightarrow> block_number details = n"
  by (auto simp: fetch_block_def map_ok_Ok split: prod.splits result.splits option.splits)

lemma next_finalized_azero:
  assumes "get_next_finalized_block_number_azero N first w = Some (Ok fin, w')" and "azero_finalized_below N B"
  shows "first \<le> fin" and "unat fin < B"
proof -
  obtain v where "ask_finalized_azero N first v = (Some (Ok fin), w')"
    using assms(1) unfolding get_next_finalized_block_number_azero_def by (rule poll_answer)
  then obtain hash v' where "get_block_number N hash v' = (Ok (Some fin), w')" "first \<le> fin"
    by (auto simp: ask_finalized_azero_def split: prod.splits result.splits option.splits if_splits)
  with assms(2) show "first \<le> fin" "unat fin < B" by (auto simp: azero_finalized_below_def)
qed

lemma fetched_blocks:
  assumes "fetch_events_in_block_range N from to (Ok block_events)" and "fetch_law L N most_azero events_of"
    and "(details, events) \<in> set block_events"
  shows "block_number details \<in> {from..to}"
    and "filter_events L most_azero events details = events_of (block_number details)"
proof -
  obtain rs where rs: "finished_as (block_range from to) (\<lambda>n r. \<exists>w w'. fetch_block N n w = (r, w'))
      (\<lambda>rs. is_ok (join_fetching_tasks rs)) rs" "join_fetching_tasks rs = Ok block_events"
    using assms(1) by (auto simp: fetch_events_in_block_range_def)
  from join_fetching_tasks_Ok [OF rs(2)] assms(3) have "Ok (details, events) \<in> set rs" by simp
  from finished_as_some [OF rs(1) this] obtain n w w' where
    n: "n \<in> {from..to}" and fetch: "fetch_block N n w = (Ok (details, events), w')" by auto
  note number = fetch_block_number [OF fetch]
  show "block_number details \<in> {from..to}" using n number by simp
  show "filter_events L most_azero events details = events_of (block_number details)"
    using assms(2) fetch unfolding fetch_law_def number by blast
qed

section \<open>The hashed bytes\<close>

text \<open>
  The contract ABI puts a \<^verbatim>\<open>uint256\<close> and a \<^verbatim>\<open>bytes32\<close> in one word of 32 bytes each, in the order of
  the tokens.
\<close>

fun abi_word :: "abi_token \<Rightarrow> u8 list" where
  "abi_word (Uint_Token x) = array_bytes x"
| "abi_word (FixedBytes_Token bs) = bs"

definition abi_law :: "('p, 'w) eth_signed_lib \<Rightarrow> bool" where
  "abi_law S \<longleftrightarrow> (\<forall>ts. (\<forall>t\<in>set ts. length (abi_word t) = 32) \<longrightarrow> abi_encode S ts = concat (map abi_word ts))"

lemma azero_request_bytes_eq:
  assumes "abi_law S"
  shows "azero_request_bytes S d =
    array_bytes (ucast (tr_committee_id d)) @ array_bytes (tr_dest_token_address d) @ array_bytes (ucast (tr_amount d)) @
    array_bytes (tr_dest_receiver_address d) @ array_bytes (ucast (tr_request_nonce d))"
  using assms by (simp add: abi_law_def azero_request_bytes_def)

lemma ucast_u128_inject: "(ucast (x :: u128) :: u256) = ucast y \<longleftrightarrow> x = y"
  by (rule ucast_up_inject) simp

lemma azero_request_bytes_inject:
  assumes "abi_law S"
  shows "azero_request_bytes S d = azero_request_bytes S d' \<longleftrightarrow> d = d'"
  using assms
  by (cases d; cases d') (auto simp: azero_request_bytes_eq append_eq_append_conv ucast_u128_inject)

section \<open>The invariant\<close>

text \<open>
  \<open>front\<close> is the frontier, the highest block added to the pending set; \<open>pc_inv\<close> relates it to the
  place the main loop is at.
\<close>

fun pc_inv :: "nat \<Rightarrow> u32 \<Rightarrow> (u32 \<Rightarrow> 'o contract_event list) \<Rightarrow> ('c, 't, 'o, 'raw, 'w) aleph_lib \<Rightarrow> ('c, 't) most_instance
    \<Rightarrow> u32 \<Rightarrow> u32 \<Rightarrow> ('raw, 'o) azero_pc \<Rightarrow> bool" where
  "pc_inv B first0 events_of L inst first front Waiting \<longleftrightarrow> front = first"
| "pc_inv B first0 events_of L inst first front (Adding ns to) \<longleftrightarrow>
     ns = block_range front to \<and> unat to < B \<and> unat front \<le> unat to + 1 \<and> first \<le> front"
| "pc_inv B first0 events_of L inst first front (Fetching to) \<longleftrightarrow> unat front = unat to + 1"
| "pc_inv B first0 events_of L inst first front (Spawning fetched to) \<longleftrightarrow>
     unat front = unat to + 1 \<and>
     (\<forall>(details, events)\<in>set fetched. first0 \<le> block_number details \<and> block_number details < front \<and>
        filter_events L inst events details = events_of (block_number details))"
| "pc_inv B first0 events_of L inst first front (Handling n started todo rest to) \<longleftrightarrow>
     unat front = unat to + 1 \<and> first0 \<le> n \<and> n < front \<and> started @ todo = events_of n \<and>
     (\<forall>(details, events)\<in>set rest. first0 \<le> block_number details \<and> block_number details < front \<and>
        filter_events L inst events details = events_of (block_number details))"
| "pc_inv B first0 events_of L inst first front (Joining to) \<longleftrightarrow> unat front = unat to + 1"
| "pc_inv B first0 events_of L inst first front _ \<longleftrightarrow> True"

definition front_inv :: "nat \<Rightarrow> u32 \<Rightarrow> (u32 \<Rightarrow> 'o contract_event list) \<Rightarrow> ('c, 't, 'o, 'raw, 'w) aleph_lib \<Rightarrow> ('c, 't) most_instance
    \<Rightarrow> u32 \<Rightarrow> ('r, 'raw, 'o) azero_state \<Rightarrow> bool" where
  "front_inv B first0 events_of L inst front st \<longleftrightarrow>
     first0 \<le> az_first st \<and> first0 \<le> front \<and> unat front \<le> B \<and> unat (az_first st) \<le> B \<and>
     az_pending st = {first0..front} - az_sealed st \<and> az_sealed st \<subseteq> {first0..<front} \<and>
     (\<forall>(i, n, events)\<in>set (az_tasks st). n \<in> {first0..<front} \<and> events = events_of n) \<and>
     pc_inv B first0 events_of L inst (az_first st) front (az_pc st)"

definition cursor_inv :: "'r redis \<Rightarrow> config \<Rightarrow> u32 \<Rightarrow> 'r \<Rightarrow> ('r, 'raw, 'o) azero_state \<Rightarrow> bool" where
  "cursor_inv C cfg first0 r0 st \<longleftrightarrow>
     (\<forall>x. redis_get C (redis_key (cfg_name cfg) ALEPH_LAST_BLOCK_KEY) (az_redis st) = Ok x \<longrightarrow>
        redis_get C (redis_key (cfg_name cfg) ALEPH_LAST_BLOCK_KEY) r0 = Ok x \<or> {first0..x} \<subseteq> az_sealed st)"

definition relayed_inv :: "'w eth_lib \<Rightarrow> ('p, 'w) eth_signed_lib \<Rightarrow> config \<Rightarrow> (u32 \<Rightarrow> 'o contract_event list)
    \<Rightarrow> ('r, 'raw, 'o) azero_state \<Rightarrow> bool" where
  "relayed_inv E S cfg events_of st \<longleftrightarrow> (\<forall>n\<in>az_sealed st. list_all (relayed E S cfg st) (events_of n))"

section \<open>Sealing\<close>

lemma word_interval_below_Min:
  fixes lo hi :: u32
  assumes "P = {lo..hi} - S" and "P \<noteq> {}" and "1 \<le> unat lo"
  shows "{lo..Min P - 1} \<subseteq> S" and "1 \<le> unat (Min P)"
proof -
  have fin: "finite P" by simp
  have min: "Min P \<in> P" using fin assms(2) by (rule Min_in)
  then have lo: "unat lo \<le> unat (Min P)" and hi: "Min P \<le> hi" using assms(1) by (auto simp: word_le_nat_alt)
  show pos: "1 \<le> unat (Min P)" using lo assms(3) by linarith
  have pred: "unat (Min P - 1) = unat (Min P) - 1" using pos by (intro unat_minus_one) auto
  show "{lo..Min P - 1} \<subseteq> S"
  proof
    fix b assume "b \<in> {lo..Min P - 1}"
    then have b: "lo \<le> b" "b < Min P" using pred pos by (auto simp: word_le_nat_alt word_less_nat_alt)
    then have "b \<notin> P" using fin by (meson Min_le not_le)
    with b hi assms(1) show "b \<in> S" by auto
  qed
qed

lemma sealable:
  assumes "front_inv B first0 events_of L inst front st" and "1 \<le> unat first0" and "(i, n, events) \<in> set (az_tasks st)"
  shows "az_pending st - {n} \<noteq> {}" and "1 \<le> unat (Min (az_pending st - {n}))"
proof -
  have eq: "az_pending st - {n} = {first0..front} - insert n (az_sealed st)"
    using assms(1) by (auto simp: front_inv_def)
  have "front \<in> az_pending st - {n}" using assms(1,3) by (auto simp: front_inv_def)
  then show ne: "az_pending st - {n} \<noteq> {}" by blast
  show "1 \<le> unat (Min (az_pending st - {n}))"
    using word_interval_below_Min(2) [OF eq ne assms(2)] .
qed

section \<open>Preservation\<close>

lemma block_range_Nil: "block_range a b = [] \<longleftrightarrow> unat b < unat a"
  by (auto simp: block_range_def)

lemma block_range_Cons:
  assumes "block_range a b = n # ns" and "unat b < 2 ^ 32 - 1"
  shows "n = a" and "ns = block_range (a + 1) b" and "unat a \<le> unat b"
proof -
  show le: "unat a \<le> unat b" using assms(1) by (cases "unat a \<le> unat b") (auto simp: block_range_def)
  then have "[unat a..<Suc (unat b)] = unat a # [Suc (unat a)..<Suc (unat b)]" by (simp add: upt_conv_Cons)
  moreover have "unat (a + 1) = Suc (unat a)" using le assms(2) by (simp add: unat_succ_small)
  ultimately have "block_range a b = a # block_range (a + 1) b"
    by (simp only: block_range_def list.map of_nat_unat ucast_id)
  with assms(1) show "n = a" "ns = block_range (a + 1) b" by auto
qed

lemma front_inv_add:
  assumes inv: "front_inv B first0 events_of L inst front st" and pc: "az_pc st = Adding (n # ns) to"
    and B: "B < 2 ^ 32"
  shows "front_inv B first0 events_of L inst (front + 1)
           (st\<lparr>az_pending := add_to_pending (n + 1) (az_pending st), az_pc := Adding ns to\<rparr>)"
proof -
  have range: "block_range front to = n # ns" and to: "unat to < B"
    using inv pc by (auto simp: front_inv_def)
  note n = block_range_Cons [OF range] 
  have small: "unat to < 2 ^ 32 - 1" using to B by linarith
  have succ: "unat (front + 1) = unat front + 1"
    using n(3) small by (intro unat_succ_small) linarith
  have interval: "{first0..front + 1} = insert (front + 1) {first0..front}"
    using inv succ by (auto simp: front_inv_def word_le_nat_alt le_Suc_eq word_unat_eq_iff)
  have fresh: "front + 1 \<notin> az_sealed st" "az_sealed st \<subseteq> {first0..<front + 1}"
    using inv succ by (auto simp: front_inv_def word_le_nat_alt word_less_nat_alt)
  have tasks: "\<forall>(i, n, events)\<in>set (az_tasks st). n \<in> {first0..<front + 1} \<and> events = events_of n"
    using inv succ by (fastforce simp: front_inv_def word_le_nat_alt word_less_nat_alt)
  have "az_first st \<le> front" using inv pc by (simp add: front_inv_def)
  then show ?thesis
    using inv n small succ interval fresh tasks to
    by (auto simp: front_inv_def add_to_pending_def word_le_nat_alt)
qed

lemma front_inv_window:
  assumes inv: "front_inv B first0 events_of L inst front st" and pc: "az_pc st = Waiting"
    and first0: "1 \<le> unat first0" and room: "window_room B (cfg_sync_step cfg)"
    and fin: "az_first st \<le> fin" "unat fin < B"
    and to: "to_block = window_end fin (az_first st) (cfg_sync_step cfg)"
  shows "front_inv B first0 events_of L inst front
           (st\<lparr>az_pc := Adding (block_range (az_first st) to_block) to_block\<rparr>)"
proof -
  have first: "1 \<le> unat (az_first st)" "unat (az_first st) \<le> B"
    using inv first0 by (auto simp: front_inv_def word_le_nat_alt)
  from window_end_bounds [OF room first fin] show ?thesis
    using inv pc unfolding to [symmetric] by (auto simp: front_inv_def)
qed

lemma drop_event_tasks_simps [simp]:
  "az_first (drop_event_tasks i st) = az_first st" "az_pending (drop_event_tasks i st) = az_pending st"
  "az_redis (drop_event_tasks i st) = az_redis st" "az_next (drop_event_tasks i st) = az_next st"
  "az_done (drop_event_tasks i st) = az_done st" "az_tasks (drop_event_tasks i st) = az_tasks st"
  "az_finished (drop_event_tasks i st) = az_finished st" "az_pc (drop_event_tasks i st) = az_pc st"
  "az_sealed (drop_event_tasks i st) = az_sealed st"
  by (simp_all add: drop_event_tasks_def)

lemma front_inv_seal:
  assumes inv: "front_inv B first0 events_of L inst front st"
    and tasks: "az_tasks st = before @ (i, n, events) # after"
    and seal: "seal_processed_block C cfg n results (az_pending st) (az_redis st) = (res, pending, redis)"
  shows "front_inv B first0 events_of L inst front
       ((drop_event_tasks i st)\<lparr>az_tasks := before @ after, az_finished := az_finished st @ [res], az_pending := pending,
           az_redis := redis,
           az_sealed := (if is_ok (join_event_tasks results) then insert n (az_sealed st) else az_sealed st)\<rparr>)"
  using seal by (cases rule: seal_cases) (use inv tasks in \<open>auto simp: front_inv_def\<close>)

text \<open>The frontier moves exactly when the main loop adds a block.\<close>

definition next_front :: "u32 \<Rightarrow> ('r, 'raw, 'o) azero_state \<Rightarrow> ('r, 'raw, 'o) azero_state \<Rightarrow> u32" where
  "next_front front st st' =
     (case (az_pc st, az_pc st') of
        (Adding ns to, Adding ns' to') \<Rightarrow> if length ns' < length ns then front + 1 else front
      | _ \<Rightarrow> front)"

lemma next_front_simps [simp]:
  "az_pc st = Adding (n # ns) to \<Longrightarrow> az_pc st' = Adding ns to \<Longrightarrow> next_front front st st' = front + 1"
  "az_pc st' = az_pc st \<Longrightarrow> next_front front st st' = front"
  "\<nexists>ns to. az_pc st = Adding ns to \<Longrightarrow> next_front front st st' = front"
  "\<nexists>ns to. az_pc st' = Adding ns to \<Longrightarrow> next_front front st st' = front"
  by (auto simp: next_front_def split: azero_pc.splits)

lemma front_inv_step:
  assumes step: "azero_step L E S C N emergency cfg most_azero most_eth st st'"
    and inv: "front_inv B first0 events_of L most_azero front st"
    and laws: "azero_finalized_below N B" "fetch_law L N most_azero events_of" "window_room B (cfg_sync_step cfg)"
    and first0: "1 \<le> unat first0"
  shows "front_inv B first0 events_of L most_azero (next_front front st st') st'"
  using step inv
proof cases
  case (window w fin w' to_block)
  with front_inv_window [OF inv window(2) first0 laws(3) next_finalized_azero [OF window(3) laws(1)] window(5)]
  show ?thesis by simp
next
  case (add n ns to_block)
  have "B < 2 ^ 32" using laws(3) by (simp add: window_room_def)
  from front_inv_add [OF inv add(2) this] add show ?thesis by simp
next
  case (added to_block)
  with inv have "front_inv B first0 events_of L most_azero front st'"
    using block_range_Nil [of front to_block] by (auto simp: front_inv_def)
  with added show ?thesis by simp
next
  case (fetched to_block block_events)
  then have front: "unat front = unat to_block + 1" and "first0 \<le> az_first st" using inv by (auto simp: front_inv_def)
  then have "first0 \<le> block_number details \<and> block_number details < front \<and>
      filter_events L most_azero events details = events_of (block_number details)"
    if "(details, events) \<in> set block_events" for details events
    using fetched_blocks [OF fetched(3) laws(2) that] by (auto simp: word_le_nat_alt word_less_nat_alt)
  with fetched front inv have "front_inv B first0 events_of L most_azero front st'"
    by (auto simp: front_inv_def)
  with fetched show ?thesis by simp
next
  case (handle details events rest to_block)
  with inv have "front_inv B first0 events_of L most_azero front st'" by (auto simp: front_inv_def)
  with handle show ?thesis by simp
next
  case (start_event n started event events rest to_block permits started')
  with inv have "front_inv B first0 events_of L most_azero front st'"
    by (auto simp: front_inv_def start_event_task_def Let_def split: if_splits)
  with start_event show ?thesis by simp
next
  case (spawn n started rest to_block)
  with inv have "front_inv B first0 events_of L most_azero front st'" by (auto simp: front_inv_def)
  with spawn show ?thesis by simp
next
  case (joined to_block)
  then have front: "unat front = unat to_block + 1" and "first0 \<le> front" "unat front \<le> B" using inv by (auto simp: front_inv_def)
  moreover from this have "to_block + 1 = front"
    using laws(3) by (simp add: word_unat_eq_iff window_room_def unat_succ_small)
  ultimately have "front_inv B first0 events_of L most_azero front st'"
    using joined inv by (auto simp: front_inv_def)
  with joined show ?thesis by simp
next
  case (seal before i n events after res pending redis)
  from front_inv_seal [OF inv seal(2,4)] seal(1) show ?thesis by simp
qed (use inv in \<open>auto simp: front_inv_def returned_def\<close>)

section \<open>Event tasks and the semaphore\<close>

text \<open>
  Every event of a block whose sealing task runs is either running or done, and so is every event
  already started for the block the main loop is handling; each result of a finished task is an
  outcome of \<^verbatim>\<open>handle_event\<close>; and permits and running tasks add up to the size of the semaphore.
\<close>

definition events_done :: "nat \<Rightarrow> ('r, 'raw, 'o) azero_state \<Rightarrow> 'o contract_event list" where
  "events_done i st = map (fst \<circ> snd) (filter (\<lambda>d. fst d = i) (az_done st))"

definition started_events :: "nat \<Rightarrow> ('r, 'raw, 'o) azero_state \<Rightarrow> 'o contract_event multiset" where
  "started_events i st = mset (events_running i st) + mset (events_done i st)"

lemmas started_defs = started_events_def events_running_def events_done_def

definition semaphore_inv :: "nat \<Rightarrow> ('r, 'raw, 'o) azero_state \<Rightarrow> bool" where
  "semaphore_inv size_limit st \<longleftrightarrow>
     ((\<nexists>res. az_pc st = Returned res) \<longrightarrow> az_permits st + length (az_running st) = size_limit) \<and>
     length (az_running st) \<le> size_limit"

definition task_inv :: "'w eth_lib \<Rightarrow> ('p, 'w) eth_signed_lib \<Rightarrow> config \<Rightarrow> ('r, 'raw, 'o) azero_state \<Rightarrow> bool" where
  "task_inv E S cfg st \<longleftrightarrow>
     (\<forall>(i, n, events)\<in>set (az_tasks st). i < az_next st \<and> mset events = started_events i st) \<and>
     distinct (map fst (az_tasks st)) \<and>
     (case az_pc st of
        Handling n started todo rest to \<Rightarrow> mset started = started_events (az_next st) st
      | Returned res \<Rightarrow> True
      | _ \<Rightarrow> started_events (az_next st) st = {#}) \<and>
     (\<forall>i>az_next st. started_events i st = {#}) \<and>
     (\<forall>(i, event, r)\<in>set (az_done st). \<exists>w w'. azero_handle_event E S cfg event w = Some (r, w'))"

lemma semaphore_step:
  assumes "azero_step L E S C N emergency cfg most_azero most_eth st st'" and "semaphore_inv m st"
  shows "semaphore_inv m st'"
  using assms
proof cases
  case (seal before i n events after res pending redis)
  have "length (filter (\<lambda>t. fst t \<noteq> i) (az_running st)) + length (events_running i st) = length (az_running st)"
    using sum_length_filter_compl [of "\<lambda>t. fst t = i" "az_running st"] by (simp add: events_running_def)
  with seal assms(2) show ?thesis by (auto simp: semaphore_inv_def drop_event_tasks_def)
qed (auto simp: semaphore_inv_def returned_def)

text \<open>No block ever gets as many event tasks as the limit.\<close>

definition batch_inv :: "('r, 'raw, 'o) azero_state \<Rightarrow> bool" where
  "batch_inv st \<longleftrightarrow>
     (\<forall>(i, n, events)\<in>set (az_tasks st). length events < ALEPH_MAX_REQUESTS_PER_BLOCK) \<and>
     (case az_pc st of
        Handling n started todo rest to \<Rightarrow> length started < ALEPH_MAX_REQUESTS_PER_BLOCK
      | _ \<Rightarrow> True)"

lemma batch_step:
  assumes "azero_step L E S C N emergency cfg most_azero most_eth st st'" and "batch_inv st"
  shows "batch_inv st'"
  using assms
proof cases
  case (start_event n started event events rest to_block permits started')
  with assms(2) show ?thesis by (auto simp: batch_inv_def start_event_task_def Let_def split: if_splits)
next
  case (handle details events rest to_block)
  with assms(2) show ?thesis by (auto simp: batch_inv_def ALEPH_MAX_REQUESTS_PER_BLOCK_def)
qed (auto simp: batch_inv_def returned_def)

lemma started_events_start:
  "az_running st' = az_running st @ [(k, event)] \<Longrightarrow> az_done st' = az_done st \<Longrightarrow>
     started_events i st' = (if i = k then add_mset event (started_events i st) else started_events i st)"
  by (simp add: started_defs)

lemma started_events_finish:
  "az_running st = before @ (k, event) # after \<Longrightarrow> az_running st' = before @ after \<Longrightarrow>
     az_done st' = az_done st @ [(k, event, r)] \<Longrightarrow> started_events i st' = started_events i st"
  by (simp add: started_defs)

lemma started_events_drop:
  fixes st st' :: "('r, 'raw, 'o) azero_state"
  shows "az_running st' = filter (\<lambda>t. fst t \<noteq> k) (az_running st) \<Longrightarrow> az_done st' = az_done st \<Longrightarrow> i \<noteq> k \<Longrightarrow>
     started_events i st' = started_events i st"
proof -
  assume "az_running st' = filter (\<lambda>t. fst t \<noteq> k) (az_running st)" "az_done st' = az_done st" "i \<noteq> k"
  moreover from this(3) have "(\<lambda>t :: nat \<times> 'o contract_event. fst t \<noteq> k \<and> fst t = i) = (\<lambda>t. fst t = i)" by auto
  ultimately show "started_events i st' = started_events i st" by (simp add: started_defs)
qed

lemma task_step:
  assumes step: "azero_step L E S C N emergency cfg most_azero most_eth st st'" and inv: "task_inv E S cfg st"
  shows "task_inv E S cfg st'"
  using step
proof cases
  case (start_event n started event events rest to_block permits started')
  then have "started_events i st' = (if i = az_next st then add_mset event (started_events i st) else started_events i st)" for i
    by (intro started_events_start) simp_all
  with start_event inv show ?thesis
    by (auto simp: task_inv_def start_event_task_def Let_def split: if_splits)
next
  case (event_done before i event after w r w')
  then have "started_events j st' = started_events j st" for j
    by (intro started_events_finish) simp_all
  with event_done inv show ?thesis by (auto simp: task_inv_def split: azero_pc.splits)
next
  case (seal before i n events after res pending redis)
  have "started_events j st' = started_events j st" if "j \<noteq> i" for j
    using that seal by (intro started_events_drop [of _ i]) (simp_all add: drop_event_tasks_def)
  note other = this
  have i: "i < az_next st" "i \<notin> fst ` set (before @ after)" "distinct (map fst (before @ after))"
    using inv seal(2) by (auto simp: task_inv_def)
  have tasks: "\<forall>(j, n, events)\<in>set (before @ after). j < az_next st \<and> mset events = started_events j st"
    using inv seal(2) by (auto simp: task_inv_def)
  have tasks': "\<forall>(j, n, events)\<in>set (before @ after). j < az_next st \<and> mset events = started_events j st'"
  proof (intro ballI, clarify)
    fix j n events assume t: "(j, n, events) \<in> set (before @ after)"
    then have "fst (j, n, events) \<in> fst ` set (before @ after)" by (rule imageI)
    with i(2) have "j \<noteq> i" by auto
    from bspec [OF tasks t] other [OF this] show "j < az_next st \<and> mset events = started_events j st'" by simp
  qed
  have now: "started_events j st' = started_events j st" if "az_next st \<le> j" for j
    using other i(1) that by simp
  have fields: "az_tasks st' = before @ after" "az_next st' = az_next st" "az_pc st' = az_pc st"
    "az_done st' = az_done st" using seal(1) by simp_all
  show ?thesis
    using inv tasks' i(3) unfolding task_inv_def fields
    by (simp add: now split: azero_pc.splits)
qed (use inv in \<open>auto simp: task_inv_def returned_def started_defs split: azero_pc.splits\<close>)

section \<open>Cursor and relayed events\<close>

lemma cursor_inv_step:
  assumes step: "azero_step L E S C N emergency cfg most_azero most_eth st st'"
    and inv: "front_inv B first0 events_of L most_azero front st" and cur: "cursor_inv C cfg first0 r0 st"
    and law: "redis_law C" and first0: "1 \<le> unat first0"
  shows "cursor_inv C cfg first0 r0 st'"
  using step cur
proof cases
  case (seal before i n events after res pending redis)
  from seal(4) show ?thesis
  proof (cases rule: seal_cases)
    case written
    have eq: "pending = {first0..front} - insert n (az_sealed st)"
      using written(2) inv by (auto simp: front_inv_def)
    have "{first0..x} \<subseteq> insert n (az_sealed st)"
      if "redis_get C (redis_key (cfg_name cfg) ALEPH_LAST_BLOCK_KEY) redis = Ok x" for x
      using word_interval_below_Min(1) [OF eq written(3) first0] cursor_written [OF law written(5) that] by simp
    with seal(1) written(1) show ?thesis by (simp add: cursor_inv_def)
  qed (use cur seal(1) in \<open>auto simp: cursor_inv_def\<close>)
next
  case (others n r)
  have "redis_get C (redis_key (cfg_name cfg) ALEPH_LAST_BLOCK_KEY) r =
        redis_get C (redis_key (cfg_name cfg) ALEPH_LAST_BLOCK_KEY) (az_redis st)"
    using other_cursor_kept [OF law others(2)] cursor_keys_differ by metis
  with others(1) cur show ?thesis by (simp add: cursor_inv_def)
qed (use cur in \<open>auto simp: cursor_inv_def returned_def\<close>)

lemma results_relayed:
  assumes inv: "task_inv E S cfg st" and task: "(i, n, events) \<in> set (az_tasks st)"
    and quiet: "events_running i st = []" and ok: "is_ok (join_event_tasks (results_of i st))"
  shows "list_all (relayed E S cfg st) events"
proof -
  have "relayed E S cfg st event" if "event \<in> set events" for event
  proof -
    have "mset events = mset (events_done i st)"
      using inv task quiet by (auto simp: task_inv_def started_events_def)
    then have "event \<in> set (events_done i st)" using that by (metis mset_eq_setD)
    then obtain r where d: "(i, event, r) \<in> set (az_done st)" by (auto simp: events_done_def)
    then have "r \<in> set (results_of i st)" by (force simp: results_of_def)
    then have "r = Ok ()" using ok unfolding join_event_tasks_Ok by blast
    moreover have "\<exists>w w'. azero_handle_event E S cfg event w = Some (r, w')"
      using inv d by (auto simp: task_inv_def)
    ultimately show ?thesis using d by (auto simp: relayed_def)
  qed
  then show ?thesis by (simp add: list_all_iff)
qed

lemma relayed_step:
  assumes "azero_step L E S C N emergency cfg most_azero most_eth st st'" and "relayed E S cfg st event"
  shows "relayed E S cfg st' event"
proof -
  have "set (az_done st) \<subseteq> set (az_done st')" using assms(1) by cases (auto simp: returned_def)
  with assms(2) show ?thesis by (auto simp: relayed_def)
qed

lemma relayed_inv_step:
  assumes step: "azero_step L E S C N emergency cfg most_azero most_eth st st'"
    and inv: "front_inv B first0 events_of L most_azero front st" "task_inv E S cfg st"
    and rel: "relayed_inv E S cfg events_of st"
  shows "relayed_inv E S cfg events_of st'"
proof -
  have kept: "list_all (relayed E S cfg st') events" if "list_all (relayed E S cfg st) events" for events
    using that relayed_step [OF step] by (auto simp: list_all_iff)
  show ?thesis
    using step
  proof cases
    case (seal before i n events after res pending redis)
    have "events = events_of n" "(i, n, events) \<in> set (az_tasks st)" using seal(2) inv(1) by (auto simp: front_inv_def)
    then have "list_all (relayed E S cfg st) (events_of n)" if "is_ok (join_event_tasks (results_of i st))"
      using results_relayed [OF inv(2), of i n events] seal(3) that by auto
    with seal(1) rel kept show ?thesis by (auto simp: relayed_inv_def split: if_splits)
  qed (use rel kept in \<open>auto simp: relayed_inv_def returned_def\<close>)
qed

section \<open>Exactness of the cursor\<close>

text \<open>
  As long as no sealing task has failed, no block below the frontier is forgotten: it is sealed, being
  sealed, or among the blocks of the current window that are still to be handled.  The cursor is then
  exactly the block before the oldest pending one.
\<close>

definition calm :: "('r, 'raw, 'o) azero_state \<Rightarrow> bool" where
  "calm st \<longleftrightarrow> list_all is_ok (az_finished st) \<and>
     (case az_pc st of Draining e \<Rightarrow> False | Returned res \<Rightarrow> False | _ \<Rightarrow> True)"

definition unhandled :: "u32 \<Rightarrow> ('r, 'raw, 'o) azero_state \<Rightarrow> u32 set" where
  "unhandled front st =
     (case az_pc st of
        Adding ns to \<Rightarrow> {az_first st..<front}
      | Fetching to \<Rightarrow> {az_first st..<front}
      | Spawning fetched to \<Rightarrow> (block_number \<circ> fst) ` set fetched
      | Handling n started todo rest to \<Rightarrow> insert n ((block_number \<circ> fst) ` set rest)
      | _ \<Rightarrow> {})"

definition cover_inv :: "u32 \<Rightarrow> u32 \<Rightarrow> ('r, 'raw, 'o) azero_state \<Rightarrow> bool" where
  "cover_inv first0 front st \<longleftrightarrow>
     (calm st \<longrightarrow> {first0..<front} \<subseteq> az_sealed st \<union> (fst \<circ> snd) ` set (az_tasks st) \<union> unhandled front st)"

definition exact_inv :: "'r redis \<Rightarrow> config \<Rightarrow> ('r, 'raw, 'o) azero_state \<Rightarrow> bool" where
  "exact_inv C cfg st \<longleftrightarrow>
     (calm st \<longrightarrow> az_sealed st \<noteq> {} \<longrightarrow>
       (\<forall>x. redis_get C (redis_key (cfg_name cfg) ALEPH_LAST_BLOCK_KEY) (az_redis st) = Ok x \<longrightarrow> x + 1 = Min (az_pending st)))"

lemma calm_step:
  assumes "azero_step L E S C N emergency cfg most_azero most_eth st st'" and "calm st'"
  shows "calm st"
  using assms by cases (auto simp: calm_def returned_def split: azero_pc.splits)

lemma fetched_all:
  assumes "fetch_events_in_block_range N from to (Ok block_events)"
  shows "{from..to} \<subseteq> (block_number \<circ> fst) ` set block_events"
proof
  fix n assume "n \<in> {from..to}"
  moreover obtain rs where rs: "finished_as (block_range from to) (\<lambda>n r. \<exists>w w'. fetch_block N n w = (r, w'))
      (\<lambda>rs. is_ok (join_fetching_tasks rs)) rs" "join_fetching_tasks rs = Ok block_events"
    using assms by (auto simp: fetch_events_in_block_range_def)
  ultimately obtain r w w' where r: "r \<in> set rs" "fetch_block N n w = (r, w')"
    using finished_as_all [OF rs(1)] by (metis is_ok.simps(1) set_block_range)
  then obtain details events where "r = Ok (details, events)" "(details, events) \<in> set block_events"
    using join_fetching_tasks_Ok [OF rs(2)] by auto
  with fetch_block_number r(2) show "n \<in> (block_number \<circ> fst) ` set block_events" by force
qed

lemma cover_inv_cong:
  "az_pc st' = az_pc st \<Longrightarrow> az_first st' = az_first st \<Longrightarrow> az_sealed st' = az_sealed st \<Longrightarrow> az_tasks st' = az_tasks st \<Longrightarrow>
     az_finished st' = az_finished st \<Longrightarrow> cover_inv first0 front st' = cover_inv first0 front st"
  by (cases "az_pc st") (simp_all add: cover_inv_def calm_def unhandled_def)

lemma cover_step:
  assumes step: "azero_step L E S C N emergency cfg most_azero most_eth st st'"
    and inv: "front_inv B first0 events_of L most_azero front st" and cover: "cover_inv first0 front st"
    and B: "B < 2 ^ 32"
  shows "cover_inv first0 (next_front front st st') st'"
  using step
proof cases
  case (add n ns to_block)
  have range: "block_range front to_block = n # ns" "unat to_block < B" and first: "az_first st \<le> front"
    using inv add(2) by (auto simp: front_inv_def)
  then have "unat front \<le> unat to_block" using B block_range_Cons(3) by (metis block_range_Nil list.distinct(1) not_le)
  with range(2) B have "unat (front + 1) = unat front + 1" by (intro unat_succ_small) linarith
  then have "b < front + 1 \<longleftrightarrow> b < front \<or> b = front" for b
    by (auto simp: word_less_nat_alt word_unat_eq_iff less_Suc_eq)
  with cover add first show ?thesis by (auto simp: cover_inv_def calm_def unhandled_def)
next
  case (fetched to_block block_events)
  then have "unat front = unat to_block + 1" using inv by (simp add: front_inv_def)
  then have "{az_first st..<front} \<subseteq> (block_number \<circ> fst) ` set block_events"
    using fetched_all [OF fetched(3)] by (auto simp: word_le_nat_alt word_less_nat_alt)
  with cover fetched show ?thesis by (auto simp: cover_inv_def calm_def unhandled_def)
next
  case (seal before i n events after res pending redis)
  have "az_sealed st' = insert n (az_sealed st)" if "calm st'"
    using seal(4) by (cases rule: seal_cases) (use that seal(1) in \<open>auto simp: calm_def\<close>)
  moreover have "calm st" if "calm st'" using calm_step [OF step that] .
  moreover have "next_front front st st' = front" "unhandled front st' = unhandled front st"
    "az_tasks st' = before @ after" using seal(1) by (simp_all add: unhandled_def split: azero_pc.splits)
  ultimately show ?thesis using cover seal(2) by (auto simp: cover_inv_def)
next
  case (event_done before i event after w r w')
  then show ?thesis using cover cover_inv_cong [of st' st] by simp
next
  case (others n r)
  then show ?thesis using cover cover_inv_cong [of st' st] by simp
qed (use cover in \<open>auto simp: cover_inv_def calm_def unhandled_def returned_def\<close>)

lemma exact_step:
  assumes step: "azero_step L E S C N emergency cfg most_azero most_eth st st'"
    and inv: "front_inv B first0 events_of L most_azero front st" and exact: "exact_inv C cfg st"
    and law: "redis_law C" and B: "B < 2 ^ 32" and first0: "1 \<le> unat first0"
  shows "exact_inv C cfg st'"
  using step
proof cases
  case (add n ns to_block)
  have range: "block_range front to_block = n # ns" "unat to_block < B"
    using inv add(2) by (auto simp: front_inv_def)
  note n = block_range_Cons [OF range(1)]
  have small: "unat to_block < 2 ^ 32 - 1" using range(2) B by linarith
  have "unat (front + 1) = unat front + 1" using n(3) small by (intro unat_succ_small) linarith
  moreover have "front \<in> az_pending st" using inv by (auto simp: front_inv_def)
  then have "Min (az_pending st) \<le> front" by simp
  ultimately have "Min (az_pending st) \<le> front + 1" by (simp add: word_le_nat_alt)
  moreover have "az_pending st \<noteq> {}" using \<open>front \<in> az_pending st\<close> by blast
  ultimately have "Min (add_to_pending (n + 1) (az_pending st)) = Min (az_pending st)"
    using n(1) [OF small] by (simp add: add_to_pending_def min_absorb2 del: min_def Min_le_iff Min_ge_iff)
  with exact add(1) calm_step [OF step] show ?thesis by (auto simp: exact_inv_def)
next
  case (seal before i n events after res pending redis)
  from seal(4) show ?thesis
  proof (cases rule: seal_cases)
    case written
    have "x + 1 = Min pending" if "redis_get C (redis_key (cfg_name cfg) ALEPH_LAST_BLOCK_KEY) redis = Ok x" for x
      using cursor_written [OF law written(5) that] by simp
    with seal(1) show ?thesis by (simp add: exact_inv_def)
  qed (use seal(1) in \<open>auto simp: exact_inv_def calm_def\<close>)
next
  case (others n r)
  have "redis_get C (redis_key (cfg_name cfg) ALEPH_LAST_BLOCK_KEY) r =
        redis_get C (redis_key (cfg_name cfg) ALEPH_LAST_BLOCK_KEY) (az_redis st)"
    using other_cursor_kept [OF law others(2)] cursor_keys_differ by metis
  with others(1) exact calm_step [OF step] show ?thesis by (simp add: exact_inv_def)
qed (use exact calm_step [OF step] in \<open>auto simp: exact_inv_def returned_def\<close>)

section \<open>All reachable states\<close>

definition azero_inv ::
  "('c, 't, 'o, 'raw, 'w) aleph_lib \<Rightarrow> 'w eth_lib \<Rightarrow> ('p, 'w) eth_signed_lib \<Rightarrow> 'r redis \<Rightarrow> config
    \<Rightarrow> ('c, 't) most_instance \<Rightarrow> (u32 \<Rightarrow> 'o contract_event list) \<Rightarrow> nat \<Rightarrow> u32 \<Rightarrow> 'r \<Rightarrow> ('r, 'raw, 'o) azero_state \<Rightarrow> bool" where
  "azero_inv L E S C cfg inst events_of B first0 r0 st \<longleftrightarrow>
     (\<exists>front. front_inv B first0 events_of L inst front st \<and> cover_inv first0 front st) \<and>
     task_inv E S cfg st \<and> cursor_inv C cfg first0 r0 st \<and> exact_inv C cfg st \<and> relayed_inv E S cfg events_of st"

lemma azero_start_inv:
  assumes "unat (azero_first_block C cfg r) \<le> B"
  shows "azero_inv L E S C cfg inst events_of B (azero_first_block C cfg r) r (azero_start C cfg r)"
proof -
  let ?st = "azero_start C cfg r" and ?first = "azero_first_block C cfg r"
  have "front_inv B ?first events_of L inst ?first ?st"
    using assms by (auto simp: front_inv_def azero_start_def Let_def add_to_pending_def)
  moreover have "cover_inv ?first ?first ?st" "task_inv E S cfg ?st" "exact_inv C cfg ?st"
    by (simp_all add: cover_inv_def task_inv_def exact_inv_def started_defs azero_start_def Let_def)
  moreover have "cursor_inv C cfg ?first r ?st" "relayed_inv E S cfg events_of ?st"
    by (simp_all add: cursor_inv_def relayed_inv_def azero_start_def Let_def)
  ultimately show ?thesis by (auto simp: azero_inv_def)
qed

lemma azero_inv_step:
  assumes step: "azero_step L E S C N emergency cfg most_azero most_eth st st'"
    and inv: "azero_inv L E S C cfg most_azero events_of B first0 r0 st"
    and laws: "redis_law C" "azero_finalized_below N B" "fetch_law L N most_azero events_of"
      "window_room B (cfg_sync_step cfg)"
    and first0: "1 \<le> unat first0"
  shows "azero_inv L E S C cfg most_azero events_of B first0 r0 st'"
proof -
  have B: "B < 2 ^ 32" using laws(4) by (simp add: window_room_def)
  obtain front where front: "front_inv B first0 events_of L most_azero front st" "cover_inv first0 front st"
    using inv by (auto simp: azero_inv_def)
  have "front_inv B first0 events_of L most_azero (next_front front st st') st'"
    by (rule front_inv_step [OF step front(1) laws(2-4) first0])
  moreover have "cover_inv first0 (next_front front st st') st'" by (rule cover_step [OF step front B])
  moreover have "cursor_inv C cfg first0 r0 st'" "exact_inv C cfg st'"
    using inv cursor_inv_step [OF step front(1) _ laws(1) first0] exact_step [OF step front(1) _ laws(1) B first0]
    by (simp_all add: azero_inv_def)
  moreover have "task_inv E S cfg st'" "relayed_inv E S cfg events_of st'"
    using inv task_step [OF step] relayed_inv_step [OF step front(1)] by (simp_all add: azero_inv_def)
  ultimately show ?thesis unfolding azero_inv_def by blast
qed

lemma azero_reaches_inv:
  assumes run: "azero_reaches L E S C N emergency cfg most_azero most_eth (azero_start C cfg r) st"
    and laws: "redis_law C" "azero_finalized_below N B" "fetch_law L N most_azero events_of"
      "window_room B (cfg_sync_step cfg)"
    and start: "1 \<le> unat (azero_first_block C cfg r)" "unat (azero_first_block C cfg r) \<le> B"
  shows "azero_inv L E S C cfg most_azero events_of B (azero_first_block C cfg r) r st"
  using run
proof induction
  case refl
  show ?case using start(2) by (rule azero_start_inv)
next
  case (step st st')
  then show ?case using azero_inv_step [OF step(2) _ laws start(1)] by blast
qed

lemma azero_reaches_semaphore:
  assumes "azero_reaches L E S C N emergency cfg most_azero most_eth (azero_start C cfg r) st"
  shows "semaphore_inv (unat (cfg_azero_max_event_handler_tasks cfg)) st \<and> batch_inv st"
  using assms
proof induction
  case refl
  show ?case by (simp add: semaphore_inv_def batch_inv_def azero_start_def Let_def)
next
  case (step st st')
  then show ?case using semaphore_step [OF step(2)] batch_step [OF step(2)] by simp
qed

lemma cursor_exact:
  assumes inv: "azero_inv L E S C cfg inst events_of B first0 r0 st" and first0: "1 \<le> unat first0"
    and calm: "calm st" and sealed: "az_sealed st \<noteq> {}"
    and cursor: "redis_get C (redis_key (cfg_name cfg) ALEPH_LAST_BLOCK_KEY) (az_redis st) = Ok x"
  shows "{first0..x} \<subseteq> az_sealed st" and "x + 1 \<notin> az_sealed st"
    and "az_pc st = Waiting \<Longrightarrow> az_tasks st = [] \<Longrightarrow> x + 1 = az_first st"
proof -
  obtain front where front: "front_inv B first0 events_of L inst front st" "cover_inv first0 front st"
    using inv by (auto simp: azero_inv_def)
  have min: "x + 1 = Min (az_pending st)" using inv calm sealed cursor by (simp add: azero_inv_def exact_inv_def)
  have pending: "az_pending st = {first0..front} - az_sealed st" and "front \<in> az_pending st"
    using front(1) by (auto simp: front_inv_def)
  then have ne: "az_pending st \<noteq> {}" by blast
  have "Min (az_pending st) - 1 = x" using min by (simp add: eq_diff_eq [symmetric])
  with word_interval_below_Min(1) [OF pending ne first0] show "{first0..x} \<subseteq> az_sealed st" by simp
  have "Min (az_pending st) \<in> az_pending st" using ne by simp
  then show "x + 1 \<notin> az_sealed st" unfolding min pending by blast
  show "x + 1 = az_first st" if "az_pc st = Waiting" "az_tasks st = []"
  proof -
    have "az_first st = front" using front(1) that(1) by (simp add: front_inv_def)
    moreover have "{first0..<front} \<subseteq> az_sealed st" using front(2) calm that by (simp add: cover_inv_def unhandled_def)
    then have "az_pending st = {front}" using pending \<open>front \<in> az_pending st\<close> by fastforce
    ultimately show ?thesis using min by simp
  qed
qed

section \<open>The cursor of the listener\<close>

text \<open>A run from the start of the listener, against a node and a store that keep their promises.\<close>

definition azero_lawful_run ::
  "('c, 't, 'o, 'raw, 'w) aleph_lib \<Rightarrow> 'w eth_lib \<Rightarrow> ('p, 'w) eth_signed_lib \<Rightarrow> 'r redis \<Rightarrow> ('raw, 'w) azero_node
    \<Rightarrow> ('w \<Rightarrow> bool) \<Rightarrow> config \<Rightarrow> ('c, 't) most_instance \<Rightarrow> eth_address \<Rightarrow> (u32 \<Rightarrow> 'o contract_event list) \<Rightarrow> nat
    \<Rightarrow> ('r, 'raw, 'o) azero_state \<Rightarrow> ('r, 'raw, 'o) azero_state \<Rightarrow> bool" where
  "azero_lawful_run L E S C N emergency cfg most_azero most_eth events_of B st0 st \<longleftrightarrow>
     redis_law C \<and> azero_finalized_below N B \<and> fetch_law L N most_azero events_of \<and> window_room B (cfg_sync_step cfg) \<and>
     (\<exists>r. st0 = azero_start C cfg r \<and> 1 \<le> unat (azero_first_block C cfg r) \<and> unat (azero_first_block C cfg r) \<le> B) \<and>
     azero_reaches L E S C N emergency cfg most_azero most_eth st0 st"

interpretation azero_cursor: block_cursor C "cfg_name cfg" ALEPH_LAST_BLOCK_KEY
  "sync_deref (cfg_default_sync_from_block_azero cfg)" az_redis
  "azero_lawful_run L E S C N emergency cfg most_azero most_eth events_of B"
  "\<lambda>st0 st b. list_all (relayed E S cfg st) (events_of b)"
  for C cfg L E S N emergency most_azero most_eth events_of B
proof
  fix st0 st x
  assume "azero_lawful_run L E S C N emergency cfg most_azero most_eth events_of B st0 st"
    and cursor: "redis_get C (redis_key (cfg_name cfg) ALEPH_LAST_BLOCK_KEY) (az_redis st) = Ok x"
  then obtain r where laws: "redis_law C" "azero_finalized_below N B" "fetch_law L N most_azero events_of"
      "window_room B (cfg_sync_step cfg)" "1 \<le> unat (azero_first_block C cfg r)" "unat (azero_first_block C cfg r) \<le> B"
    and start: "st0 = azero_start C cfg r" and run: "azero_reaches L E S C N emergency cfg most_azero most_eth st0 st"
    unfolding azero_lawful_run_def by blast
  have inv: "azero_inv L E S C cfg most_azero events_of B (azero_first_block C cfg r) r st"
    by (rule azero_reaches_inv [OF run [unfolded start] laws])
  have st0: "az_redis st0 = r" by (simp add: start azero_start_def Let_def)
  from inv cursor consider "redis_get C (redis_key (cfg_name cfg) ALEPH_LAST_BLOCK_KEY) r = Ok x"
    | "{azero_first_block C cfg r..x} \<subseteq> az_sealed st"
    by (auto simp: azero_inv_def cursor_inv_def)
  then show "redis_get C (redis_key (cfg_name cfg) ALEPH_LAST_BLOCK_KEY) (az_redis st0) = Ok x \<or>
      (\<forall>b. read_first_unprocessed_block_number C (cfg_name cfg) ALEPH_LAST_BLOCK_KEY
          (sync_deref (cfg_default_sync_from_block_azero cfg)) (az_redis st0) \<le> b \<longrightarrow>
        b < x + 1 \<longrightarrow> list_all (relayed E S cfg st) (events_of b))"
  proof cases
    case 2
    then have "b \<in> az_sealed st" if "azero_first_block C cfg r \<le> b" "b < x + 1" for b
      using that less_succ_le by auto
    with inv st0 show ?thesis by (auto simp: azero_inv_def relayed_inv_def azero_first_block_def)
  qed (simp add: st0)
qed

section \<open>Restarts\<close>

text \<open>
  The listener asks to be restarted only when its vote reverted, the contract on Ethereum was found
  paused, and it was afterwards found running again.
\<close>

lemma restart_only_after_halt:
  assumes "azero_after_error S most_eth err w = Some (Err Az_BridgeHaltedRestartRequired, w')"
    and "err \<noteq> Az_BridgeHaltedRestartRequired"
  shows "err = Az_EthContractReverted \<and> (\<exists>w1. paused_call S most_eth w = (Ok True, w1)) \<and>
    (\<exists>v. paused_call S most_eth v = (Ok False, w'))"
proof -
  have wait: "\<exists>v. paused_call S most_eth v = (Ok False, w2)"
    if "wait_until_unpaused S most_eth w1 = Some (Ok (), w2)" for w1 w2
  proof -
    note waited = that
    obtain v where "ask_unpaused S most_eth v = (Some (Ok ()), w2)"
      using waited unfolding wait_until_unpaused_def by (rule poll_answer)
    then show ?thesis by (auto simp: ask_unpaused_def split: prod.splits result.splits if_splits)
  qed
  have refused: "wait_until_unpaused S most_eth w1 \<noteq> Some (Err Az_BridgeHaltedRestartRequired, w2)" for w1 w2
  proof
    assume "wait_until_unpaused S most_eth w1 = Some (Err Az_BridgeHaltedRestartRequired, w2)"
    then obtain v where "ask_unpaused S most_eth v = (Some (Err Az_BridgeHaltedRestartRequired), w2)"
      unfolding wait_until_unpaused_def by (rule poll_answer)
    then show False by (auto simp: ask_unpaused_def split: prod.splits result.splits if_splits)
  qed
  show ?thesis
    using assms wait refused
    by (auto simp: azero_after_error_def split: if_splits prod.splits result.splits option.splits)
qed

end
