(* ===== verification/Two_Chains.thy ===== *)
theory Two_Chains
  imports Vote_Refinement Azero_Runs
begin

text \<open>
  The two bridge contracts together, with the guardians between them: a transaction of anyone may run on
  either chain at any time; a guardian that runs the relayer votes on one chain for what the log of the
  other chain holds, with the message the relayer builds from it; the other accounts vote as they like.
\<close>

section \<open>What is announced\<close>

definition announced_on_eth :: "(u8 list \<Rightarrow> bytes32) \<Rightarrow> 'oz eth_most \<Rightarrow> bytes32 set" where
  "announced_on_eth K m =
     {hash_request_data K c t a r n |c t a r n.
        Eth_CrosschainTransferRequest (ucast c) t (ucast a) r (ucast n) \<in> set (eth_events m)}"

definition announced_on_azero :: "(u8 list \<Rightarrow> bytes32) \<Rightarrow> most \<Rightarrow> bytes32 set" where
  "announced_on_azero K m =
     {eth_request_hash K (ucast c) t (ucast a) r (ucast n) |c t a r n.
        CrosschainTransferRequest c t a r n \<in> set (most_events m)}"

section \<open>The votes a relayer casts\<close>

definition relayer_vote_azero :: "'w eth_lib \<Rightarrow> 'oz eth_most \<Rightarrow> most_msg \<Rightarrow> bool" where
  "relayer_vote_azero E m msg \<longleftrightarrow>
     (\<exists>committee t amount r nonce c a n.
        Eth_CrosschainTransferRequest committee t amount r nonce \<in> set (eth_events m) \<and>
        as_u128 E committee = Some c \<and> as_u128 E amount = Some a \<and> as_u128 E nonce = Some n \<and>
        msg = ReceiveRequest (eth_keccak E (eth_request_bytes c t a r n)) c t a r n)"

definition call_message :: "eth_call \<Rightarrow> eth_msg" where
  "call_message call =
     ReceiveRequest_Eth (call_request_hash call) (call_committee_id call) (call_dest_token_address call)
       (call_amount call) (call_dest_receiver_address call) (call_request_nonce call)"

definition relayer_vote_eth :: "'w eth_lib \<Rightarrow> ('p, 'w) eth_signed_lib \<Rightarrow> most \<Rightarrow> eth_msg \<Rightarrow> bool" where
  "relayer_vote_eth E S m msg \<longleftrightarrow>
     (\<exists>d cfg address nonce.
        CrosschainTransferRequest (tr_committee_id d) (tr_dest_token_address d) (tr_amount d)
          (tr_dest_receiver_address d) (tr_request_nonce d) \<in> set (most_events m) \<and>
        msg = call_message (azero_vote_call E S cfg address d nonce))"

lemma widen_narrow: "unat (x :: u256) < 2 ^ 128 \<Longrightarrow> (ucast (ucast x :: u128) :: u256) = x"
  by (rule word_unat_eq_iff [THEN iffD2])
     (simp add: unsigned_ucast_eq unsigned_take_bit_eq take_bit_nat_eq_self)

lemma relayer_vote_azero_announced:
  assumes "relayer_vote_azero E m (ReceiveRequest h c t a r n)" and "narrowing_law E"
  shows "h \<in> announced_on_eth (eth_keccak E) m"
proof -
  obtain committee amount nonce where ev: "Eth_CrosschainTransferRequest committee t amount r nonce \<in> set (eth_events m)"
    and narrow: "as_u128 E committee = Some c" "as_u128 E amount = Some a" "as_u128 E nonce = Some n"
    and h: "h = hash_request_data (eth_keccak E) c t a r n"
    using assms(1) by (auto simp: relayer_vote_azero_def eth_request_bytes_eq hash_request_data_def keccak256_def)
  have "ucast c = committee" "ucast a = amount" "ucast n = nonce"
    using narrow assms(2) widen_narrow by (auto simp: narrowing_law_def split: if_splits)
  with ev h show ?thesis unfolding announced_on_eth_def by blast
qed

lemma relayer_vote_eth_announced:
  assumes "relayer_vote_eth E S m (ReceiveRequest_Eth h c t a r n)" and "abi_law S"
  shows "h \<in> announced_on_azero (eth_keccak E) m"
proof -
  obtain d cfg address nonce where event: "CrosschainTransferRequest (tr_committee_id d) (tr_dest_token_address d) (tr_amount d)
      (tr_dest_receiver_address d) (tr_request_nonce d) \<in> set (most_events m)"
    and "ReceiveRequest_Eth h c t a r n = call_message (azero_vote_call E S cfg address d nonce)"
    using assms(1) unfolding relayer_vote_eth_def by blast
  then have "h = eth_request_hash (eth_keccak E) (ucast (tr_committee_id d)) (tr_dest_token_address d) (ucast (tr_amount d))
      (tr_dest_receiver_address d) (ucast (tr_request_nonce d))"
    by (simp add: call_message_def azero_vote_call_def azero_request_bytes_eq [OF assms(2)] eth_request_hash_def)
  with event show ?thesis unfolding announced_on_azero_def by blast
qed

section \<open>The steps of the two chains\<close>

text \<open>\<open>Da\<close> and \<open>De\<close> are the accounts on Aleph Zero and on Ethereum that may vote as they like.\<close>

definition azero_voting :: "'w eth_lib \<Rightarrow> account_id set \<Rightarrow> 'oz eth_most \<Rightarrow> call_env \<Rightarrow> most_msg \<Rightarrow> bool" where
  "azero_voting E Da m env msg \<longleftrightarrow>
     (\<forall>h c t a r n. msg = ReceiveRequest h c t a r n \<longrightarrow> caller env \<in> Da \<or> relayer_vote_azero E m msg)"

definition eth_voting ::
  "'w eth_lib \<Rightarrow> ('p, 'w) eth_signed_lib \<Rightarrow> eth_address set \<Rightarrow> most \<Rightarrow> eth_env \<Rightarrow> eth_msg \<Rightarrow> bool" where
  "eth_voting E S De m env msg \<longleftrightarrow> genuine_vote (eth_keccak E) env msg \<and>
     (\<forall>h c t a r n. msg = ReceiveRequest_Eth h c t a r n \<longrightarrow> msg_sender env \<in> De \<or> relayer_vote_eth E S m msg)"

inductive bridge_step ::
  "'w eth_lib \<Rightarrow> ('p, 'w) eth_signed_lib \<Rightarrow> 'oz oz_lib \<Rightarrow> account_id set \<Rightarrow> eth_address set
    \<Rightarrow> 'd chain \<times> ('oz, 'x) eth_world \<Rightarrow> 'd chain \<times> ('oz, 'x) eth_world \<Rightarrow> bool"
  for E :: "'w eth_lib" and S :: "('p, 'w) eth_signed_lib" and Z :: "'oz oz_lib" and Da De where
  azero_transaction: "id_headroom (bridge w) \<Longrightarrow> azero_voting E Da (emost e) env msg \<Longrightarrow>
     bridge_step E S Z Da De (w, e) (most_tx (eth_keccak E) P R env msg w, e)"
| azero_elsewhere: "bridge w' = bridge w \<Longrightarrow> bridge_step E S Z Da De (w, e) (w', e)"
| ethereum: "eth_evolves (eth_keccak E) Z (eth_voting E S De (bridge w)) e e' \<Longrightarrow>
     bridge_step E S Z Da De (w, e) (w, e')"

definition both_deployed ::
  "(u8 list \<Rightarrow> bytes32) \<Rightarrow> 'oz oz_lib \<Rightarrow> 'd chain \<times> ('oz, 'x) eth_world \<Rightarrow> bool" where
  "both_deployed K Z s \<longleftrightarrow> eth_deployed K Z (emost (snd s)) \<and>
     (\<exists>code committee threshold pocket usage pmin pmax pdefault orc who.
        most_new code committee threshold pocket usage pmin pmax pdefault orc who = Ok (bridge (fst s)) \<and>
        length committee < 2 ^ 32)"

definition two_inv :: "(u8 list \<Rightarrow> bytes32) \<Rightarrow> ('oz \<Rightarrow> bool) \<Rightarrow> 'd chain \<times> ('oz, 'x) eth_world \<Rightarrow> bool" where
  "two_inv K init s \<longleftrightarrow> bridge_inv K (bridge (fst s)) \<and> eth_most_inv K {} (emost (snd s)) \<and> init (oz_state (emost (snd s)))"

text \<open>A step between sound states, under the laws of the libraries.\<close>

definition sound_step ::
  "'w eth_lib \<Rightarrow> ('p, 'w) eth_signed_lib \<Rightarrow> 'oz oz_lib \<Rightarrow> ('oz \<Rightarrow> bool) \<Rightarrow> account_id set \<Rightarrow> eth_address set
    \<Rightarrow> 'd chain \<times> ('oz, 'x) eth_world \<Rightarrow> 'd chain \<times> ('oz, 'x) eth_world \<Rightarrow> bool" where
  "sound_step E S Z init Da De s s' \<longleftrightarrow>
     narrowing_law E \<and> abi_law S \<and> initializer_law Z init \<and> two_inv (eth_keccak E) init s \<and> bridge_step E S Z Da De s s'"

section \<open>Invariants of the two chains\<close>

lemma eth_voting_genuine: "eth_voting E S De m env msg \<Longrightarrow> genuine_vote (eth_keccak E) env msg"
  by (simp add: eth_voting_def)

lemma most_tx_inv:
  assumes "bridge_inv K (bridge w)" and "id_headroom (bridge w)"
  shows "bridge_inv K (bridge (most_tx K L R env msg w))" and "bridge_effect K (bridge w) (bridge (most_tx K L R env msg w))"
proof -
  obtain d where "data_cell (bridge w) = Some d" using assms(2) by (auto simp: id_headroom_def split: option.splits)
  from most_tx_effect [OF this] show eff: "bridge_effect K (bridge w) (bridge (most_tx K L R env msg w))" .
  from bridge_inv_effect [OF eff assms] show "bridge_inv K (bridge (most_tx K L R env msg w))" .
qed

lemma two_inv_step:
  assumes "sound_step E S Z init Da De s s'"
  shows "two_inv (eth_keccak E) init s'"
proof -
  have "bridge_step E S Z Da De s s'" and inv: "two_inv (eth_keccak E) init s" and law: "initializer_law Z init"
    using assms by (simp_all add: sound_step_def)
  then show ?thesis
  proof (induction rule: bridge_step.induct)
    case (azero_transaction w e env msg P R)
    then have "bridge_inv (eth_keccak E) (bridge (most_tx (eth_keccak E) P R env msg w))"
      by (intro most_tx_inv(1)) (simp_all add: two_inv_def)
    with azero_transaction show ?case by (simp add: two_inv_def)
  next
    case (ethereum w e e')
    then show ?case
      using eth_evolves_ballots(1) [OF ethereum(1) law _ _ eth_voting_genuine] by (simp add: two_inv_def)
  qed (simp add: two_inv_def)
qed

lemma two_inv_deployed: "both_deployed K Z s \<Longrightarrow> initializer_law Z init \<Longrightarrow> two_inv K init s"
  using eth_deployed_inv bridge_inv_new by (fastforce simp: both_deployed_def two_inv_def)

lemma sound_steps:
  assumes "(bridge_step E S Z Da De)\<^sup>*\<^sup>* s s'" and "two_inv (eth_keccak E) init s"
    and "narrowing_law E" "abi_law S" "initializer_law Z init"
  shows "(sound_step E S Z init Da De)\<^sup>*\<^sup>* s s' \<and> two_inv (eth_keccak E) init s'"
  using assms(1)
proof (induction rule: rtranclp_induct)
  case (step u v)
  then have "sound_step E S Z init Da De u v" using assms by (simp add: sound_step_def)
  with step.IH show ?case using two_inv_step by (meson rtranclp.rtrancl_into_rtrancl)
qed (use assms in simp)

section \<open>Logs and quorums only grow\<close>

lemma eth_atom_events: "eth_atom K init G s s' \<Longrightarrow> set (eth_events (snd s)) \<subseteq> set (eth_events (snd s'))"
  by (induction rule: eth_atom.induct) (auto simp: quiet_def)

lemma eth_evolves_events:
  assumes "eth_evolves K Z G e e'" and "initializer_law Z init" and "init (oz_state (emost e))"
  shows "set (eth_events (emost e)) \<subseteq> set (eth_events (emost e'))"
proof -
  have "(eth_atom K init G)\<^sup>*\<^sup>* ({}, emost e) ({}, emost e')"
    using eth_evolves_tame [OF assms(1,2)] assms(3) by (simp add: tame_def in_flight_def)
  then have "set (eth_events (snd ({} :: bytes32 set, emost e))) \<subseteq> set (eth_events (snd ({} :: bytes32 set, emost e')))"
    by (induction rule: rtranclp_induct) (use eth_atom_events in blast)+
  then show ?thesis by simp
qed

lemma bridge_effect_events: "bridge_effect K m m' \<Longrightarrow> set (most_events m) \<subseteq> set (most_events m')"
  by (induction rule: bridge_effect.induct) auto

lemma quorums_azero_effect:
  assumes "bridge_effect K m m'" and "committee_inv m" and "id_headroom m"
  shows "quorums_azero m \<subseteq> quorums_azero m'"
  using assms
proof (induction rule: bridge_effect.induct)
  case (eff_committee m d committee threshold u cid)
  then have "\<not> cid \<le> d_committee_id d" using word_Suc_fresh(1) [of "d_committee_id d"] by (simp add: id_headroom_def)
  then have "signature_thresholds m cid = None"
    using eff_committee(1,4) by (cases "signature_thresholds m cid") (auto simp: committee_inv_def)
  then have "signature_thresholds m c = Some q \<Longrightarrow> ((signature_thresholds m)(cid \<mapsto> threshold)) c = Some q" for c q by auto
  then show ?case unfolding quorums_azero_def by fastforce
qed (auto simp: quorums_azero_def same_books_def)

lemma announced_step:
  assumes "sound_step E S Z init Da De s s'"
  shows "announced_on_eth (eth_keccak E) (emost (snd s)) \<subseteq> announced_on_eth (eth_keccak E) (emost (snd s'))"
    and "announced_on_azero (eth_keccak E) (bridge (fst s)) \<subseteq> announced_on_azero (eth_keccak E) (bridge (fst s'))"
proof -
  have step: "bridge_step E S Z Da De s s'" and inv: "two_inv (eth_keccak E) init s" and law: "initializer_law Z init"
    using assms by (simp_all add: sound_step_def)
  from step inv have "set (eth_events (emost (snd s))) \<subseteq> set (eth_events (emost (snd s'))) \<and>
      set (most_events (bridge (fst s))) \<subseteq> set (most_events (bridge (fst s')))"
  proof (induction rule: bridge_step.induct)
    case (azero_transaction w e env msg P R)
    then have "bridge_effect (eth_keccak E) (bridge w) (bridge (most_tx (eth_keccak E) P R env msg w))"
      by (intro most_tx_inv(2)) (simp_all add: two_inv_def)
    then show ?case using bridge_effect_events by simp
  next
    case (ethereum w e e')
    then show ?case using eth_evolves_events [OF ethereum(1) law] by (simp add: two_inv_def)
  qed simp
  then show "announced_on_eth (eth_keccak E) (emost (snd s)) \<subseteq> announced_on_eth (eth_keccak E) (emost (snd s'))"
    "announced_on_azero (eth_keccak E) (bridge (fst s)) \<subseteq> announced_on_azero (eth_keccak E) (bridge (fst s'))"
    unfolding announced_on_eth_def announced_on_azero_def by blast+
qed

lemma quorums_azero_step:
  assumes "sound_step E S Z init Da De s s'"
  shows "quorums_azero (bridge (fst s)) \<subseteq> quorums_azero (bridge (fst s'))"
proof -
  have "bridge_step E S Z Da De s s'" "two_inv (eth_keccak E) init s" using assms by (simp_all add: sound_step_def)
  then show ?thesis
  proof (induction rule: bridge_step.induct)
    case (azero_transaction w e env msg P R)
    then have inv: "bridge_inv (eth_keccak E) (bridge w)" by (simp add: two_inv_def)
    show ?case
      using quorums_azero_effect [OF most_tx_inv(2) [OF inv azero_transaction(1)] _ azero_transaction(1)] inv
      by (simp add: bridge_inv_def)
  qed simp_all
qed

lemma azero_step_ballots:
  assumes "sound_step E S Z init Da De s s'"
  shows "\<exists>bs. abs_votes (bridge (fst s')) = count_ballots bs (abs_votes (bridge (fst s))) \<and>
      (\<forall>(h, a, q)\<in>set bs. q \<in> quorums_azero (bridge (fst s')) \<and>
         (a \<notin> Da \<longrightarrow> h \<in> announced_on_eth (eth_keccak E) (emost (snd s))))"
proof -
  let ?K = "eth_keccak E"
  have step: "bridge_step E S Z Da De s s'" and inv: "two_inv ?K init s" and law: "narrowing_law E"
    using assms by (simp_all add: sound_step_def)
  have idle: ?thesis if "abs_votes (bridge (fst s')) = abs_votes (bridge (fst s))"
    using that by (intro exI [of _ "[]"]) simp
  from step show ?thesis
  proof cases
    case (azero_transaction w e env msg P R)
    then have "bridge_inv ?K (bridge w)" using inv by (simp add: two_inv_def)
    from most_tx_ballot [OF this, of P R env msg] show ?thesis
    proof
      assume "abs_votes (bridge (most_tx ?K P R env msg w)) = abs_votes (bridge w)"
      then show ?thesis using idle azero_transaction by simp
    next
      assume "\<exists>h c t a r n q. msg = ReceiveRequest h c t a r n \<and> q \<in> quorums_azero (bridge w) \<and>
        abs_votes (bridge (most_tx ?K P R env msg w)) = cast_vote q h (caller env) (abs_votes (bridge w))"
      then obtain h c t a r n q where vote: "msg = ReceiveRequest h c t a r n" "q \<in> quorums_azero (bridge w)"
        "abs_votes (bridge (most_tx ?K P R env msg w)) = cast_vote q h (caller env) (abs_votes (bridge w))" by blast
      moreover have "caller env \<notin> Da \<longrightarrow> h \<in> announced_on_eth ?K (emost e)"
        using azero_transaction(4) vote(1) relayer_vote_azero_announced law by (auto simp: azero_voting_def)
      moreover have "q \<in> quorums_azero (bridge (fst s'))"
        using quorums_azero_step [OF assms] vote(2) azero_transaction(1) by auto
      ultimately show ?thesis using azero_transaction(1,2) by (intro exI [of _ "[(h, caller env, q)]"]) simp
    qed
  qed (use idle in simp_all)
qed

lemma eth_step_ballots:
  assumes "sound_step E S Z init Da De s s'"
  shows "\<exists>bs. abs_votes_eth (emost (snd s')) = count_ballots bs (abs_votes_eth (emost (snd s))) \<and>
      quorums_eth (emost (snd s)) \<subseteq> quorums_eth (emost (snd s')) \<and>
      (\<forall>(h, a, q)\<in>set bs. q \<in> quorums_eth (emost (snd s')) \<and>
         (a \<notin> De \<longrightarrow> h \<in> announced_on_azero (eth_keccak E) (bridge (fst s))))"
proof -
  let ?K = "eth_keccak E"
  have step: "bridge_step E S Z Da De s s'" and inv: "two_inv ?K init s" and laws: "abi_law S" "initializer_law Z init"
    using assms by (simp_all add: sound_step_def)
  have idle: ?thesis if "emost (snd s') = emost (snd s)"
    using that by (intro exI [of _ "[]"]) simp
  from step show ?thesis
  proof cases
    case (ethereum w e e')
    have "h \<in> announced_on_azero ?K (bridge w)" if "may_vote (eth_voting E S De (bridge w)) h a" "a \<notin> De" for h a
      using that relayer_vote_eth_announced [OF _ laws(1)] unfolding may_vote_def eth_voting_def by blast
    moreover obtain bs where "abs_votes_eth (emost e') = count_ballots bs (abs_votes_eth (emost e))"
      "quorums_eth (emost e) \<subseteq> quorums_eth (emost e')"
      "\<forall>(h, a, q)\<in>set bs. q \<in> quorums_eth (emost e') \<and> may_vote (eth_voting E S De (bridge w)) h a"
      using eth_evolves_ballots(2) [OF ethereum(3) laws(2) _ _ eth_voting_genuine [of E S De "bridge w"]] inv ethereum(1)
      by (auto simp: two_inv_def)
    ultimately show ?thesis using ethereum(1,2) by (intro exI [of _ bs]) auto
  qed (use idle in simp_all)
qed

section \<open>Both contracts count ballots\<close>

interpretation azero_ballots: vote_counter
  "sound_step E S Z init Da De" "\<lambda>s. abs_votes (bridge (fst s))" "\<lambda>s. quorums_azero (bridge (fst s))"
  "\<lambda>s. announced_on_eth (eth_keccak E) (emost (snd s))" Da
  for E :: "'w eth_lib" and S :: "('p, 'w) eth_signed_lib" and Z :: "'oz oz_lib" and init Da De
  by unfold_locales (rule azero_step_ballots quorums_azero_step announced_step(1), assumption)+

interpretation eth_ballots: vote_counter
  "sound_step E S Z init Da De" "\<lambda>s. abs_votes_eth (emost (snd s))" "\<lambda>s. quorums_eth (emost (snd s))"
  "\<lambda>s. announced_on_azero (eth_keccak E) (bridge (fst s))" De
  for E :: "'w eth_lib" and S :: "('p, 'w) eth_signed_lib" and Z :: "'oz oz_lib" and init Da De
proof
  fix s s' assume step: "sound_step E S Z init Da De s s'"
  from eth_step_ballots [OF step] show "\<exists>bs. abs_votes_eth (emost (snd s')) = count_ballots bs (abs_votes_eth (emost (snd s))) \<and>
      (\<forall>(h, a, q)\<in>set bs. q \<in> quorums_eth (emost (snd s')) \<and>
         (a \<notin> De \<longrightarrow> h \<in> announced_on_azero (eth_keccak E) (bridge (fst s))))"
    and "quorums_eth (emost (snd s)) \<subseteq> quorums_eth (emost (snd s'))" by blast+
  from announced_step(2) [OF step]
  show "announced_on_azero (eth_keccak E) (bridge (fst s)) \<subseteq> announced_on_azero (eth_keccak E) (bridge (fst s'))" .
qed

section \<open>No forged transfers\<close>

lemma most_new_votes:
  "most_new code committee threshold pocket usage pmin pmax pdefault orc who = Ok m \<Longrightarrow>
     abs_votes m = \<lparr>voters = (\<lambda>_. {}), executed = {}\<rparr>"
  by (auto simp: most_new_def result_elims Let_def abs_votes_def signers_def [abs_def])

lemma eth_deployed_votes: "eth_deployed K Z m \<Longrightarrow> abs_votes_eth m = \<lparr>voters = (\<lambda>_. {}), executed = {}\<rparr>"
  by (auto simp: eth_deployed_def initialize_most_def result_elims blank_most_def abs_votes_eth_def
      eth_signers_def [abs_def] hasSignedRequest_def)

lemma deployed_backed:
  assumes "both_deployed K Z s"
  shows "backed Da A (abs_votes (bridge (fst s)))" and "backed De B (abs_votes_eth (emost (snd s)))"
  using assms most_new_votes eth_deployed_votes by (fastforce simp: both_deployed_def backed_def)+

lemma executed_announced_both:
  assumes "(bridge_step E S Z Da De)\<^sup>*\<^sup>* s s'" and "both_deployed (eth_keccak E) Z s"
    and "narrowing_law E" "abi_law S" "initializer_law Z init" and "finite Da" "finite De"
    and "\<forall>q\<in>quorums_azero (bridge (fst s')). card Da < q" and "\<forall>q\<in>quorums_eth (emost (snd s')). card De < q"
  shows "executed (abs_votes (bridge (fst s'))) \<subseteq> announced_on_eth (eth_keccak E) (emost (snd s'))"
    and "executed (abs_votes_eth (emost (snd s'))) \<subseteq> announced_on_azero (eth_keccak E) (bridge (fst s'))"
proof -
  have run: "(sound_step E S Z init Da De)\<^sup>*\<^sup>* s s'"
    using sound_steps [OF assms(1) two_inv_deployed [OF assms(2,5)] assms(3-5)] by blast
  show "executed (abs_votes (bridge (fst s'))) \<subseteq> announced_on_eth (eth_keccak E) (emost (snd s'))"
    using azero_ballots.executed_announced [OF run deployed_backed(1) [OF assms(2)] assms(6,8)] by blast
  show "executed (abs_votes_eth (emost (snd s'))) \<subseteq> announced_on_azero (eth_keccak E) (bridge (fst s'))"
    using eth_ballots.executed_announced [OF run deployed_backed(2) [OF assms(2)] assms(7,9)] by blast
qed

end
