(* ===== verification/Eth_Network.thy ===== *)
theory Eth_Network
  imports Two_Chains
begin

text \<open>
  The relayers and the Ethereum contract together, in the direction from Aleph Zero to Ethereum: a
  relayer that has handled an event successfully had its vote executed by the contract, and enough of
  them execute the request, whatever else happens on the chain.
\<close>

section \<open>What the client library promises\<close>

text \<open>
  A transaction that was sent to the contract and whose receipt does not report a failure was executed
  in between, by the signer's account and without value; and asking the node for a nonce, for the
  finalized block or for a transaction does nothing but let the chain move on.
\<close>

definition eth_submission_law ::
  "('p, 'w) eth_signed_lib \<Rightarrow> ('w \<Rightarrow> ('oz, 'x) eth_world) \<Rightarrow> (u8 list \<Rightarrow> bytes32) \<Rightarrow> 'oz oz_lib
    \<Rightarrow> (eth_env \<Rightarrow> eth_msg \<Rightarrow> bool) \<Rightarrow> eth_address \<Rightarrow> eth_address \<Rightarrow> bool" where
  "eth_submission_law S view K Z G most_address signer \<longleftrightarrow>
     (\<forall>call u p u' confirmations retries receipt u''.
        send_tx S call u = (Ok p, u') \<longrightarrow> call_to call = most_address \<longrightarrow>
        await_confirmations S p confirmations retries u' = (Ok (Some receipt), u'') \<longrightarrow> status receipt \<noteq> Some 0 \<longrightarrow>
        (\<exists>X env v v'. msg_sender env = signer \<and> msg_value env = 0 \<and> G env (call_message call) \<and>
           (\<forall>c x data x'. external_call X c x = Some (data, x') \<longrightarrow> eth_evolves K Z G x x') \<and>
           eth_evolves K Z G (view u) v \<and> eth_dispatch K Z X env (call_message call) v = Ok v' \<and>
           eth_evolves K Z G v' (view u'')))"

definition eth_query_law ::
  "'w eth_lib \<Rightarrow> ('p, 'w) eth_signed_lib \<Rightarrow> ('w \<Rightarrow> ('oz, 'x) eth_world) \<Rightarrow> 'oz oz_lib
    \<Rightarrow> (eth_env \<Rightarrow> eth_msg \<Rightarrow> bool) \<Rightarrow> bool" where
  "eth_query_law E S view Z G \<longleftrightarrow>
     (\<forall>w. eth_evolves (eth_keccak E) Z G (view w) (view (snd (next_nonce S w))) \<and>
          eth_evolves (eth_keccak E) Z G (view w) (view (snd (get_block_finalized E w))) \<and>
          (\<forall>tx. eth_evolves (eth_keccak E) Z G (view w) (view (snd (get_transaction S tx w)))))"

section \<open>Waiting lets the chain move on\<close>

lemma poll_related:
  assumes "poll ask w = Some (a, w')" and "\<And>w. P w w" and "\<And>u v w. P u v \<Longrightarrow> P v w \<Longrightarrow> P u w"
    and "\<And>w. P w (snd (ask w))"
  shows "P w w'"
proof -
  obtain k where k: "answered_after ask k w a w'" using assms(1) poll_iff by metis
  have "P w (asked ask k w)" for w by (induction k arbitrary: w) (auto intro: assms)
  moreover have "w' = snd (ask (asked ask k w))" using k by (simp add: answered_after_def)
  ultimately show ?thesis using assms(3,4) by blast
qed

lemma ask_finalized_eth_world: "snd (ask_finalized_eth E n w) = snd (get_block_finalized E w)"
  by (auto simp: ask_finalized_eth_def split: prod.splits result.splits option.splits)

lemma next_finalized_evolves:
  assumes "get_next_finalized_block_number_eth E n w = Some (r, w')" and "eth_query_law E S view Z G"
  shows "eth_evolves (eth_keccak E) Z G (view w) (view w')"
proof (rule poll_related [OF assms(1) [unfolded get_next_finalized_block_number_eth_def]])
  fix w show "eth_evolves (eth_keccak E) Z G (view w) (view (snd (ask_finalized_eth E n w)))"
    unfolding ask_finalized_eth_world using assms(2) by (simp add: eth_query_law_def)
qed (auto intro: eth_evolves.still eth_evolves_trans)

lemma ask_tx_finality_evolves:
  assumes "ask_tx_finality E S tx w = Some (r, w')" and law: "eth_query_law E S view Z G"
  shows "eth_evolves (eth_keccak E) Z G (view w) (view w')"
proof -
  obtain r1 w1 where first: "get_next_finalized_block_number_eth E 0 w = Some (r1 :: (u32, azero_listener_error) result, w1)"
    and second: "w' = w1 \<or> w' = snd (get_transaction S tx w1)"
    using assms(1) by (auto simp: ask_tx_finality_def split: option.splits prod.splits result.splits)
  have "eth_evolves (eth_keccak E) Z G (view w) (view w1)" using next_finalized_evolves [OF first law] .
  then show ?thesis using second law by (auto simp: eth_query_law_def intro: eth_evolves_trans)
qed

lemma wait_for_eth_tx_finality_evolves:
  assumes "wait_for_eth_tx_finality E S tx w = Some rw" and "eth_query_law E S view Z G"
  shows "eth_evolves (eth_keccak E) Z G (view w) (view (snd rw))"
proof -
  have "eth_query_law E S view Z G \<longrightarrow> eth_evolves (eth_keccak E) Z G (view w) (view (snd rw))"
    using assms(1)
  proof (rule wait_for_eth_tx_finality.raw_induct [rotated])
    fix rec and E :: "'a eth_lib" and S :: "('b, 'a) eth_signed_lib" and tx w rw
    assume ih: "\<And>E S tx w rw. rec E S tx w = Some rw \<Longrightarrow>
        eth_query_law E S view Z G \<longrightarrow> eth_evolves (eth_keccak E) Z G (view w) (view (snd rw))"
      and step: "(case ask_tx_finality E S tx w of None \<Rightarrow> None | Some (None, w') \<Rightarrow> rec E S tx w'
          | Some (Some r, w') \<Rightarrow> Some (r, w')) = Some rw"
    obtain r w' where ask: "ask_tx_finality E S tx w = Some (r, w')" using step by (auto split: option.splits)
    show "eth_query_law E S view Z G \<longrightarrow> eth_evolves (eth_keccak E) Z G (view w) (view (snd rw))"
    proof
      assume law: "eth_query_law E S view Z G"
      have first: "eth_evolves (eth_keccak E) Z G (view w) (view w')" using ask_tx_finality_evolves [OF ask law] .
      show "eth_evolves (eth_keccak E) Z G (view w) (view (snd rw))"
      proof (cases r)
        case None
        then have "eth_evolves (eth_keccak E) Z G (view w') (view (snd rw))" using ih law step ask by simp
        then show ?thesis using first by (rule eth_evolves_trans)
      qed (use first step ask in auto)
    qed
  qed
  with assms(2) show ?thesis by simp
qed

section \<open>A handled event is a vote\<close>

text \<open>The hash under which the Ethereum contract files a request announced on Aleph Zero.\<close>

definition widened_hash :: "(u8 list \<Rightarrow> bytes32) \<Rightarrow> transfer_request \<Rightarrow> bytes32" where
  "widened_hash K d = eth_request_hash K (ucast (tr_committee_id d)) (tr_dest_token_address d) (ucast (tr_amount d))
     (tr_dest_receiver_address d) (ucast (tr_request_nonce d))"

definition widened_vote :: "(u8 list \<Rightarrow> bytes32) \<Rightarrow> transfer_request \<Rightarrow> eth_msg" where
  "widened_vote K d = ReceiveRequest_Eth (widened_hash K d) (ucast (tr_committee_id d)) (tr_dest_token_address d)
     (ucast (tr_amount d)) (tr_dest_receiver_address d) (ucast (tr_request_nonce d))"

lemma call_message_widened:
  "abi_law S \<Longrightarrow> call_message (azero_vote_call E S cfg address d nonce) = widened_vote (eth_keccak E) d"
  by (simp add: call_message_def azero_vote_call_def widened_vote_def widened_hash_def azero_request_bytes_eq eth_request_hash_def)

lemma azero_handled_event_votes:
  assumes handled: "azero_handle_event E S cfg event w = Some (Ok (), w')"
    and event: "event_name event = Some ''CrosschainTransferRequest''" "get_request_event_data (event_data event) = Ok d"
    and address: "parse_address E (cfg_eth_contract_address cfg) = Ok most_address"
    and laws: "abi_law S" "eth_query_law E S view Z G" "eth_submission_law S view (eth_keccak E) Z G most_address signer"
  shows "\<exists>X env v v'. msg_sender env = signer \<and> msg_value env = 0 \<and> G env (widened_vote (eth_keccak E) d) \<and>
    (\<forall>c x data x'. external_call X c x = Some (data, x') \<longrightarrow> eth_evolves (eth_keccak E) Z G x x') \<and>
    eth_evolves (eth_keccak E) Z G (view w) v \<and>
    eth_dispatch (eth_keccak E) Z X env (widened_vote (eth_keccak E) d) v = Ok v' \<and>
    eth_evolves (eth_keccak E) Z G v' (view w')"
proof -
  let ?K = "eth_keccak E"
  obtain nonce w1 p w2 receipt w3 where nonce: "next_nonce S w = (nonce, w1)"
    and sent: "send_tx S (azero_vote_call E S cfg most_address d nonce) w1 = (Ok p, w2)"
    and mined: "await_confirmations S p (cfg_eth_tx_min_confirmations cfg) (cfg_eth_tx_submission_retries cfg) w2 =
      (Ok (Some receipt), w3)" "status receipt \<noteq> Some 0"
    and final: "wait_for_eth_tx_finality E S (transaction_hash receipt) w3 = Some (Ok (), w')"
    using handled event address
    by (auto simp: azero_handle_event_def split: prod.splits result.splits option.splits if_splits)
  have to: "call_to (azero_vote_call E S cfg most_address d nonce) = most_address" by (simp add: azero_vote_call_def)
  obtain X env v v' where vote: "msg_sender env = signer" "msg_value env = 0" "G env (widened_vote ?K d)"
      "\<forall>c x data x'. external_call X c x = Some (data, x') \<longrightarrow> eth_evolves ?K Z G x x'"
      "eth_evolves ?K Z G (view w1) v" "eth_dispatch ?K Z X env (widened_vote ?K d) v = Ok v'"
      "eth_evolves ?K Z G v' (view w3)"
    using laws(3) [unfolded eth_submission_law_def, rule_format, OF sent to mined]
    unfolding call_message_widened [OF laws(1)] by blast
  have "eth_evolves ?K Z G (view w) v"
    using laws(2) nonce vote(5) unfolding eth_query_law_def by (metis eth_evolves_trans snd_conv)
  moreover have "eth_evolves ?K Z G v' (view w')"
    using wait_for_eth_tx_finality_evolves [OF final laws(2)] vote(7) eth_evolves_trans by fastforce
  ultimately show ?thesis using vote by blast
qed

section \<open>Votes are never lost\<close>

definition seen :: "bytes32 \<Rightarrow> eth_address \<Rightarrow> 'oz eth_most \<Rightarrow> bool" where
  "seen h a m \<longleftrightarrow> processedRequests m h \<or> a \<in> eth_signers m h"

text \<open>
  A request that is not processed has fewer signers than the threshold of committee \<open>c\<close>, as long as all
  votes for its hash name that committee.
\<close>

definition below_quorum :: "bytes32 \<Rightarrow> u256 \<Rightarrow> u256 \<Rightarrow> 'oz eth_most \<Rightarrow> bool" where
  "below_quorum h c threshold m \<longleftrightarrow> c \<le> committeeId m \<and> signatureThreshold m c = threshold \<and>
     (processedRequests m h \<or> card (eth_signers m h) < unat threshold)"

definition one_committee :: "(eth_env \<Rightarrow> eth_msg \<Rightarrow> bool) \<Rightarrow> bytes32 \<Rightarrow> u256 \<Rightarrow> bool" where
  "one_committee G h c \<longleftrightarrow> (\<forall>env c' t a r n. G env (ReceiveRequest_Eth h c' t a r n) \<longrightarrow> c' = c)"

lemma seen_atom: "eth_atom K init G s s' \<Longrightarrow> seen h a (snd s) \<Longrightarrow> seen h a (snd s')"
  by (induction rule: eth_atom.induct) (auto simp: seen_def quiet_views)

lemma seen_atoms: "(eth_atom K init G)\<^sup>*\<^sup>* s s' \<Longrightarrow> seen h a (snd s) \<Longrightarrow> seen h a (snd s')"
  by (induction rule: rtranclp_induct) (auto dest: seen_atom)

lemma below_quorum_atom:
  assumes "eth_atom K init G s s'" and "below_quorum h c threshold (snd s)" and "eth_vote_inv K (snd s)" and "one_committee G h c"
  shows "below_quorum h c threshold (snd s')"
  using assms
proof (induction rule: eth_atom.induct)
  case (atom_counted env h' c' t a r n m count F)
  have "card (insert (msg_sender env) (eth_signers m h')) = unat count"
    using eth_vote_card [OF _ atom_counted(4-6)] atom_counted by simp
  moreover have "h' = h \<Longrightarrow> c' = c" using atom_counted(1,10) unfolding one_committee_def by blast
  ultimately show ?case using atom_counted(7,8) by (auto simp: below_quorum_def word_less_nat_alt)
next
  case (atom_committee c' m q accounts members F)
  then have "c \<noteq> c'" "c \<le> committeeId m \<Longrightarrow> c \<le> c'" by (auto simp: below_quorum_def word_le_nat_alt)
  with atom_committee show ?case by (simp add: below_quorum_def)
qed (auto simp: below_quorum_def quiet_views)

lemma seen_evolves:
  assumes "eth_evolves K Z G w w'" and "initializer_law Z init" and "init (oz_state (emost w))" and "seen h a (emost w)"
  shows "seen h a (emost w')"
proof -
  have "(eth_atom K init G)\<^sup>*\<^sup>* ({}, emost w) ({}, emost w')"
    using eth_evolves_tame [OF assms(1,2)] assms(3) by (simp add: tame_def in_flight_def)
  from seen_atoms [OF this, of h a] assms(4) show ?thesis by simp
qed

lemma below_quorum_evolves:
  assumes "eth_evolves K Z G w w'" and "initializer_law Z init" and "init (oz_state (emost w))" and "eth_most_inv K {} (emost w)"
    and "below_quorum h c threshold (emost w)" and "one_committee G h c"
  shows "below_quorum h c threshold (emost w')"
proof -
  have "(eth_atom K init G)\<^sup>*\<^sup>* ({}, emost w) ({}, emost w')"
    using eth_evolves_tame [OF assms(1,2)] assms(3) by (simp add: tame_def in_flight_def)
  then have "below_quorum h c threshold (snd ({} :: bytes32 set, emost w'))"
  proof (induction rule: rtranclp_induct)
    case (step u v)
    then have "eth_vote_inv K (snd u)" using eth_most_inv_atoms [OF step(1)] assms(4) by (simp add: eth_most_inv_def)
    with step assms(6) show ?case using below_quorum_atom by blast
  qed (use assms(5) in simp)
  then show ?thesis by simp
qed

text \<open>A vote that does not revert is seen, even when the request's execution calls back into the contract.\<close>

lemma vote_seen:
  assumes "eth_dispatch K Z X env (ReceiveRequest_Eth h c t a r n) w = Ok w'" and h: "h = eth_request_hash K c t a r n"
    and "initializer_law Z init" and "init (oz_state (emost w))"
    and calls: "\<forall>c x data x'. external_call X c x = Some (data, x') \<longrightarrow> eth_evolves K Z G x x'"
  shows "seen h (msg_sender env) (emost w')"
proof -
  let ?s = "msg_sender env"
  have run: "receiveRequest K Z X env h c t a r n w = Ok w'" using assms(1) by (auto simp: eth_dispatch_def result_elims)
  show ?thesis
  proof (cases "processedRequests (emost w) h \<or> hasSignedRequest ?s h (emost w)")
    case True
    then have "w' = emit_eth (Eth_ProcessedRequestSigned h ?s) w \<or> w' = emit_eth (Eth_RequestAlreadySigned h ?s) w"
      using run h by (auto simp: receiveRequest_def result_elims hasSignedRequest_def Let_def split: if_splits)
    with True show ?thesis by (auto simp: seen_def hasSignedRequest_signers)
  next
    case False
    then have vote: "\<not> processedRequests (emost w) h" "\<not> hasSignedRequest ?s (eth_request_hash K c t a r n) (emost w)" using h by simp_all
    from run vote show ?thesis
    proof (cases rule: receiveRequest_counts)
      case (counted count)
      then show ?thesis by (simp add: seen_def)
    next
      case (executed count v)
      let ?v = "on_most (\<lambda>m. settled h (voted h ?s count m)) w"
      have "tame K init G ?v v"
        using drift_tame [OF return_locked_drift [OF executed(4)]] calls eth_evolves_tame [OF _ assms(3)] by blast
      then have "(eth_atom K init G)\<^sup>*\<^sup>* ({}, emost ?v) ({}, emost v)"
        using assms(4) by (simp add: tame_def in_flight_def)
      from seen_atoms [OF this, of h ?s] show ?thesis by (simp add: executed(5) seen_def)
    qed
  qed
qed

section \<open>Guardians voting through their relayers\<close>

text \<open>
  As \<open>guardians_vote\<close> on Aleph Zero: each of the relayers (its account, its client library, its
  configuration), the latest first, has handled the event successfully between \<open>w0\<close> and \<open>w\<close>.
\<close>

inductive guardians_vote_eth ::
  "('w \<Rightarrow> ('oz, 'x) eth_world) \<Rightarrow> 'w eth_lib \<Rightarrow> 'oz oz_lib \<Rightarrow> (eth_env \<Rightarrow> eth_msg \<Rightarrow> bool) \<Rightarrow> eth_address
    \<Rightarrow> 'o contract_event \<Rightarrow> 'w \<Rightarrow> (eth_address \<times> ('p, 'w) eth_signed_lib \<times> config) list \<Rightarrow> 'w \<Rightarrow> bool"
  for view E Z G most_address event w0 where
  start: "guardians_vote_eth view E Z G most_address event w0 [] w0"
| wait: "guardians_vote_eth view E Z G most_address event w0 rs w \<Longrightarrow>
     eth_evolves (eth_keccak E) Z G (view w) (view w') \<Longrightarrow> guardians_vote_eth view E Z G most_address event w0 rs w'"
| vote: "guardians_vote_eth view E Z G most_address event w0 rs w \<Longrightarrow>
     abi_law S \<Longrightarrow> eth_query_law E S view Z G \<Longrightarrow> eth_submission_law S view (eth_keccak E) Z G most_address guardian \<Longrightarrow>
     parse_address E (cfg_eth_contract_address cfg) = Ok most_address \<Longrightarrow>
     azero_handle_event E S cfg event w = Some (Ok (), w') \<Longrightarrow>
     guardians_vote_eth view E Z G most_address event w0 ((guardian, S, cfg) # rs) w'"

lemma guardians_vote_eth_seen:
  assumes "guardians_vote_eth view E Z G most_address event w0 rs w"
    and event: "event_name event = Some ''CrosschainTransferRequest''" "get_request_event_data (event_data event) = Ok d"
    and law: "initializer_law Z init" and reach: "eth_reachable (eth_keccak E) Z G (view w0)"
  shows "eth_evolves (eth_keccak E) Z G (view w0) (view w) \<and>
    (\<forall>g\<in>fst ` set rs. seen (widened_hash (eth_keccak E) d) g (emost (view w)))"
  using assms(1)
proof induction
  case start
  show ?case by (simp add: eth_evolves.still)
next
  case (wait rs w w')
  let ?K = "eth_keccak E"
  have ih: "eth_evolves ?K Z G (view w0) (view w)" "\<forall>g\<in>fst ` set rs. seen (widened_hash ?K d) g (emost (view w))"
    using wait.IH by blast+
  have init: "init (oz_state (emost (view w)))"
    by (rule eth_reachable_init [OF eth_reachable_evolves [OF reach ih(1)] law])
  from ih(2) seen_evolves [OF wait(2) law init] eth_evolves_trans [OF wait(2) ih(1)] show ?case by simp
next
  case (vote rs w S guardian cfg w')
  let ?K = "eth_keccak E" and ?h = "widened_hash (eth_keccak E) d"
  obtain X env v v' where env: "msg_sender env = guardian" "G env (widened_vote ?K d)"
    and calls: "\<forall>c x data x'. external_call X c x = Some (data, x') \<longrightarrow> eth_evolves ?K Z G x x'"
    and before: "eth_evolves ?K Z G (view w) v" and run: "eth_dispatch ?K Z X env (widened_vote ?K d) v = Ok v'"
    and after: "eth_evolves ?K Z G v' (view w')"
    using azero_handled_event_votes [OF vote(6) event vote(5) vote(2-4)] by blast
  have step: "eth_evolves ?K Z G v v'" by (rule eth_evolves.message [OF eth_evolves.still env(2) calls run])
  have ih: "eth_evolves ?K Z G (view w0) (view w)" "\<forall>g\<in>fst ` set rs. seen ?h g (emost (view w))" using vote.IH by blast+
  note reached = ih(1) eth_evolves_trans [OF before ih(1)] eth_evolves_trans [OF step eth_evolves_trans [OF before ih(1)]]
  note init = reached [THEN eth_reachable_evolves [OF reach], THEN eth_reachable_init, OF law]
  have "seen ?h guardian (emost v')"
    using vote_seen [OF run [unfolded widened_vote_def] _ law init(2) calls] env(1) by (simp add: widened_hash_def)
  then have "seen ?h guardian (emost (view w'))" using seen_evolves [OF after law init(3)] by blast
  moreover have all: "eth_evolves ?K Z G (view w) (view w')"
    by (rule eth_evolves_trans [OF after eth_evolves_trans [OF step before]])
  ultimately show ?case using ih(2) seen_evolves [OF all law init(1)] eth_evolves_trans [OF all ih(1)] by simp
qed

lemma below_quorum_complete:
  assumes "below_quorum h c threshold m" and "eth_vote_inv K m" and "\<forall>g\<in>gs. seen h g m" and "unat threshold \<le> card gs"
  shows "processedRequests m h"
proof (rule ccontr)
  assume pending: "\<not> processedRequests m h"
  then have "gs \<subseteq> eth_signers m h" using assms(3) by (auto simp: seen_def)
  moreover have "finite (eth_signers m h)" using assms(2) by (simp add: eth_vote_inv_def)
  ultimately have "card gs \<le> card (eth_signers m h)" by (simp add: card_mono)
  with pending assms(1,4) show False by (simp add: below_quorum_def)
qed

end
