(* ===== verification/Bridge_Network.thy ===== *)
theory Bridge_Network
  imports Most_Invariants Eth_Listener
begin

text \<open>
  The relayers and the bridge contract together.  The chain evolves by the transactions of anyone;
  a relayer's call that succeeds was one of them, dispatched to the message it encodes and signed by
  the relayer's account.  The invariant \<open>tally\<close> follows the votes of a set of guardians through every
  interleaving of their relayers with the rest of the chain.
\<close>

section \<open>The chain between two observations\<close>

inductive chain_evolves :: "(u8 list \<Rightarrow> bytes32) \<Rightarrow> 'd chain \<Rightarrow> 'd chain \<Rightarrow> bool"
  for K :: "u8 list \<Rightarrow> bytes32" and w :: "'d chain" where
  still: "chain_evolves K w w"
| transaction: "chain_evolves K w v \<Longrightarrow> id_headroom (bridge v) \<Longrightarrow> chain_evolves K w (most_tx K P R env msg v)"
| elsewhere: "chain_evolves K w v \<Longrightarrow> bridge v' = bridge v \<Longrightarrow> chain_evolves K w v'"

lemma chain_evolves_reachable: "chain_evolves K w v \<Longrightarrow> reachable K w \<Longrightarrow> reachable K v"
  by (induction rule: chain_evolves.induct) (auto intro: reachable.intros)

section \<open>What a submitted call does\<close>

text \<open>
  The transcoder encodes the arguments the relayer gives it as the message the contract decodes, and
  a call reported as finalized and successful was executed by the contract at some moment in between,
  with the signer's account as the caller and without value.
\<close>

definition message_law ::
  "('c, 't, 'o, 'raw, 'w) aleph_lib \<Rightarrow> (u8 list \<Rightarrow> most_msg option) \<Rightarrow> bool" where
  "message_law L decode \<longleftrightarrow>
     (\<forall>tc h c t a r n data.
        encode_message L tc ''receive_request'' (receive_request_args L h c t a r n) = Ok data \<longrightarrow>
        decode data = Some (ReceiveRequest h c t a r n))"

definition submission_law ::
  "('c, 't, 'o, 'raw, 'w) aleph_lib \<Rightarrow> (u8 list \<Rightarrow> most_msg option) \<Rightarrow> ('w \<Rightarrow> 'd chain) \<Rightarrow> (u8 list \<Rightarrow> bytes32)
    \<Rightarrow> account_id \<Rightarrow> bool" where
  "submission_law L decode view K signer \<longleftrightarrow>
     (\<forall>address wt data w info w' msg.
        contract_call L address 0 wt data Finalized w = (Ok info, w') \<longrightarrow> decode data = Some msg \<longrightarrow>
        (\<exists>P R env v v'. caller env = signer \<and> self_account env = address \<and> transferred_value env = 0 \<and>
           chain_evolves K (view w) v \<and> id_headroom (bridge v) \<and> run_message K P R env msg v = Ok v' \<and>
           chain_evolves K v' (view w')))"

lemma most_tx_message:
  "transferred_value env = 0 \<Longrightarrow> run_message K P R env msg v = Ok v' \<Longrightarrow> most_tx K P R env msg v = v'"
  by (simp add: most_tx_def)

text \<open>One relayer handling one transfer request casts its vote in the contract.\<close>

definition narrowed_hash :: "(u8 list \<Rightarrow> bytes32) \<Rightarrow> eth_most_event \<Rightarrow> bytes32" where
  "narrowed_hash K event = hash_request_data K (ucast (ev_committee_id event)) (ev_dest_token_address event)
     (ucast (ev_amount event)) (ev_dest_receiver_address event) (ucast (ev_request_nonce event))"

lemma handled_event_votes:
  assumes handled: "eth_handle_event L E cfg event w = (Ok (), w')" and ev: "event \<noteq> Other_Event"
    and laws: "narrowing_law E" "message_law L decode" "submission_law L decode view (eth_keccak E) signer"
  shows "\<exists>P R env v v' c t a r n. caller env = signer \<and> transferred_value env = 0 \<and>
    chain_evolves (eth_keccak E) (view w) v \<and> id_headroom (bridge v) \<and>
    receive_request (eth_keccak E) P R env (narrowed_hash (eth_keccak E) event) c t a r n v = Ok v' \<and>
    chain_evolves (eth_keccak E) v' (view w')"
proof -
  obtain committee t amount r nonce where event: "event = CrosschainTransferRequestFilter committee t amount r nonce"
    using ev by (cases event) auto
  obtain c a n inst info where vote: "as_u128 E committee = Some c" "as_u128 E amount = Some a" "as_u128 E nonce = Some n"
    "send_receive_request L inst (eth_keccak E (request_data c t a r n)) c t a r n w = (Ok info, w')"
    using eth_handle_event_Ok [OF handled [unfolded event]] by metis
  have "c = ucast committee" "a = ucast amount" "n = ucast nonce"
    using vote(1-3) laws(1) by (auto simp: narrowing_law_def split: if_splits)
  then have hash: "eth_keccak E (request_data c t a r n) = narrowed_hash (eth_keccak E) event"
    by (simp add: narrowed_hash_def event hash_request_data_def keccak256_def)
  obtain data where enc: "encode_message L (mi_transcoder inst) ''receive_request''
      (receive_request_args L (narrowed_hash (eth_keccak E) event) c t a r n) = Ok data"
    and call: "contract_call L (mi_address inst) 0
      \<lparr>ref_time = mi_ref_time_limit inst, proof_size = mi_proof_size_limit inst\<rparr> data Finalized w = (Ok info, w')"
    using vote(4) unfolding hash
    by (auto simp: send_receive_request_def result_elims split: result.splits prod.splits)
  have "decode data = Some (ReceiveRequest (narrowed_hash (eth_keccak E) event) c t a r n)"
    using laws(2) enc unfolding message_law_def by blast
  with laws(3) call show ?thesis unfolding submission_law_def by (metis run_message.simps(2))
qed

section \<open>The tally\<close>

text \<open>
  As long as committee \<open>cid\<close> is in office, its threshold is \<open>threshold\<close>, and a request that is not
  processed has the votes of all of \<open>gs\<close>, but not enough of them.
\<close>

definition tally :: "bytes32 \<Rightarrow> committee_id \<Rightarrow> u128 \<Rightarrow> account_id set \<Rightarrow> most \<Rightarrow> bool" where
  "tally h cid threshold gs m \<longleftrightarrow>
     (\<exists>d. data_cell m = Some d \<and> cid \<le> d_committee_id d \<and>
        (d_committee_id d = cid \<longrightarrow> signature_thresholds m cid = Some threshold \<and>
           (processed_requests m h = None \<longrightarrow> gs \<subseteq> signers m h \<and> card (signers m h) < unat threshold)))"

lemma tally_effect:
  assumes "bridge_effect K m m'" and "vote_inv K m" and "id_headroom m" and "tally h cid threshold gs m"
  shows "tally h cid threshold gs m'"
  using assms
proof (induction rule: bridge_effect.induct)
  case (eff_other m d m' d' es)
  then show ?case by (auto simp: tally_def same_books_views) (auto simp: same_books_def)
next
  case (eff_counted c a m h' t amount r n count d threshold')
  from card_new_signer [OF eff_counted(9,3,4,5)] have "card (insert a (signers m h')) = unat count" .
  with eff_counted show ?case by (auto simp: tally_def signers_signed word_less_nat_alt)
next
  case (eff_executed c a m h' t amount r n count c' threshold')
  then show ?case by (auto simp: tally_def signers_signed)
next
  case (eff_committee m d committee threshold' u c)
  then have "d_committee_id d < c" using word_Suc_fresh(1) by (auto simp: id_headroom_def)
  with eff_committee show ?case by (auto simp: tally_def)
qed (auto simp: tally_def signers_def)

lemma tally_evolves:
  assumes "chain_evolves K w v" and "reachable K w" and "tally h cid threshold gs (bridge w)"
  shows "tally h cid threshold gs (bridge v)"
  using assms
proof (induction rule: chain_evolves.induct)
  case (transaction v P R env msg)
  then have inv: "bridge_inv K (bridge v)" using chain_evolves_reachable reachable_inv by blast
  then obtain d where "data_cell (bridge v) = Some d" by (auto simp: bridge_inv_def nonce_inv_def)
  with transaction inv show ?case
    using tally_effect [OF most_tx_effect] by (auto simp: bridge_inv_def)
qed auto

lemma tally_vote:
  assumes vote: "receive_request K P R env h c t a r n w = Ok w'"
    and inv: "vote_inv K (bridge w)" and tally: "tally h cid threshold gs (bridge w)"
  shows "tally h cid threshold (insert (caller env) gs) (bridge w')"
  using vote
proof (cases rule: receive_request_cases)
  case (processed data)
  with tally show ?thesis by (auto simp: tally_def emit_event_def signers_def)
next
  case (repeated data)
  with tally show ?thesis by (auto simp: tally_def emit_event_def signers_def)
next
  case (counted data count threshold')
  from card_new_signer [OF inv counted(4,5,8)] have "card (insert (caller env) (signers (bridge w) h)) = unat count" .
  with counted tally show ?thesis by (auto simp: tally_def signers_signed word_less_nat_alt)
next
  case (executed data count threshold')
  with tally show ?thesis by (auto simp: tally_def signers_signed)
qed

section \<open>Guardians voting through their relayers\<close>

text \<open>
  \<open>guardians_vote view E event w0 relayers w\<close>: between the worlds \<open>w0\<close> and \<open>w\<close> each of the relayers
  (its account, its client library, its configuration), the latest first, has handled the event
  successfully, at any time and with anything else happening on the chain before, between and after.
\<close>

inductive guardians_vote ::
  "('w \<Rightarrow> 'd chain) \<Rightarrow> 'w eth_lib \<Rightarrow> eth_most_event \<Rightarrow> 'w
    \<Rightarrow> (account_id \<times> ('c, 't, 'o, 'raw, 'w) aleph_lib \<times> config) list \<Rightarrow> 'w \<Rightarrow> bool"
  for view E event w0 where
  start: "guardians_vote view E event w0 [] w0"
| wait: "guardians_vote view E event w0 rs w \<Longrightarrow> chain_evolves (eth_keccak E) (view w) (view w') \<Longrightarrow>
     guardians_vote view E event w0 rs w'"
| vote: "guardians_vote view E event w0 rs w \<Longrightarrow> message_law L decode \<Longrightarrow>
     submission_law L decode view (eth_keccak E) guardian \<Longrightarrow> eth_handle_event L E cfg event w = (Ok (), w') \<Longrightarrow>
     guardians_vote view E event w0 ((guardian, L, cfg) # rs) w'"

lemma guardians_vote_tally:
  assumes "guardians_vote view E event w0 rs w" and "event \<noteq> Other_Event" and "narrowing_law E"
    and "reachable (eth_keccak E) (view w0)"
    and "tally (narrowed_hash (eth_keccak E) event) cid threshold {} (bridge (view w0))"
  shows "reachable (eth_keccak E) (view w) \<and>
    tally (narrowed_hash (eth_keccak E) event) cid threshold (fst ` set rs) (bridge (view w))"
  using assms(1)
proof induction
  case start
  show ?case using assms(4,5) by simp
next
  case (wait rs w w')
  then show ?case using chain_evolves_reachable tally_evolves by blast
next
  case (vote rs w L decode guardian cfg w')
  let ?K = "eth_keccak E" and ?h = "narrowed_hash (eth_keccak E) event"
  obtain P R env v v' c t a r n where env: "caller env = guardian" "transferred_value env = 0"
    and before: "chain_evolves ?K (view w) v" "id_headroom (bridge v)"
    and recv: "receive_request ?K P R env ?h c t a r n v = Ok v'" and after: "chain_evolves ?K v' (view w')"
    using handled_event_votes [OF vote(4) assms(2,3) vote(2,3)] by metis
  have v: "reachable ?K v" "tally ?h cid threshold (fst ` set rs) (bridge v)"
    using vote before(1) chain_evolves_reachable tally_evolves by blast+
  have "most_tx ?K P R env (ReceiveRequest ?h c t a r n) v = v'"
    using recv by (intro most_tx_message) (simp_all add: env)
  then have v': "reachable ?K v'" using reachable.transaction [OF v(1) before(2)] by metis
  moreover have "tally ?h cid threshold (insert guardian (fst ` set rs)) (bridge v')"
    using tally_vote [OF recv _ v(2)] reachable_inv [OF v(1)] env(1) by (simp add: bridge_inv_def)
  ultimately show ?case using after chain_evolves_reachable tally_evolves by fastforce
qed

lemma tally_complete:
  assumes "tally h cid threshold gs m" and "vote_inv K m" and "unat threshold \<le> card gs"
    and "get_current_committee_id m = Ok cid"
  shows "processed_requests m h \<noteq> None"
proof
  assume open_request: "processed_requests m h = None"
  then have "gs \<subseteq> signers m h" "card (signers m h) < unat threshold"
    using assms(1,4) by (auto simp: tally_def get_current_committee_id_def read_data_def)
  moreover have "finite (signers m h)" using assms(2) by (simp add: vote_inv_def finite_signers)
  ultimately show False using assms(3) card_mono [of "signers m h" gs] by linarith
qed

end
