(* ===== verification/Halt_Recovery.thy ===== *)
theory Halt_Recovery
  imports Bridge_Network
begin

text \<open>
  The Ethereum listener and a bridge contract on Aleph Zero that is halted now and then: a vote the halted contract
  refuses is cast again once the halt is over.  The chain is seen through \<open>view\<close>, as in \<open>Bridge_Network\<close>, and
  \<open>time\<close> orders the worlds the listener goes through.
\<close>

section \<open>A vote stays\<close>

definition vote_counted :: "bytes32 \<Rightarrow> account_id \<Rightarrow> most \<Rightarrow> bool" where
  "vote_counted h g m \<longleftrightarrow> processed_requests m h \<noteq> None \<or> g \<in> signers m h"

lemma vote_counted_effect: "bridge_effect K m m' \<Longrightarrow> vote_counted h g m \<Longrightarrow> vote_counted h g m'"
proof (induction rule: bridge_effect.induct)
  case (eff_other m d m' d' es)
  then show ?case by (auto simp: vote_counted_def same_books_views) (auto simp: same_books_def)
qed (auto simp: vote_counted_def signers_signed signers_def)

lemma chain_evolves_trans: "chain_evolves K v u \<Longrightarrow> chain_evolves K w v \<Longrightarrow> chain_evolves K w u"
  by (induction rule: chain_evolves.induct) (auto intro: chain_evolves.intros)

lemma vote_counted_evolves:
  assumes "chain_evolves K w v" and "reachable K w" and "vote_counted h g (bridge w)"
  shows "vote_counted h g (bridge v)"
  using assms
proof (induction rule: chain_evolves.induct)
  case (transaction v P R env msg)
  then have "bridge_inv K (bridge v)" using chain_evolves_reachable reachable_inv by blast
  then obtain d where "data_cell (bridge v) = Some d" by (auto simp: bridge_inv_def nonce_inv_def)
  with transaction show ?case using vote_counted_effect [OF most_tx_effect] by blast
qed auto

lemma receive_request_voted:
  "receive_request K P R env h c t a r n w = Ok w' \<Longrightarrow> vote_counted h (caller env) (bridge w')"
  by (erule receive_request_cases) (auto simp: vote_counted_def emit_event_def signers_signed signers_def)

lemma handled_event_voted:
  assumes "eth_handle_event L E cfg event w = (Ok (), w')" and "event \<noteq> Other_Event" and "narrowing_law E"
    and "message_law L decode" and "submission_law L decode view (eth_keccak E) signer"
    and "reachable (eth_keccak E) (view w)"
  shows "vote_counted (narrowed_hash (eth_keccak E) event) signer (bridge (view w'))"
proof -
  let ?K = "eth_keccak E" and ?h = "narrowed_hash (eth_keccak E) event"
  obtain P R env v v' c t a r n where env: "caller env = signer" "transferred_value env = 0"
    and before: "chain_evolves ?K (view w) v" "id_headroom (bridge v)"
    and recv: "receive_request ?K P R env ?h c t a r n v = Ok v'" and after: "chain_evolves ?K v' (view w')"
    using handled_event_votes [OF assms(1-5)] by metis
  have "reachable ?K (most_tx ?K P R env (ReceiveRequest ?h c t a r n) v)"
    using chain_evolves_reachable [OF before(1) assms(6)] before(2) by (rule reachable.transaction)
  moreover have "most_tx ?K P R env (ReceiveRequest ?h c t a r n) v = v'"
    using recv by (intro most_tx_message) (simp_all add: env)
  ultimately show ?thesis using vote_counted_evolves [OF after] receive_request_voted [OF recv] env(1) by simp
qed

section \<open>Asking whether the bridge is halted\<close>

text \<open>
  The dry run of \<^verbatim>\<open>is_halted\<close> answers with the flag the contract has when it is asked; the answer is
  \<^verbatim>\<open>Ok(Ok(flag))\<close>, as the transcoder shows it.  Time passes meanwhile, and the chain may go on.
\<close>

definition halt_read_law ::
  "('c, 't, 'o, 'raw, 'w) aleph_lib \<Rightarrow> ('c, 't) most_instance \<Rightarrow> account_id \<Rightarrow> ('w \<Rightarrow> 'd chain) \<Rightarrow> (u8 list \<Rightarrow> bytes32)
    \<Rightarrow> ('w \<Rightarrow> nat) \<Rightarrow> bool" where
  "halt_read_law L inst account view K time \<longleftrightarrow>
     (\<forall>w. \<exists>data res v flag. encode_message L (mi_transcoder inst) ''is_halted'' [] = Ok data \<and>
        call_and_get L account (mi_address inst) data w = (Ok (Ok res), v) \<and>
        is_halted (bridge (view w)) = Ok flag \<and>
        decode_return L (mi_transcoder inst) ''is_halted'' res = Ok (Tuple (Some ''Ok'') [Tuple (Some ''Ok'') [Bool_Value flag]]) \<and>
        chain_evolves K (view w) (view v) \<and> time w < time v)"

lemma most_is_halted_reads:
  assumes "halt_read_law L inst account view K time"
  obtains flag v where "most_is_halted L inst account w = (Ok flag, v)" and "is_halted (bridge (view w)) = Ok flag"
    and "chain_evolves K (view w) (view v)" and "time w < time v"
proof -
  obtain data res v flag where "encode_message L (mi_transcoder inst) ''is_halted'' [] = Ok data"
    "call_and_get L account (mi_address inst) data w = (Ok (Ok res), v)"
    "decode_return L (mi_transcoder inst) ''is_halted'' res = Ok (Tuple (Some ''Ok'') [Tuple (Some ''Ok'') [Bool_Value flag]])"
    and world: "is_halted (bridge (view w)) = Ok flag" "chain_evolves K (view w) (view v)" "time w < time v"
    using assms unfolding halt_read_law_def by metis
  then have "most_is_halted L inst account w = (Ok flag, v)"
    by (simp add: most_is_halted_def decode_is_halted_def decode_bool_from_tuple_def)
  with world that show ?thesis by blast
qed

text \<open>Waiting for the end of a halt ends, if from the time \<open>T\<close> on the bridge is not halted.\<close>

lemma wait_until_not_halted_ends:
  assumes law: "halt_read_law L inst account view K time"
    and calm: "\<forall>w. T \<le> time w \<longrightarrow> is_halted (bridge (view w)) = Ok False"
  shows "\<exists>v. wait_until_not_halted L inst account w = Some (Ok (), v) \<and> chain_evolves K (view w) (view v) \<and> time w < time v"
proof (induction "T - time w" arbitrary: w rule: less_induct)
  case less
  obtain flag v where read: "most_is_halted L inst account w = (Ok flag, v)" "is_halted (bridge (view w)) = Ok flag"
    and v: "chain_evolves K (view w) (view v)" "time w < time v"
    by (rule most_is_halted_reads [OF law])
  note poll = poll.simps [of "ask_not_halted L inst account" w, folded wait_until_not_halted_def]
  show ?case
  proof (cases flag)
    case True
    then have "time w < T" using read(2) calm by (cases "T \<le> time w") auto
    then obtain u where u: "wait_until_not_halted L inst account v = Some (Ok (), u)" "chain_evolves K (view v) (view u)" "time v < time u"
      using less.hyps [of v] v(2) by (auto simp: diff_less_mono2)
    have "wait_until_not_halted L inst account w = Some (Ok (), u)"
      using poll read(1) True u(1) by (simp add: ask_not_halted_def wait_until_not_halted_def)
    with u v chain_evolves_trans [OF u(2) v(1)] show ?thesis by auto
  next
    case False
    then have "wait_until_not_halted L inst account w = Some (Ok (), v)"
      using poll read(1) by (simp add: ask_not_halted_def wait_until_not_halted_def)
    with v show ?thesis by blast
  qed
qed

section \<open>A listener that meets halts\<close>

text \<open>
  The votes meet no trouble but halts: the event fits the relayer's integers, its vote can be encoded, and the
  submitted call is executed, unless, before the time \<open>T\<close>, it is refused and the bridge is halted when this is reported.
\<close>

fun meets_only_halts ::
  "('c, 't, 'o, 'raw, 'w) aleph_lib \<Rightarrow> 'w eth_lib \<Rightarrow> ('c, 't) most_instance \<Rightarrow> ('w \<Rightarrow> 'd chain) \<Rightarrow> ('w \<Rightarrow> nat) \<Rightarrow> nat
    \<Rightarrow> eth_most_event \<Rightarrow> bool" where
  "meets_only_halts L E inst view time T Other_Event \<longleftrightarrow> True"
| "meets_only_halts L E inst view time T (CrosschainTransferRequestFilter committee t amount r nonce) \<longleftrightarrow>
     unat committee < 2 ^ 128 \<and> unat amount < 2 ^ 128 \<and> unat nonce < 2 ^ 128 \<and>
     (\<exists>data. encode_message L (mi_transcoder inst) ''receive_request''
          (receive_request_args L
             (narrowed_hash (eth_keccak E) (CrosschainTransferRequestFilter committee t amount r nonce))
             (ucast committee) t (ucast amount) r (ucast nonce)) = Ok data \<and>
        (\<forall>w. \<exists>res w'. contract_call L (mi_address inst) 0
             \<lparr>ref_time = mi_ref_time_limit inst, proof_size = mi_proof_size_limit inst\<rparr> data Finalized w = (res, w') \<and>
           chain_evolves (eth_keccak E) (view w) (view w') \<and> time w \<le> time w' \<and>
           (is_ok res \<or> (\<exists>e. res = Err e) \<and> time w < T \<and> is_halted (bridge (view w')) = Ok True)))"

lemma meets_only_halts_outcome:
  assumes "meets_only_halts L E inst view time T event" and "narrowing_law E"
    and inst: "most_instance_new L (cfg_azero_contract_address cfg) (cfg_azero_contract_metadata cfg)
        (cfg_azero_ref_time_limit cfg) (cfg_azero_proof_size_limit cfg) = Ok inst"
  obtains (cast) w' where "eth_handle_event L E cfg event w = (Ok (), w')"
      and "chain_evolves (eth_keccak E) (view w) (view w')" and "time w \<le> time w'"
  | (halted) e w' where "eth_handle_event L E cfg event w = (Err (Eth_AzeroContract e), w')"
      and "chain_evolves (eth_keccak E) (view w) (view w')" and "time w \<le> time w'" and "time w < T"
      and "is_halted (bridge (view w')) = Ok True"
proof (cases event)
  case Other_Event
  then show ?thesis using cast by (simp add: eth_handle_event_def chain_evolves.still)
next
  case (CrosschainTransferRequestFilter committee t amount r nonce)
  note event = this
  have narrow: "as_u128 E committee = Some (ucast committee)" "as_u128 E amount = Some (ucast amount)"
    "as_u128 E nonce = Some (ucast nonce)"
    using assms(1,2) by (simp_all add: event narrowing_law_def)
  have hash: "eth_keccak E (eth_request_bytes (ucast committee) t (ucast amount) r (ucast nonce)) = narrowed_hash (eth_keccak E) event"
    by (simp add: eth_request_bytes_eq narrowed_hash_def event hash_request_data_def keccak256_def)
  obtain data where enc: "encode_message L (mi_transcoder inst) ''receive_request''
      (receive_request_args L (narrowed_hash (eth_keccak E) event) (ucast committee) t (ucast amount) r (ucast nonce)) = Ok data"
    and calls: "\<forall>w. \<exists>res w'. contract_call L (mi_address inst) 0
             \<lparr>ref_time = mi_ref_time_limit inst, proof_size = mi_proof_size_limit inst\<rparr> data Finalized w = (res, w') \<and>
           chain_evolves (eth_keccak E) (view w) (view w') \<and> time w \<le> time w' \<and>
           (is_ok res \<or> (\<exists>e. res = Err e) \<and> time w < T \<and> is_halted (bridge (view w')) = Ok True)"
    using assms(1) by (auto simp: event)
  obtain res w' where call: "contract_call L (mi_address inst) 0
        \<lparr>ref_time = mi_ref_time_limit inst, proof_size = mi_proof_size_limit inst\<rparr> data Finalized w = (res, w')"
    and w': "chain_evolves (eth_keccak E) (view w) (view w')" "time w \<le> time w'"
    and res: "is_ok res \<or> (\<exists>e. res = Err e) \<and> time w < T \<and> is_halted (bridge (view w')) = Ok True"
    using calls by metis
  have handled: "eth_handle_event L E cfg event w =
      (map_ok (\<lambda>_. ()) (map_err Eth_AzeroContract (map_err Client_Error res)), w')"
    using narrow inst enc call by (simp add: eth_handle_event_def event hash [unfolded event] send_receive_request_def Let_def)
  show ?thesis
  proof (cases res)
    case (Ok info)
    with cast handled w' show ?thesis by simp
  next
    case (Err e)
    with halted handled w' res show ?thesis by simp
  qed (use res in simp)
qed

lemma eth_retry_event_ends:
  assumes laws: "narrowing_law E" "halt_read_law L inst account view (eth_keccak E) time"
    and inst: "most_instance_new L (cfg_azero_contract_address cfg) (cfg_azero_contract_metadata cfg)
        (cfg_azero_ref_time_limit cfg) (cfg_azero_proof_size_limit cfg) = Ok inst"
    and calm: "\<forall>w. T \<le> time w \<longrightarrow> is_halted (bridge (view w)) = Ok False"
    and event: "meets_only_halts L E inst view time T event"
  shows "\<exists>u w'. eth_retry_event L E cfg inst account event w = Some (Ok (), w') \<and>
    chain_evolves (eth_keccak E) (view w) (view u) \<and> eth_handle_event L E cfg event u = (Ok (), w') \<and>
    chain_evolves (eth_keccak E) (view u) (view w')"
proof (induction "T - time w" arbitrary: w rule: less_induct)
  case less
  show ?case
  proof (cases w rule: meets_only_halts_outcome [OF event laws(1) inst])
    case (1 w')
    then have "eth_retry_event L E cfg inst account event w = Some (Ok (), w')" by (subst eth_retry_event.simps) simp
    with 1 chain_evolves.still show ?thesis by blast
  next
    case (2 e w1)
    obtain flag w2 where read: "most_is_halted L inst account w1 = (Ok flag, w2)" "is_halted (bridge (view w1)) = Ok flag"
      and w2: "chain_evolves (eth_keccak E) (view w1) (view w2)" "time w1 < time w2"
      by (rule most_is_halted_reads [OF laws(2)])
    then have halted: flag using 2(5) by simp
    obtain w3 where w3: "wait_until_not_halted L inst account w2 = Some (Ok (), w3)"
        "chain_evolves (eth_keccak E) (view w2) (view w3)" "time w2 < time w3"
      using wait_until_not_halted_ends [OF laws(2) calm] by blast
    then have "T - time w3 < T - time w" using 2(3,4) w2(2) by linarith
    from less.hyps [OF this] obtain u w' where u: "eth_retry_event L E cfg inst account event w3 = Some (Ok (), w')"
        "chain_evolves (eth_keccak E) (view w3) (view u)" "eth_handle_event L E cfg event u = (Ok (), w')"
        "chain_evolves (eth_keccak E) (view u) (view w')" by blast
    have "eth_retry_event L E cfg inst account event w = Some (Ok (), w')"
      using 2(1) read(1) halted w3(1) u(1) by (subst eth_retry_event.simps) simp
    moreover have "chain_evolves (eth_keccak E) (view w) (view u)"
      using 2(2) w2(1) w3(2) u(2) chain_evolves_trans by blast
    ultimately show ?thesis using u by blast
  qed
qed

text \<open>All events of a window are handled, and all their votes are in the contract at the end.\<close>

lemma eth_handle_events_ends:
  assumes laws: "narrowing_law E" "message_law L decode" "submission_law L decode view (eth_keccak E) signer"
      "halt_read_law L inst account view (eth_keccak E) time"
    and inst: "most_instance_new L (cfg_azero_contract_address cfg) (cfg_azero_contract_metadata cfg)
        (cfg_azero_ref_time_limit cfg) (cfg_azero_proof_size_limit cfg) = Ok inst"
    and calm: "\<forall>w. T \<le> time w \<longrightarrow> is_halted (bridge (view w)) = Ok False"
    and "\<forall>event\<in>set events. meets_only_halts L E inst view time T event" and "reachable (eth_keccak E) (view w)"
  shows "\<exists>w'. eth_handle_events L E cfg inst account events w = Some (Ok (), w') \<and>
    chain_evolves (eth_keccak E) (view w) (view w') \<and>
    (\<forall>event\<in>set events. event \<noteq> Other_Event \<longrightarrow>
       vote_counted (narrowed_hash (eth_keccak E) event) signer (bridge (view w')))"
  using assms(7,8)
proof (induction events arbitrary: w)
  case Nil
  then show ?case by (simp add: chain_evolves.still)
next
  case (Cons event events)
  let ?K = "eth_keccak E"
  have "meets_only_halts L E inst view time T event" using Cons.prems by simp
  then obtain u v where retry: "eth_retry_event L E cfg inst account event w = Some (Ok (), v)"
      and u: "chain_evolves ?K (view w) (view u)" "eth_handle_event L E cfg event u = (Ok (), v)" "chain_evolves ?K (view u) (view v)"
    using eth_retry_event_ends [OF laws(1,4) inst calm] by blast
  have reach: "reachable ?K (view u)" "reachable ?K (view v)"
    using u chain_evolves_reachable Cons.prems(2) by blast+
  obtain w' where rest: "eth_handle_events L E cfg inst account events v = Some (Ok (), w')" "chain_evolves ?K (view v) (view w')"
      "\<forall>event\<in>set events. event \<noteq> Other_Event \<longrightarrow> vote_counted (narrowed_hash ?K event) signer (bridge (view w'))"
    using Cons.IH [of v] Cons.prems(1) reach(2) by auto
  have "vote_counted (narrowed_hash ?K event) signer (bridge (view w'))" if "event \<noteq> Other_Event"
    using handled_event_voted [OF u(2) that laws(1-3) reach(1)] vote_counted_evolves [OF rest(2) reach(2)] by blast
  moreover have "chain_evolves ?K (view w) (view w')"
    using u(1,3) rest(2) chain_evolves_trans by blast
  ultimately show ?case using retry rest(1,3) by auto
qed

text \<open>
  The halt has to last until the listener asks about it: if it is over by then, the error is not put down to a
  halt but returned, which ends the listener.
\<close>

theorem lifted_halt_ends_listener:
  assumes "halt_read_law L inst account view K time"
    and "eth_handle_event L E cfg event w = (Err (Eth_AzeroContract e), w1)" and "is_halted (bridge (view w1)) = Ok False"
  shows "\<exists>w2. eth_retry_event L E cfg inst account event w = Some (Err (Eth_AzeroContract e), w2)"
proof -
  obtain flag w2 where "most_is_halted L inst account w1 = (Ok flag, w2)" "is_halted (bridge (view w1)) = Ok flag"
    by (rule most_is_halted_reads [OF assms(1)])
  with assms(2,3) show ?thesis by (subst eth_retry_event.simps) simp
qed

end
