(* ===== verification/Signer.thy ===== *)
theory Signer
  imports Eth_Listener
begin

text \<open>
  The remote signer: the protocol and its client (\<^verbatim>\<open>signer_client/src/lib.rs\<close>) and the loop that
  serves one client with the keys of the server (\<^verbatim>\<open>signer/src/main.rs\<close>).  The framed socket and the JSON codec are parameters, as are
  the key libraries and the type \<open>'tx\<close> of Ethereum transactions.
\<close>

section \<open>Protocol\<close>

datatype 'tx command =
    Ping
  | AccountIdAzero
  | SignAzero (sign_payload: "u8 list")
  | EthAddress
  | SignEthHash (sign_hash: bytes32)
  | SignEthTx (sign_tx: 'tx) (sign_chain_id: u64)

datatype ('tx, 'asig, 'esig) response =
    Pong
  | Resp_AccountIdAzero account_id
  | SignedAzero "u8 list" 'asig
  | Resp_EthAddress eth_address
  | SignedEthHash bytes32 'esig
  | SignedEthTx 'tx 'esig u64

datatype ('tx, 'asig, 'esig) client_error =
    Client_IO string
  | Client_Serde string
  | InvalidResponse (expected: string) (got: "('tx, 'asig, 'esig) response")
  | Closed

definition ETH_MAINNET_CHAIN_ID :: u64 where
  "ETH_MAINNET_CHAIN_ID = 1"

text \<open>
  A connection of type \<open>'s\<close> sends and receives frames; the end of the stream is \<open>None\<close>.  The codec
  turns messages into frames and back.  \<open>tx_chain_id\<close> and \<open>tx_set_chain_id\<close> are methods of
  \<^verbatim>\<open>TypedTransaction\<close>.
\<close>

record 's frames =
  frame_send :: "u8 list \<Rightarrow> 's \<Rightarrow> (unit, string) result \<times> 's"
  frame_next :: "'s \<Rightarrow> (u8 list, string) result option \<times> 's"

record ('tx, 'asig, 'esig) codec =
  command_to_vec :: "'tx command \<Rightarrow> (u8 list, string) result"
  command_from_reader :: "u8 list \<Rightarrow> ('tx command, string) result"
  response_to_vec :: "('tx, 'asig, 'esig) response \<Rightarrow> (u8 list, string) result"
  response_from_reader :: "u8 list \<Rightarrow> (('tx, 'asig, 'esig) response, string) result"
  tx_chain_id :: "'tx \<Rightarrow> u64 option"
  tx_set_chain_id :: "u64 \<Rightarrow> 'tx \<Rightarrow> 'tx"
  debug_bytes :: "u8 list \<Rightarrow> string"
  debug_hash :: "bytes32 \<Rightarrow> string"
  debug_tx :: "'tx \<Rightarrow> string"

section \<open>Sending and receiving\<close>

definition client_send ::
  "'s frames \<Rightarrow> ('m \<Rightarrow> (u8 list, string) result) \<Rightarrow> 'm \<Rightarrow> 's \<Rightarrow> (unit, ('tx, 'asig, 'esig) client_error) result \<times> 's" where
  "client_send F to_vec msg s =
     (case to_vec msg of
        Ok bytes \<Rightarrow> (case frame_send F bytes s of (r, s') \<Rightarrow> (map_err Client_IO r, s'))
      | Err e \<Rightarrow> (Err (Client_Serde e), s)
      | Panic \<Rightarrow> (Panic, s))"

definition client_recv ::
  "'s frames \<Rightarrow> (u8 list \<Rightarrow> ('m, string) result) \<Rightarrow> 's \<Rightarrow> ('m, ('tx, 'asig, 'esig) client_error) result \<times> 's" where
  "client_recv F from_reader s =
     (case frame_next F s of
        (None, s') \<Rightarrow> (Err Closed, s')
      | (Some r, s') \<Rightarrow>
          (try_res (map_err Client_IO r) (\<lambda>msg. map_err Client_Serde (from_reader msg)), s'))"

text \<open>The common part of the client's operations: a command is sent and one response read.\<close>

definition client_request ::
  "'s frames \<Rightarrow> ('tx, 'asig, 'esig) codec \<Rightarrow> 'tx command \<Rightarrow> 's
    \<Rightarrow> (('tx, 'asig, 'esig) response, ('tx, 'asig, 'esig) client_error) result \<times> 's" where
  "client_request F K cmd s =
     (case client_send F (command_to_vec K) cmd s of
        (Ok _, s') \<Rightarrow> client_recv F (response_from_reader K) s'
      | (Err e, s') \<Rightarrow> (Err e, s')
      | (Panic, s') \<Rightarrow> (Panic, s'))"

section \<open>The client\<close>

definition and_then :: "('a, 'e) result \<times> 's \<Rightarrow> ('a \<Rightarrow> ('b, 'e) result) \<Rightarrow> ('b, 'e) result \<times> 's" where
  "and_then rs k = (case rs of (r, s) \<Rightarrow> (try_res r k, s))"

definition azero_account_id ::
  "'s frames \<Rightarrow> ('tx, 'asig, 'esig) codec \<Rightarrow> 's \<Rightarrow> (account_id, ('tx, 'asig, 'esig) client_error) result \<times> 's" where
  "azero_account_id F K s =
     and_then (client_request F K AccountIdAzero s) (\<lambda>res.
       case res of
         Resp_AccountIdAzero account_id \<Rightarrow> Ok account_id
       | other \<Rightarrow> Err (InvalidResponse ''AccountIdAzero'' other))"

definition sign_azero ::
  "'s frames \<Rightarrow> ('tx, 'asig, 'esig) codec \<Rightarrow> u8 list \<Rightarrow> 's \<Rightarrow> ('asig, ('tx, 'asig, 'esig) client_error) result \<times> 's" where
  "sign_azero F K payload s =
     and_then (client_request F K (SignAzero payload) s) (\<lambda>res.
       case res of
         SignedAzero return_payload signature \<Rightarrow>
           if return_payload = payload then Ok signature
           else Err (InvalidResponse (''SignedAzero(payload: '' @ debug_bytes K payload @ '')'') res)
       | other \<Rightarrow> Err (InvalidResponse (''SignedAzero(payload: '' @ debug_bytes K payload @ '')'') other))"

definition eth_address_request ::
  "'s frames \<Rightarrow> ('tx, 'asig, 'esig) codec \<Rightarrow> 's \<Rightarrow> (eth_address, ('tx, 'asig, 'esig) client_error) result \<times> 's" where
  "eth_address_request F K s =
     and_then (client_request F K EthAddress s) (\<lambda>res.
       case res of
         Resp_EthAddress address \<Rightarrow> Ok address
       | other \<Rightarrow> Err (InvalidResponse ''EthAddress'' other))"

definition sign_eth_hash ::
  "'s frames \<Rightarrow> ('tx, 'asig, 'esig) codec \<Rightarrow> bytes32 \<Rightarrow> 's \<Rightarrow> ('esig, ('tx, 'asig, 'esig) client_error) result \<times> 's" where
  "sign_eth_hash F K hash s =
     and_then (client_request F K (SignEthHash hash) s) (\<lambda>res.
       case res of
         SignedEthHash return_hash signature \<Rightarrow>
           if return_hash = hash then Ok signature
           else Err (InvalidResponse (''SignedEthHash(hash: '' @ debug_hash K hash @ '')'') res)
       | other \<Rightarrow> Err (InvalidResponse (''SignedEthHash(hash: '' @ debug_hash K hash @ '')'') other))"

definition sign_eth_tx ::
  "'s frames \<Rightarrow> ('tx, 'asig, 'esig) codec \<Rightarrow> 'tx \<Rightarrow> 's \<Rightarrow> ('esig, ('tx, 'asig, 'esig) client_error) result \<times> 's" where
  "sign_eth_tx F K tx s =
     (let chain_id = unwrap_or (tx_chain_id K tx) ETH_MAINNET_CHAIN_ID;
          invalid = (\<lambda>res. Err (InvalidResponse (''SignedEthTx(tx: '' @ debug_tx K tx @ '')'') res)) in
      and_then (client_request F K (SignEthTx tx chain_id) s) (\<lambda>res.
        case res of
          SignedEthTx return_tx signature return_chain_id \<Rightarrow>
            let return_tx = (if tx_chain_id K tx \<noteq> None then tx_set_chain_id K return_chain_id return_tx else return_tx) in
            if return_tx = tx then Ok signature else invalid res
        | _ \<Rightarrow> invalid res))"

section \<open>The server\<close>

text \<open>The key libraries: the two key pairs with their public names and their signing functions.\<close>

record ('tx, 'asig, 'esig) signer_keys =
  azero_public :: account_id
  azero_sign :: "u8 list \<Rightarrow> 'asig"
  eth_wallet_address :: eth_address
  eth_sign_hash :: "bytes32 \<Rightarrow> ('esig, string) result"
  eth_sign_transaction :: "'tx \<Rightarrow> ('esig, string) result"

datatype ('tx, 'asig, 'esig) signer_error =
    Stream_Error "('tx, 'asig, 'esig) client_error"
  | Key_Error string
  | Serialization_Error string
  | IO_Error string
  | Wallet_Error string
  | Hex_Error string

definition serve_command ::
  "('tx, 'asig, 'esig) codec \<Rightarrow> ('tx, 'asig, 'esig) signer_keys \<Rightarrow> 'tx command
    \<Rightarrow> (('tx, 'asig, 'esig) response, ('tx, 'asig, 'esig) signer_error) result" where
  "serve_command K keys cmd =
     (case cmd of
        Ping \<Rightarrow> Ok Pong
      | AccountIdAzero \<Rightarrow> Ok (Resp_AccountIdAzero (azero_public keys))
      | SignAzero payload \<Rightarrow> Ok (SignedAzero payload (azero_sign keys payload))
      | EthAddress \<Rightarrow> Ok (Resp_EthAddress (eth_wallet_address keys))
      | SignEthHash hash \<Rightarrow>
          try_res (map_err Wallet_Error (eth_sign_hash keys hash)) (\<lambda>signature. Ok (SignedEthHash hash signature))
      | SignEthTx tx chain_id \<Rightarrow>
          let tx = tx_set_chain_id K chain_id tx in
          try_res (map_err Wallet_Error (eth_sign_transaction keys tx)) (\<lambda>signature.
            Ok (SignedEthTx tx signature chain_id)))"

text \<open>One turn of the loop of \<^verbatim>\<open>do_handle_client\<close>, and the loop, which ends with the first error.\<close>

definition serve_one ::
  "'s frames \<Rightarrow> ('tx, 'asig, 'esig) codec \<Rightarrow> ('tx, 'asig, 'esig) signer_keys \<Rightarrow> 's
    \<Rightarrow> (unit, ('tx, 'asig, 'esig) signer_error) result \<times> 's" where
  "serve_one F K keys s =
     (case client_recv F (command_from_reader K) s of
        (received, s1) \<Rightarrow>
          (case try_res (map_err Stream_Error received) (serve_command K keys) of
             Ok response \<Rightarrow>
               (case client_send F (response_to_vec K) response s1 of (r, s2) \<Rightarrow> (map_err Stream_Error r, s2))
           | Err e \<Rightarrow> (Err e, s1)
           | Panic \<Rightarrow> (Panic, s1)))"

partial_function (option) do_handle_client ::
  "'s frames \<Rightarrow> ('tx, 'asig, 'esig) codec \<Rightarrow> ('tx, 'asig, 'esig) signer_keys \<Rightarrow> 's
    \<Rightarrow> ((unit, ('tx, 'asig, 'esig) signer_error) result \<times> 's) option" where
  "do_handle_client F K keys s =
     (case serve_one F K keys s of
        (Ok _, s') \<Rightarrow> do_handle_client F K keys s'
      | (Err e, s') \<Rightarrow> Some (Err e, s')
      | (Panic, s') \<Rightarrow> Some (Panic, s'))"

section \<open>Client and server together\<close>

text \<open>
  What the codec promises: a message comes back as it was sent, except that transactions lose their
  chain id on the way (\<open>strip\<close>), as the comment in the client says of their serialization.
\<close>

fun strip_command :: "('tx \<Rightarrow> 'tx) \<Rightarrow> 'tx command \<Rightarrow> 'tx command" where
  "strip_command strip (SignEthTx tx c) = SignEthTx (strip tx) c"
| "strip_command strip cmd = cmd"

fun strip_response :: "('tx \<Rightarrow> 'tx) \<Rightarrow> ('tx, 'asig, 'esig) response \<Rightarrow> ('tx, 'asig, 'esig) response" where
  "strip_response strip (SignedEthTx tx sig c) = SignedEthTx (strip tx) sig c"
| "strip_response strip res = res"

definition codec_law :: "('tx, 'asig, 'esig) codec \<Rightarrow> ('tx \<Rightarrow> 'tx) \<Rightarrow> bool" where
  "codec_law K strip \<longleftrightarrow>
     (\<forall>cmd. \<exists>b. command_to_vec K cmd = Ok b \<and> command_from_reader K b = Ok (strip_command strip cmd)) \<and>
     (\<forall>res. \<exists>b. response_to_vec K res = Ok b \<and> response_from_reader K b = Ok (strip_response strip res)) \<and>
     (\<forall>tx. tx_chain_id K tx = None \<longrightarrow> strip tx = tx) \<and>
     (\<forall>tx c. tx_chain_id K tx = Some c \<longrightarrow> tx_set_chain_id K c (strip tx) = tx) \<and>
     (\<forall>tx c. strip (tx_set_chain_id K c tx) = strip tx) \<and> (\<forall>tx. strip (strip tx) = strip tx)"

text \<open>
  A connection to the server: a frame sent is put before \<open>serve_one\<close>, and what the server sends is
  what the client reads next.  The state has the frames on their way to the server and back.
\<close>

type_synonym duplex = "u8 list list \<times> u8 list list"

fun pop_frame :: "u8 list list \<Rightarrow> (u8 list, string) result option \<times> u8 list list" where
  "pop_frame [] = (None, [])"
| "pop_frame (b # bs) = (Some (Ok b), bs)"

definition server_side :: "duplex frames" where
  "server_side = \<lparr>frame_send = (\<lambda>b (i, out). (Ok (), (i, out @ [b]))),
                  frame_next = (\<lambda>(i, out). case pop_frame i of (r, i') \<Rightarrow> (r, (i', out)))\<rparr>"

definition client_side :: "('tx, 'asig, 'esig) codec \<Rightarrow> ('tx, 'asig, 'esig) signer_keys \<Rightarrow> duplex frames" where
  "client_side K keys =
     \<lparr>frame_send = (\<lambda>b (i, out). (Ok (), snd (serve_one server_side K keys (i @ [b], out)))),
      frame_next = (\<lambda>(i, out). case pop_frame out of (r, out') \<Rightarrow> (r, (i, out')))\<rparr>"

lemma request_served:
  assumes law: "codec_law K strip" and served: "serve_command K keys (strip_command strip cmd) = Ok res"
  shows "client_request (client_side K keys) K cmd ([], []) = (Ok (strip_response strip res), ([], []))"
proof -
  obtain b where b: "command_to_vec K cmd = Ok b" "command_from_reader K b = Ok (strip_command strip cmd)"
    using law unfolding codec_law_def by meson
  obtain b' where b': "response_to_vec K res = Ok b'" "response_from_reader K b' = Ok (strip_response strip res)"
    using law unfolding codec_law_def by meson
  have "serve_one server_side K keys ([b], []) = (Ok (), ([], [b']))"
    using b b' served by (simp add: serve_one_def client_recv_def client_send_def server_side_def)
  with b b' show ?thesis
    by (simp add: client_request_def client_send_def client_recv_def client_side_def)
qed

lemma do_handle_client_fails: "do_handle_client F K keys s = Some res \<Longrightarrow> \<not> is_ok (fst res)"
  by (erule do_handle_client.raw_induct [rotated]) (auto split: prod.splits result.splits)

text \<open>A signature the client accepts is one the other side sent for exactly this payload.\<close>

lemma sign_azero_Ok:
  "sign_azero F K payload s = (Ok signature, s') \<longleftrightarrow>
     client_request F K (SignAzero payload) s = (Ok (SignedAzero payload signature), s')"
proof (cases "client_request F K (SignAzero payload) s")
  case (Pair r t)
  then show ?thesis
    by (cases r) (auto simp: sign_azero_def and_then_def split: response.splits if_splits)
qed

lemma sign_eth_hash_Ok:
  "sign_eth_hash F K hash s = (Ok signature, s') \<longleftrightarrow>
     client_request F K (SignEthHash hash) s = (Ok (SignedEthHash hash signature), s')"
proof (cases "client_request F K (SignEthHash hash) s")
  case (Pair r t)
  then show ?thesis
    by (cases r) (auto simp: sign_eth_hash_def and_then_def split: response.splits if_splits)
qed

end
