(* ===== verification/Connections.thy ===== *)
theory Connections
  imports Signer
begin

text \<open>
  The signed connections of the relayer (\<^verbatim>\<open>relayer/src/connections/azero.rs\<close> and \<^verbatim>\<open>eth.rs\<close>): each
  signs with a local key in development mode and through the remote signer otherwise.  The state
  of the client's socket is part of the signer, since every request goes through its mutex.
\<close>

section \<open>Aleph Zero\<close>

datatype ('kp, 's) azero_signer =
    Dev_Signer 'kp
  | Remote_Signer (rs_client: 's) (rs_account_id: account_id)

text \<open>Key pairs, the socket of the remote signer and the transaction client are parameters.\<close>

record ('kp, 'asig) keypair_lib =
  kp_account_id :: "'kp \<Rightarrow> account_id"
  kp_sign :: "'kp \<Rightarrow> u8 list \<Rightarrow> 'asig"

datatype ('tx, 'asig, 'esig) azero_connection_error =
    Azc_Join
  | Azc_Signer "('tx, 'asig, 'esig) client_error"

definition azero_signer_client_new ::
  "(u32 \<Rightarrow> u32 \<Rightarrow> ('s, string) result) \<Rightarrow> 's frames \<Rightarrow> ('tx, 'asig, 'esig) codec \<Rightarrow> u32 \<Rightarrow> u32
    \<Rightarrow> (('kp, 's) azero_signer, ('tx, 'asig, 'esig) azero_connection_error) result" where
  "azero_signer_client_new connect F K cid port =
     try_res (map_err Azc_Signer (map_err Client_IO (connect cid port))) (\<lambda>client.
       case azero_account_id F K client of
         (r, client') \<Rightarrow> map_ok (\<lambda>account_id. Remote_Signer client' account_id) (map_err Azc_Signer r))"

fun azero_signer_account_id :: "('kp, 'asig) keypair_lib \<Rightarrow> ('kp, 's) azero_signer \<Rightarrow> account_id" where
  "azero_signer_account_id P (Dev_Signer keypair) = kp_account_id P keypair"
| "azero_signer_account_id P (Remote_Signer client account_id) = account_id"

fun azero_signer_sign ::
  "('kp, 'asig) keypair_lib \<Rightarrow> 's frames \<Rightarrow> ('tx, 'asig, 'esig) codec \<Rightarrow> u8 list \<Rightarrow> ('kp, 's) azero_signer
    \<Rightarrow> ('asig, ('tx, 'asig, 'esig) client_error) result \<times> ('kp, 's) azero_signer" where
  "azero_signer_sign P F K payload (Dev_Signer keypair) = (Ok (kp_sign P keypair payload), Dev_Signer keypair)"
| "azero_signer_sign P F K payload (Remote_Signer client account_id) =
     (case sign_azero F K payload client of (r, client') \<Rightarrow> (r, Remote_Signer client' account_id))"

text \<open>
  \<^verbatim>\<open>AzeroConnectionWithSigner\<close> and its two constructors.  Of the methods of \<^verbatim>\<open>SignedConnectionApi\<close> the last
  two are \<^verbatim>\<open>unimplemented!\<close>.
\<close>

record ('ws, 'kp, 's) azero_connection =
  ac_connection :: 'ws
  ac_signer :: "('kp, 's) azero_signer"

definition azero_with_signer ::
  "(u32 \<Rightarrow> u32 \<Rightarrow> ('s, string) result) \<Rightarrow> 's frames \<Rightarrow> ('tx, 'asig, 'esig) codec \<Rightarrow> 'ws \<Rightarrow> u32 \<Rightarrow> u32
    \<Rightarrow> (('ws, 'kp, 's) azero_connection, ('tx, 'asig, 'esig) azero_connection_error) result" where
  "azero_with_signer connect F K connection cid port =
     try_res (azero_signer_client_new connect F K cid port) (\<lambda>signer.
       Ok \<lparr>ac_connection = connection, ac_signer = signer\<rparr>)"

definition azero_with_keypair :: "'ws \<Rightarrow> 'kp \<Rightarrow> ('ws, 'kp, 's) azero_connection" where
  "azero_with_keypair connection keypair = \<lparr>ac_connection = connection, ac_signer = Dev_Signer keypair\<rparr>"

definition azero_connection_account_id :: "('kp, 'asig) keypair_lib \<Rightarrow> ('ws, 'kp, 's) azero_connection \<Rightarrow> account_id" where
  "azero_connection_account_id P c = azero_signer_account_id P (ac_signer c)"

definition azero_connection_signer :: "('ws, 'kp, 's) azero_connection \<Rightarrow> ('kp, string) result" where
  "azero_connection_signer c = Panic"

definition azero_try_as_root :: "('ws, 'kp, 's) azero_connection \<Rightarrow> ('root, string) result" where
  "azero_try_as_root c = Panic"

record ('call, 'params, 'partial, 'asig, 'signed, 'prog, 'w) tx_client =
  create_partial_signed :: "'call \<Rightarrow> account_id \<Rightarrow> 'params \<Rightarrow> 'w \<Rightarrow> ('partial, string) result \<times> 'w"
  signer_payload :: "'partial \<Rightarrow> u8 list"
  sign_with_address_and_signature :: "'partial \<Rightarrow> account_id \<Rightarrow> 'asig \<Rightarrow> 'signed"
  submit_and_watch :: "'signed \<Rightarrow> 'w \<Rightarrow> ('prog, string) result \<times> 'w"
  wait_for_in_block_success :: "'prog \<Rightarrow> 'w \<Rightarrow> (tx_info, string) result \<times> 'w"
  wait_for_finalized_success :: "'prog \<Rightarrow> 'w \<Rightarrow> (tx_info, string) result \<times> 'w"
  extrinsic_hash :: "'prog \<Rightarrow> bytes32"
  default_params :: 'params

text \<open>Errors are \<^verbatim>\<open>anyhow\<close> errors, kept as strings; \<open>show_error\<close> renders those of the signer client.\<close>

definition send_tx_with_params ::
  "('call, 'params, 'partial, 'asig, 'signed, 'prog, 'w) tx_client \<Rightarrow> ('kp, 'asig) keypair_lib \<Rightarrow> 's frames
    \<Rightarrow> ('tx, 'asig, 'esig) codec \<Rightarrow> (('tx, 'asig, 'esig) client_error \<Rightarrow> string) \<Rightarrow> 'call \<Rightarrow> 'params \<Rightarrow> tx_status
    \<Rightarrow> ('kp, 's) azero_signer \<Rightarrow> 'w \<Rightarrow> (tx_info, string) result \<times> ('kp, 's) azero_signer \<times> 'w" where
  "send_tx_with_params X P F K show_error tx params st signer w =
     (case create_partial_signed X tx (azero_signer_account_id P signer) params w of
        (Ok partial, w1) \<Rightarrow>
          (case azero_signer_sign P F K (signer_payload X partial) signer of
             (Ok signature, signer') \<Rightarrow>
               (case submit_and_watch X
                       (sign_with_address_and_signature X partial (azero_signer_account_id P signer') signature) w1 of
                  (Ok progress, w2) \<Rightarrow>
                    (case st of
                       InBlock \<Rightarrow> (case wait_for_in_block_success X progress w2 of (r, w3) \<Rightarrow> (r, signer', w3))
                     | Finalized \<Rightarrow> (case wait_for_finalized_success X progress w2 of (r, w3) \<Rightarrow> (r, signer', w3))
                     | Submitted \<Rightarrow> (Ok \<lparr>tx_block_hash = 0, tx_tx_hash = extrinsic_hash X progress\<rparr>, signer', w2))
                | (Err e, w2) \<Rightarrow> (Err (''Failed to submit transaction: '' @ e), signer', w2)
                | (Panic, w2) \<Rightarrow> (Panic, signer', w2))
           | (Err e, signer') \<Rightarrow> (Err (show_error e), signer', w1)
           | (Panic, signer') \<Rightarrow> (Panic, signer', w1))
      | (Err e, w1) \<Rightarrow> (Err e, signer, w1)
      | (Panic, w1) \<Rightarrow> (Panic, signer, w1))"

definition azero_send_tx ::
  "('call, 'params, 'partial, 'asig, 'signed, 'prog, 'w) tx_client \<Rightarrow> ('kp, 'asig) keypair_lib \<Rightarrow> 's frames
    \<Rightarrow> ('tx, 'asig, 'esig) codec \<Rightarrow> (('tx, 'asig, 'esig) client_error \<Rightarrow> string) \<Rightarrow> 'call \<Rightarrow> tx_status
    \<Rightarrow> ('kp, 's) azero_signer \<Rightarrow> 'w \<Rightarrow> (tx_info, string) result \<times> ('kp, 's) azero_signer \<times> 'w" where
  "azero_send_tx X P F K show_error tx st = send_tx_with_params X P F K show_error tx (default_params X) st"

lemma azero_signer_sign_account [simp]:
  "azero_signer_sign P F K payload signer = (r, signer') \<Longrightarrow>
     azero_signer_account_id P signer' = azero_signer_account_id P signer"
  by (cases signer) (auto split: prod.splits)

section \<open>Ethereum\<close>

record 's eth_vsock_signer =
  vs_client :: 's
  vs_chain_id :: u64
  vs_address :: eth_address

datatype ('wallet, 's) ethereum_signer = Local 'wallet | Vsock "'s eth_vsock_signer"

datatype ('tx, 'asig, 'esig) vsock_signer_error =
    Vsock_Join
  | Vsock_SignerClient "('tx, 'asig, 'esig) client_error"
  | Vsock_Eip712 string

datatype ('tx, 'asig, 'esig) ethereum_signer_error =
    LocalWallet_Error string
  | Vsock_Error "('tx, 'asig, 'esig) vsock_signer_error"

text \<open>The local wallet, the message hash and the typed-data encoding of \<^verbatim>\<open>ethers\<close>.\<close>

record ('wallet, 'tx, 'td, 'esig) wallet_lib =
  wallet_sign_message :: "'wallet \<Rightarrow> u8 list \<Rightarrow> ('esig, string) result"
  wallet_sign_transaction :: "'wallet \<Rightarrow> 'tx \<Rightarrow> ('esig, string) result"
  wallet_sign_typed_data :: "'wallet \<Rightarrow> 'td \<Rightarrow> ('esig, string) result"
  wallet_sign_hash :: "'wallet \<Rightarrow> bytes32 \<Rightarrow> ('esig, string) result"
  wallet_address :: "'wallet \<Rightarrow> eth_address"
  wallet_chain_id :: "'wallet \<Rightarrow> u64"
  wallet_with_chain_id :: "u64 \<Rightarrow> 'wallet \<Rightarrow> 'wallet"
  hash_message :: "u8 list \<Rightarrow> bytes32"
  encode_eip712 :: "'td \<Rightarrow> (bytes32, string) result"

definition vsock_sign_hash ::
  "'s frames \<Rightarrow> ('tx, 'asig, 'esig) codec \<Rightarrow> bytes32 \<Rightarrow> 's eth_vsock_signer
    \<Rightarrow> ('esig, ('tx, 'asig, 'esig) vsock_signer_error) result \<times> 's eth_vsock_signer" where
  "vsock_sign_hash F K hash v =
     (case sign_eth_hash F K hash (vs_client v) of (r, c) \<Rightarrow> (map_err Vsock_SignerClient r, v\<lparr>vs_client := c\<rparr>))"

definition vsock_sign_message ::
  "('wallet, 'tx, 'td, 'esig) wallet_lib \<Rightarrow> 's frames \<Rightarrow> ('tx, 'asig, 'esig) codec \<Rightarrow> u8 list \<Rightarrow> 's eth_vsock_signer
    \<Rightarrow> ('esig, ('tx, 'asig, 'esig) vsock_signer_error) result \<times> 's eth_vsock_signer" where
  "vsock_sign_message W F K message v = vsock_sign_hash F K (hash_message W message) v"

definition vsock_sign_transaction ::
  "'s frames \<Rightarrow> ('tx, 'asig, 'esig) codec \<Rightarrow> 'tx \<Rightarrow> 's eth_vsock_signer
    \<Rightarrow> ('esig, ('tx, 'asig, 'esig) vsock_signer_error) result \<times> 's eth_vsock_signer" where
  "vsock_sign_transaction F K tx v =
     (case sign_eth_tx F K tx (vs_client v) of (r, c) \<Rightarrow> (map_err Vsock_SignerClient r, v\<lparr>vs_client := c\<rparr>))"

definition vsock_sign_typed_data ::
  "('wallet, 'tx, 'td, 'esig) wallet_lib \<Rightarrow> 's frames \<Rightarrow> ('tx, 'asig, 'esig) codec \<Rightarrow> 'td \<Rightarrow> 's eth_vsock_signer
    \<Rightarrow> ('esig, ('tx, 'asig, 'esig) vsock_signer_error) result \<times> 's eth_vsock_signer" where
  "vsock_sign_typed_data W F K payload v =
     (case map_err Vsock_Eip712 (encode_eip712 W payload) of
        Ok encoded \<Rightarrow> vsock_sign_hash F K encoded v
      | Err e \<Rightarrow> (Err e, v)
      | Panic \<Rightarrow> (Panic, v))"

text \<open>The dispatch of \<^verbatim>\<open>EthereumSigner\<close>; the local wallet keeps no state.\<close>

definition via_vsock ::
  "('esig, ('tx, 'asig, 'esig) vsock_signer_error) result \<times> 's eth_vsock_signer
    \<Rightarrow> ('esig, ('tx, 'asig, 'esig) ethereum_signer_error) result \<times> ('wallet, 's) ethereum_signer" where
  "via_vsock rv = (case rv of (r, v) \<Rightarrow> (map_err Vsock_Error r, Vsock v))"

fun eth_sign_message ::
  "('wallet, 'tx, 'td, 'esig) wallet_lib \<Rightarrow> 's frames \<Rightarrow> ('tx, 'asig, 'esig) codec \<Rightarrow> u8 list \<Rightarrow> ('wallet, 's) ethereum_signer
    \<Rightarrow> ('esig, ('tx, 'asig, 'esig) ethereum_signer_error) result \<times> ('wallet, 's) ethereum_signer" where
  "eth_sign_message W F K message (Local wallet) =
     (map_err LocalWallet_Error (wallet_sign_message W wallet message), Local wallet)"
| "eth_sign_message W F K message (Vsock v) = via_vsock (vsock_sign_message W F K message v)"

fun eth_sign_tx ::
  "('wallet, 'tx, 'td, 'esig) wallet_lib \<Rightarrow> 's frames \<Rightarrow> ('tx, 'asig, 'esig) codec \<Rightarrow> 'tx \<Rightarrow> ('wallet, 's) ethereum_signer
    \<Rightarrow> ('esig, ('tx, 'asig, 'esig) ethereum_signer_error) result \<times> ('wallet, 's) ethereum_signer" where
  "eth_sign_tx W F K tx (Local wallet) =
     (map_err LocalWallet_Error (wallet_sign_transaction W wallet tx), Local wallet)"
| "eth_sign_tx W F K tx (Vsock v) = via_vsock (vsock_sign_transaction F K tx v)"

fun eth_sign_typed_data ::
  "('wallet, 'tx, 'td, 'esig) wallet_lib \<Rightarrow> 's frames \<Rightarrow> ('tx, 'asig, 'esig) codec \<Rightarrow> 'td \<Rightarrow> ('wallet, 's) ethereum_signer
    \<Rightarrow> ('esig, ('tx, 'asig, 'esig) ethereum_signer_error) result \<times> ('wallet, 's) ethereum_signer" where
  "eth_sign_typed_data W F K payload (Local wallet) =
     (map_err LocalWallet_Error (wallet_sign_typed_data W wallet payload), Local wallet)"
| "eth_sign_typed_data W F K payload (Vsock v) = via_vsock (vsock_sign_typed_data W F K payload v)"

definition vsock_address :: "'s eth_vsock_signer \<Rightarrow> eth_address" where
  "vsock_address v = vs_address v"

definition vsock_chain_id :: "'s eth_vsock_signer \<Rightarrow> u64" where
  "vsock_chain_id v = vs_chain_id v"

definition vsock_with_chain_id :: "u64 \<Rightarrow> 's eth_vsock_signer \<Rightarrow> 's eth_vsock_signer" where
  "vsock_with_chain_id chain_id v = v\<lparr>vs_chain_id := chain_id\<rparr>"

fun eth_signer_address :: "('wallet, 'tx, 'td, 'esig) wallet_lib \<Rightarrow> ('wallet, 's) ethereum_signer \<Rightarrow> eth_address" where
  "eth_signer_address W (Local wallet) = wallet_address W wallet"
| "eth_signer_address W (Vsock v) = vsock_address v"

fun eth_signer_chain_id :: "('wallet, 'tx, 'td, 'esig) wallet_lib \<Rightarrow> ('wallet, 's) ethereum_signer \<Rightarrow> u64" where
  "eth_signer_chain_id W (Local wallet) = wallet_chain_id W wallet"
| "eth_signer_chain_id W (Vsock v) = vsock_chain_id v"

fun eth_signer_with_chain_id ::
  "('wallet, 'tx, 'td, 'esig) wallet_lib \<Rightarrow> u64 \<Rightarrow> ('wallet, 's) ethereum_signer \<Rightarrow> ('wallet, 's) ethereum_signer" where
  "eth_signer_with_chain_id W chain_id (Local wallet) = Local (wallet_with_chain_id W chain_id wallet)"
| "eth_signer_with_chain_id W chain_id (Vsock v) = Vsock (vsock_with_chain_id chain_id v)"

datatype ('tx, 'asig, 'esig) eth_connection_error =
    SignerMiddleware_Error string
  | NonceManager_Error string
  | Connection_Join
  | Connection_SignerClient "('tx, 'asig, 'esig) client_error"

text \<open>
  Building the signed connection: the nonce manager is initialised for the address, then the signer
  middleware is put on top, which asks the provider for the chain id.
\<close>

record ('nm, 'wallet, 's, 'conn) middleware_lib =
  initialize_nonce :: "eth_address \<Rightarrow> ('nm, string) result"
  new_with_provider_chain :: "'nm \<Rightarrow> ('wallet, 's) ethereum_signer \<Rightarrow> ('conn, string) result"

definition with_nonce_manager ::
  "('nm, 'wallet, 's, 'conn) middleware_lib \<Rightarrow> eth_address \<Rightarrow> ('nm, ('tx, 'asig, 'esig) eth_connection_error) result" where
  "with_nonce_manager M address = map_err NonceManager_Error (initialize_nonce M address)"

definition with_local_wallet ::
  "('nm, 'wallet, 's, 'conn) middleware_lib \<Rightarrow> ('wallet, 'tx, 'td, 'esig) wallet_lib \<Rightarrow> 'wallet
    \<Rightarrow> ('conn, ('tx, 'asig, 'esig) eth_connection_error) result" where
  "with_local_wallet M W wallet =
     try_res (with_nonce_manager M (wallet_address W wallet)) (\<lambda>nonce_manager.
       map_err SignerMiddleware_Error (new_with_provider_chain M nonce_manager (Local wallet)))"

definition with_signer ::
  "('nm, 'wallet, 's, 'conn) middleware_lib \<Rightarrow> (u32 \<Rightarrow> u32 \<Rightarrow> ('s, string) result) \<Rightarrow> 's frames
    \<Rightarrow> ('tx, 'asig, 'esig) codec \<Rightarrow> u32 \<Rightarrow> u32 \<Rightarrow> ('conn, ('tx, 'asig, 'esig) eth_connection_error) result" where
  "with_signer M connect F K cid port =
     try_res (map_err Connection_SignerClient (map_err Client_IO (connect cid port))) (\<lambda>client.
       case eth_address_request F K client of
         (r, client') \<Rightarrow>
           try_res (map_err Connection_SignerClient r) (\<lambda>address.
           try_res (with_nonce_manager M address) (\<lambda>nonce_manager.
             map_err SignerMiddleware_Error (new_with_provider_chain M nonce_manager
               (Vsock \<lparr>vs_client = client', vs_chain_id = 0, vs_address = address\<rparr>)))))"

section \<open>Remote and local signing agree\<close>

text \<open>The server holds \<open>wallet\<close>, and a local wallet signs a message by signing its hash.\<close>

definition same_wallet ::
  "('wallet, 'tx, 'td, 'esig) wallet_lib \<Rightarrow> 'wallet \<Rightarrow> ('tx, 'asig, 'esig) signer_keys \<Rightarrow> bool" where
  "same_wallet W wallet keys \<longleftrightarrow>
     eth_sign_hash keys = wallet_sign_hash W wallet \<and> eth_wallet_address keys = wallet_address W wallet \<and>
     (\<forall>m. wallet_sign_message W wallet m = wallet_sign_hash W wallet (hash_message W m))"

lemma remote_sign_hash:
  assumes "codec_law K strip" and "eth_sign_hash keys hash = Ok signature"
  shows "sign_eth_hash (client_side K keys) K hash ([], []) = (Ok signature, ([], []))"
proof -
  have "serve_command K keys (strip_command strip (SignEthHash hash)) = Ok (SignedEthHash hash signature)"
    using assms(2) by (simp add: serve_command_def)
  from request_served [OF assms(1) this] show ?thesis by (simp add: sign_eth_hash_Ok)
qed

end
