(* ===== verification/Signer_Server.thy ===== *)
theory Signer_Server
  imports Signer "HOL-Library.Sublist"
begin

text \<open>
  The server of the remote signer (\<^verbatim>\<open>signer/src/main.rs\<close>) with all its clients: \<^verbatim>\<open>accept_loop\<close> starts one
  task per connection, and the tasks run concurrently with the loop, with each other and with the clients, over one
  shared network.  Key pairs, wallets and the sockets are parameters.
\<close>

section \<open>The server and its keys\<close>

text \<open>
  The libraries the server calls.  All connections live in one network of type \<open>'n\<close>: \<^verbatim>\<open>accept\<close> takes the next
  connection from the listener and returns its handle, and \<open>client_stream\<close> is the framed stream
  (\<^verbatim>\<open>Client::from\<close>) over the connection with the given handle.
\<close>

record ('ak, 'ew, 'l, 'h, 'n, 'tx, 'asig, 'esig) server_lib =
  azero_key_from_string :: "string \<Rightarrow> ('ak, string) result"
  vsock_bind :: "u32 \<Rightarrow> ('l, string) result"
  hex_decode :: "string \<Rightarrow> (u8 list, string) result"
  wallet_from_bytes :: "u8 list \<Rightarrow> ('ew, string) result"
  key_public :: "'ak \<Rightarrow> account_id"
  key_sign :: "'ak \<Rightarrow> u8 list \<Rightarrow> 'asig"
  local_wallet_address :: "'ew \<Rightarrow> eth_address"
  local_wallet_sign_hash :: "'ew \<Rightarrow> bytes32 \<Rightarrow> ('esig, string) result"
  local_wallet_sign_tx :: "'ew \<Rightarrow> 'tx \<Rightarrow> ('esig, string) result"
  listener_local_addr :: "'l \<Rightarrow> (u32, string) result"
  vsock_accept :: "'l \<Rightarrow> 'n \<Rightarrow> ('h, string) result \<times> 'n"
  client_stream :: "'h \<Rightarrow> 'n frames"

record ('ak, 'ew, 'l) server =
  srv_listener :: 'l
  srv_azero_key :: 'ak
  srv_eth_wallet :: 'ew

definition server_new ::
  "('ak, 'ew, 'l, 'h, 'n, 'tx, 'asig, 'esig) server_lib \<Rightarrow> string \<Rightarrow> string \<Rightarrow> u32
    \<Rightarrow> (('ak, 'ew, 'l) server, ('tx, 'asig, 'esig) signer_error) result" where
  "server_new V azero_key eth_key port =
     try_res (map_err Key_Error (azero_key_from_string V azero_key)) (\<lambda>azero_key.
     try_res (map_err IO_Error (vsock_bind V port)) (\<lambda>listener.
     try_res (map_err Hex_Error (hex_decode V eth_key)) (\<lambda>eth_key.
     try_res (map_err Wallet_Error (wallet_from_bytes V eth_key)) (\<lambda>eth_wallet.
       Ok \<lparr>srv_listener = listener, srv_azero_key = azero_key, srv_eth_wallet = eth_wallet\<rparr>))))"

definition server_azero_account_id ::
  "('ak, 'ew, 'l, 'h, 'n, 'tx, 'asig, 'esig) server_lib \<Rightarrow> ('ak, 'ew, 'l) server \<Rightarrow> account_id" where
  "server_azero_account_id V srv = key_public V (srv_azero_key srv)"

definition server_eth_address ::
  "('ak, 'ew, 'l, 'h, 'n, 'tx, 'asig, 'esig) server_lib \<Rightarrow> ('ak, 'ew, 'l) server \<Rightarrow> eth_address" where
  "server_eth_address V srv = local_wallet_address V (srv_eth_wallet srv)"

definition server_local_addr ::
  "('ak, 'ew, 'l, 'h, 'n, 'tx, 'asig, 'esig) server_lib \<Rightarrow> ('ak, 'ew, 'l) server
    \<Rightarrow> (u32, ('tx, 'asig, 'esig) signer_error) result" where
  "server_local_addr V srv = map_err IO_Error (listener_local_addr V (srv_listener srv))"

text \<open>The keys a client task works with: copies of the server's.\<close>

definition server_keys ::
  "('ak, 'ew, 'l, 'h, 'n, 'tx, 'asig, 'esig) server_lib \<Rightarrow> ('ak, 'ew, 'l) server \<Rightarrow> ('tx, 'asig, 'esig) signer_keys" where
  "server_keys V srv =
     \<lparr>azero_public = key_public V (srv_azero_key srv), azero_sign = key_sign V (srv_azero_key srv),
      eth_wallet_address = local_wallet_address V (srv_eth_wallet srv),
      eth_sign_hash = local_wallet_sign_hash V (srv_eth_wallet srv),
      eth_sign_transaction = local_wallet_sign_tx V (srv_eth_wallet srv)\<rparr>"

section \<open>Accepting and serving clients\<close>

text \<open>
  A client task owns the handle of its connection.  It is waiting for a command, about to send the response to
  the one it has read, or has ended with the result \<^verbatim>\<open>handle_client\<close> logs.  Between reading a command and
  sending its response any other task may run.
\<close>

datatype ('tx, 'asig, 'esig) session_pc =
    Receiving
  | Sending "('tx, 'asig, 'esig) response"
  | Disconnected "(unit, ('tx, 'asig, 'esig) signer_error) result"

record ('h, 'tx, 'asig, 'esig) session =
  client_handle :: 'h
  session_at :: "('tx, 'asig, 'esig) session_pc"

record ('ak, 'ew, 'l, 'h, 'n, 'tx, 'asig, 'esig) server_state =
  ss_server :: "('ak, 'ew, 'l) server"
  ss_sessions :: "('h, 'tx, 'asig, 'esig) session list"
  ss_net :: 'n
  ss_returned :: "('tx, 'asig, 'esig) signer_error option"

definition accept_one ::
  "('ak, 'ew, 'l, 'h, 'n, 'tx, 'asig, 'esig) server_lib \<Rightarrow> ('ak, 'ew, 'l, 'h, 'n, 'tx, 'asig, 'esig) server_state
    \<Rightarrow> (unit, ('tx, 'asig, 'esig) signer_error) result \<times> ('ak, 'ew, 'l, 'h, 'n, 'tx, 'asig, 'esig) server_state" where
  "accept_one V st =
     (case vsock_accept V (srv_listener (ss_server st)) (ss_net st) of
        (r, net) \<Rightarrow>
          let st = st\<lparr>ss_net := net\<rparr> in
          (case map_err IO_Error r of
             Ok handle \<Rightarrow> (Ok (), st\<lparr>ss_sessions := ss_sessions st @ [\<lparr>client_handle = handle, session_at = Receiving\<rparr>]\<rparr>)
           | Err e \<Rightarrow> (Err e, st)
           | Panic \<Rightarrow> (Panic, st)))"

text \<open>
  The loop of \<^verbatim>\<open>do_handle_client\<close>, cut where it waits: \<open>session_receive\<close> runs from \<^verbatim>\<open>recv\<close> to the \<^verbatim>\<open>send\<close> of the
  branch for the command, and \<open>session_reply\<close> is that \<^verbatim>\<open>send\<close>.  An error or a panic ends the task, and nothing else.
\<close>

definition session_receive ::
  "'n frames \<Rightarrow> ('tx, 'asig, 'esig) codec \<Rightarrow> ('tx, 'asig, 'esig) signer_keys \<Rightarrow> 'n
    \<Rightarrow> ('tx, 'asig, 'esig) session_pc \<times> 'n" where
  "session_receive F K keys n =
     (case client_recv F (command_from_reader K) n of
        (received, n') \<Rightarrow>
          (case try_res (map_err Stream_Error received) (serve_command K keys) of
             Ok response \<Rightarrow> (Sending response, n')
           | r \<Rightarrow> (Disconnected (map_ok (\<lambda>_. ()) r), n')))"

definition session_reply ::
  "'n frames \<Rightarrow> ('tx, 'asig, 'esig) codec \<Rightarrow> ('tx, 'asig, 'esig) response \<Rightarrow> 'n
    \<Rightarrow> ('tx, 'asig, 'esig) session_pc \<times> 'n" where
  "session_reply F K response n =
     (case client_send F (response_to_vec K) response n of
        (r, n') \<Rightarrow>
          (case map_err Stream_Error r of
             Ok _ \<Rightarrow> (Receiving, n')
           | r \<Rightarrow> (Disconnected r, n')))"

fun session_turn ::
  "'n frames \<Rightarrow> ('tx, 'asig, 'esig) codec \<Rightarrow> ('tx, 'asig, 'esig) signer_keys \<Rightarrow> ('tx, 'asig, 'esig) session_pc \<Rightarrow> 'n
    \<Rightarrow> ('tx, 'asig, 'esig) session_pc \<times> 'n" where
  "session_turn F K keys Receiving n = session_receive F K keys n"
| "session_turn F K keys (Sending response) n = session_reply F K response n"
| "session_turn F K keys (Disconnected r) n = (Disconnected r, n)"

text \<open>Put together, the two halves are one turn of the loop.\<close>

lemma serve_one_split:
  fixes K :: "('tx, 'asig, 'esig) codec"
  shows "serve_one F K keys n =
     (case session_receive F K keys n of
        (Sending response, n') \<Rightarrow>
          (case session_reply F K response n' of (Disconnected r, n'') \<Rightarrow> (r, n'') | (_, n'') \<Rightarrow> (Ok (), n''))
      | (Disconnected r, n') \<Rightarrow> (r, n')
      | (Receiving, n') \<Rightarrow> (Ok (), n'))"
proof -
  obtain received :: "('tx command, ('tx, 'asig, 'esig) client_error) result" and n1
    where recv: "client_recv F (command_from_reader K) n = (received, n1)" by fastforce
  show ?thesis
  proof (cases "try_res (map_err Stream_Error received) (serve_command K keys)")
    case (Ok response)
    obtain r :: "(unit, ('tx, 'asig, 'esig) client_error) result" and n2
      where "client_send F (response_to_vec K) response n1 = (r, n2)" by fastforce
    with recv Ok show ?thesis by (cases r) (simp_all add: serve_one_def session_receive_def session_reply_def)
  qed (simp_all add: serve_one_def session_receive_def recv)
qed

section \<open>What the sockets promise\<close>

text \<open>
  What has happened on a connection, seen from outside: the frames its client has sent, those the server has
  read, those the server has sent, and which connections were accepted.
\<close>

record ('h, 'n) net_view =
  frames_sent :: "'h \<Rightarrow> 'n \<Rightarrow> u8 list list"
  frames_taken :: "'h \<Rightarrow> 'n \<Rightarrow> u8 list list"
  frames_put :: "'h \<Rightarrow> 'n \<Rightarrow> u8 list list"
  accepted_handles :: "'n \<Rightarrow> 'h set"

definition same_elsewhere :: "('h, 'n) net_view \<Rightarrow> 'h \<Rightarrow> 'n \<Rightarrow> 'n \<Rightarrow> bool" where
  "same_elsewhere A h n n' \<longleftrightarrow> (\<forall>h'. h' \<noteq> h \<longrightarrow> frames_taken A h' n' = frames_taken A h' n \<and> frames_put A h' n' = frames_put A h' n)"

text \<open>
  A stream socket delivers what was sent, in order; an operation on one connection leaves the others alone;
  and \<^verbatim>\<open>accept\<close> returns a connection it has not returned before and on which the server has not yet read or written.
\<close>

definition socket_law :: "('ak, 'ew, 'l, 'h, 'n, 'tx, 'asig, 'esig) server_lib \<Rightarrow> ('h, 'n) net_view \<Rightarrow> bool" where
  "socket_law V A \<longleftrightarrow>
     (\<forall>h n. prefix (frames_taken A h n) (frames_sent A h n)) \<and>
     (\<forall>l n h n'. vsock_accept V l n = (Ok h, n') \<longrightarrow>
        h \<notin> accepted_handles A n \<and> accepted_handles A n' = insert h (accepted_handles A n) \<and> frames_taken A h n' = [] \<and> frames_put A h n' = [] \<and>
        same_elsewhere A h n n') \<and>
     (\<forall>l n r n'. vsock_accept V l n = (r, n') \<longrightarrow> \<not> is_ok r \<longrightarrow>
        accepted_handles A n' = accepted_handles A n \<and> (\<forall>h. frames_taken A h n' = frames_taken A h n \<and> frames_put A h n' = frames_put A h n)) \<and>
     (\<forall>h n r n'. frame_next (client_stream V h) n = (r, n') \<longrightarrow>
        accepted_handles A n' = accepted_handles A n \<and> same_elsewhere A h n n' \<and> frames_put A h n' = frames_put A h n \<and>
        frames_taken A h n' = frames_taken A h n @ (case r of Some (Ok b) \<Rightarrow> [b] | _ \<Rightarrow> [])) \<and>
     (\<forall>h b n r n'. frame_send (client_stream V h) b n = (r, n') \<longrightarrow>
        accepted_handles A n' = accepted_handles A n \<and> same_elsewhere A h n n' \<and> frames_taken A h n' = frames_taken A h n \<and>
        frames_put A h n' = frames_put A h n @ (if is_ok r then [b] else []))"

lemma socket_accepts:
  assumes "socket_law V A" and "vsock_accept V l n = (Ok h, n')"
  shows "h \<notin> accepted_handles A n" and "accepted_handles A n' = insert h (accepted_handles A n)"
    and "frames_taken A h n' = []" and "frames_put A h n' = []" and "same_elsewhere A h n n'"
  using assms unfolding socket_law_def by metis+

lemma socket_refuses:
  assumes "socket_law V A" and "vsock_accept V l n = (r, n')" and "\<not> is_ok r"
  shows "accepted_handles A n' = accepted_handles A n" and "frames_taken A h n' = frames_taken A h n"
    and "frames_put A h n' = frames_put A h n"
  using assms unfolding socket_law_def by metis+

text \<open>The clients connect, send, read and hang up as they like; they cannot read or write in the server's name.\<close>

definition clients_move :: "('h, 'n) net_view \<Rightarrow> 'n \<Rightarrow> 'n \<Rightarrow> bool" where
  "clients_move A n n' \<longleftrightarrow>
     accepted_handles A n' = accepted_handles A n \<and>
     (\<forall>h. frames_taken A h n' = frames_taken A h n \<and> frames_put A h n' = frames_put A h n \<and> prefix (frames_sent A h n) (frames_sent A h n'))"

section \<open>The server with its clients\<close>

text \<open>
  The server runs until \<^verbatim>\<open>accept_loop\<close> returns an error, which ends the process with all its tasks.
\<close>

inductive server_step ::
  "('ak, 'ew, 'l, 'h, 'n, 'tx, 'asig, 'esig) server_lib \<Rightarrow> ('h, 'n) net_view \<Rightarrow> ('tx, 'asig, 'esig) codec
    \<Rightarrow> ('ak, 'ew, 'l, 'h, 'n, 'tx, 'asig, 'esig) server_state \<Rightarrow> ('ak, 'ew, 'l, 'h, 'n, 'tx, 'asig, 'esig) server_state \<Rightarrow> bool"
  for V A K where
  accept: "ss_returned st = None \<Longrightarrow> accept_one V st = (Ok (), st') \<Longrightarrow> server_step V A K st st'"
| accept_error: "ss_returned st = None \<Longrightarrow> accept_one V st = (Err e, st') \<Longrightarrow>
     server_step V A K st (st'\<lparr>ss_returned := Some e\<rparr>)"
| serve: "ss_returned st = None \<Longrightarrow> i < length (ss_sessions st) \<Longrightarrow> c = ss_sessions st ! i \<Longrightarrow>
     session_turn (client_stream V (client_handle c)) K (server_keys V (ss_server st)) (session_at c) (ss_net st) = (pc, net) \<Longrightarrow>
     server_step V A K st (st\<lparr>ss_sessions := (ss_sessions st)[i := c\<lparr>session_at := pc\<rparr>], ss_net := net\<rparr>)"
| clients: "clients_move A (ss_net st) net \<Longrightarrow> server_step V A K st (st\<lparr>ss_net := net\<rparr>)"

inductive server_reaches ::
  "('ak, 'ew, 'l, 'h, 'n, 'tx, 'asig, 'esig) server_lib \<Rightarrow> ('h, 'n) net_view \<Rightarrow> ('tx, 'asig, 'esig) codec
    \<Rightarrow> ('ak, 'ew, 'l) server \<Rightarrow> 'n \<Rightarrow> ('ak, 'ew, 'l, 'h, 'n, 'tx, 'asig, 'esig) server_state \<Rightarrow> bool"
  for V A K srv n0 where
  started: "server_reaches V A K srv n0 \<lparr>ss_server = srv, ss_sessions = [], ss_net = n0, ss_returned = None\<rparr>"
| step: "server_reaches V A K srv n0 st \<Longrightarrow> server_step V A K st st' \<Longrightarrow> server_reaches V A K srv n0 st'"

section \<open>Every client gets the answers to its own commands\<close>

text \<open>What the holder of the keys of \<open>srv\<close> answers to a command.\<close>

fun right_response ::
  "('ak, 'ew, 'l, 'h, 'n, 'tx, 'asig, 'esig) server_lib \<Rightarrow> ('tx, 'asig, 'esig) codec \<Rightarrow> ('ak, 'ew, 'l) server
    \<Rightarrow> 'tx command \<Rightarrow> ('tx, 'asig, 'esig) response \<Rightarrow> bool" where
  "right_response V K srv Ping res \<longleftrightarrow> res = Pong"
| "right_response V K srv AccountIdAzero res \<longleftrightarrow> res = Resp_AccountIdAzero (key_public V (srv_azero_key srv))"
| "right_response V K srv (SignAzero payload) res \<longleftrightarrow> res = SignedAzero payload (key_sign V (srv_azero_key srv) payload)"
| "right_response V K srv EthAddress res \<longleftrightarrow> res = Resp_EthAddress (local_wallet_address V (srv_eth_wallet srv))"
| "right_response V K srv (SignEthHash h) res \<longleftrightarrow>
     (\<exists>signature. local_wallet_sign_hash V (srv_eth_wallet srv) h = Ok signature \<and> res = SignedEthHash h signature)"
| "right_response V K srv (SignEthTx tx c) res \<longleftrightarrow>
     (\<exists>signature. local_wallet_sign_tx V (srv_eth_wallet srv) (tx_set_chain_id K c tx) = Ok signature \<and>
        res = SignedEthTx (tx_set_chain_id K c tx) signature c)"

lemma serve_command_right:
  "serve_command K (server_keys V srv) cmd = Ok res \<Longrightarrow> right_response V K srv cmd res"
  by (cases cmd) (auto simp: serve_command_def server_keys_def Let_def result_elims)

definition right_answer ::
  "('ak, 'ew, 'l, 'h, 'n, 'tx, 'asig, 'esig) server_lib \<Rightarrow> ('tx, 'asig, 'esig) codec \<Rightarrow> ('ak, 'ew, 'l) server
    \<Rightarrow> u8 list \<Rightarrow> u8 list \<Rightarrow> bool" where
  "right_answer V K srv frame answer \<longleftrightarrow>
     (\<exists>cmd res. command_from_reader K frame = Ok cmd \<and> right_response V K srv cmd res \<and> response_to_vec K res = Ok answer)"

text \<open>
  On the connection of a task, the answers sent belong to the frames read, one by one, and what is left over is
  the command being answered.
\<close>

fun left_over ::
  "('ak, 'ew, 'l, 'h, 'n, 'tx, 'asig, 'esig) server_lib \<Rightarrow> ('tx, 'asig, 'esig) codec \<Rightarrow> ('ak, 'ew, 'l) server
    \<Rightarrow> ('tx, 'asig, 'esig) session_pc \<Rightarrow> u8 list list \<Rightarrow> bool" where
  "left_over V K srv Receiving fs \<longleftrightarrow> fs = []"
| "left_over V K srv (Sending res) fs \<longleftrightarrow>
     (\<exists>f cmd. fs = [f] \<and> command_from_reader K f = Ok cmd \<and> right_response V K srv cmd res)"
| "left_over V K srv (Disconnected r) fs \<longleftrightarrow> length fs \<le> 1 \<and> \<not> is_ok r"

definition session_inv ::
  "('ak, 'ew, 'l, 'h, 'n, 'tx, 'asig, 'esig) server_lib \<Rightarrow> ('h, 'n) net_view \<Rightarrow> ('tx, 'asig, 'esig) codec
    \<Rightarrow> ('ak, 'ew, 'l) server \<Rightarrow> 'n \<Rightarrow> ('h, 'tx, 'asig, 'esig) session \<Rightarrow> bool" where
  "session_inv V A K srv n c \<longleftrightarrow>
     (\<exists>answered rest. frames_taken A (client_handle c) n = answered @ rest \<and>
        list_all2 (right_answer V K srv) answered (frames_put A (client_handle c) n) \<and> left_over V K srv (session_at c) rest)"

definition server_inv ::
  "('ak, 'ew, 'l, 'h, 'n, 'tx, 'asig, 'esig) server_lib \<Rightarrow> ('h, 'n) net_view \<Rightarrow> ('tx, 'asig, 'esig) codec
    \<Rightarrow> ('ak, 'ew, 'l) server \<Rightarrow> ('ak, 'ew, 'l, 'h, 'n, 'tx, 'asig, 'esig) server_state \<Rightarrow> bool" where
  "server_inv V A K srv st \<longleftrightarrow>
     ss_server st = srv \<and> distinct (map client_handle (ss_sessions st)) \<and>
     client_handle ` set (ss_sessions st) \<subseteq> accepted_handles A (ss_net st) \<and>
     (\<forall>c\<in>set (ss_sessions st). session_inv V A K srv (ss_net st) c)"

lemma session_inv_cong:
  "frames_taken A (client_handle c) n' = frames_taken A (client_handle c) n \<Longrightarrow> frames_put A (client_handle c) n' = frames_put A (client_handle c) n \<Longrightarrow>
     session_inv V A K srv n' c = session_inv V A K srv n c"
  by (simp add: session_inv_def)

lemma session_inv_elsewhere:
  "same_elsewhere A h n n' \<Longrightarrow> client_handle c \<noteq> h \<Longrightarrow> session_inv V A K srv n c \<Longrightarrow> session_inv V A K srv n' c"
  by (simp add: session_inv_def same_elsewhere_def)

lemma session_inv_ended:
  "frames_taken A (client_handle c) n = answered @ [f] \<Longrightarrow>
     list_all2 (right_answer V K srv) answered (frames_put A (client_handle c) n) \<Longrightarrow> \<not> is_ok r \<Longrightarrow>
     session_inv V A K srv n (c\<lparr>session_at := Disconnected r\<rparr>)"
  unfolding session_inv_def by (intro exI [of _ answered] exI [of _ "[f]"]) simp

lemma session_receive_inv:
  assumes law: "socket_law V A" and inv: "session_inv V A K srv n c" and at: "session_at c = Receiving"
    and turn: "session_receive (client_stream V (client_handle c)) K (server_keys V srv) n = (pc, n')"
  shows "session_inv V A K srv n' (c\<lparr>session_at := pc\<rparr>)"
proof -
  let ?F = "client_stream V (client_handle c)"
  obtain r n1 where frame: "frame_next ?F n = (r, n1)" by fastforce
  then have n': "n' = n1" and pc: "pc = fst (session_receive ?F K (server_keys V srv) n)"
    using turn by (auto simp: session_receive_def client_recv_def split: prod.splits option.splits result.splits)
  have views: "frames_put A (client_handle c) n' = frames_put A (client_handle c) n"
    "frames_taken A (client_handle c) n' = frames_taken A (client_handle c) n @ (case r of Some (Ok b) \<Rightarrow> [b] | _ \<Rightarrow> [])"
    using law frame n' unfolding socket_law_def by blast+
  have rest: "left_over V K srv pc (case r of Some (Ok b) \<Rightarrow> [b] | _ \<Rightarrow> [])"
    unfolding pc session_receive_def client_recv_def frame
    by (auto simp: result_elims dest: serve_command_right split: option.splits result.splits)
  have "list_all2 (right_answer V K srv) (frames_taken A (client_handle c) n) (frames_put A (client_handle c) n)"
    using inv at by (auto simp: session_inv_def)
  with views rest show ?thesis by (auto simp: session_inv_def)
qed

lemma session_reply_inv:
  assumes law: "socket_law V A" and inv: "session_inv V A K srv n c" and at: "session_at c = Sending response"
    and turn: "session_reply (client_stream V (client_handle c)) K response n = (pc, n')"
  shows "session_inv V A K srv n' (c\<lparr>session_at := pc\<rparr>)"
proof -
  let ?F = "client_stream V (client_handle c)"
  obtain answered f cmd where before: "frames_taken A (client_handle c) n = answered @ [f]"
      "list_all2 (right_answer V K srv) answered (frames_put A (client_handle c) n)"
      "command_from_reader K f = Ok cmd" "right_response V K srv cmd response"
    using inv at by (auto simp: session_inv_def)
  show ?thesis
  proof (cases "response_to_vec K response")
    case (Ok b)
    obtain r n1 where send: "frame_send ?F b n = (r, n1)" by fastforce
    have views: "frames_taken A (client_handle c) n1 = frames_taken A (client_handle c) n" "frames_put A (client_handle c) n1 = frames_put A (client_handle c) n @ (if is_ok r then [b] else [])"
      using law send unfolding socket_law_def by blast+
    have "right_answer V K srv f b" using before Ok by (auto simp: right_answer_def)
    then have "is_ok r \<Longrightarrow> list_all2 (right_answer V K srv) (answered @ [f]) (frames_put A (client_handle c) n1)"
      using views before(2) by (simp add: list_all2_appendI)
    moreover have "n' = n1" "is_ok r \<Longrightarrow> pc = Receiving" "\<not> is_ok r \<Longrightarrow> \<exists>res. pc = Disconnected res \<and> \<not> is_ok res"
      using turn Ok send by (cases r; auto simp: session_reply_def client_send_def)+
    ultimately show ?thesis
      using views before(1,2) session_inv_ended [of A c n1 answered f V K srv]
      by (cases "is_ok r") (auto simp: session_inv_def [of V A K srv n1 "c\<lparr>session_at := Receiving\<rparr>"])
  qed (use turn session_inv_ended [OF before(1,2)] in \<open>auto simp: session_reply_def client_send_def\<close>)
qed

lemma session_turn_inv:
  assumes "socket_law V A" and "session_inv V A K srv n c"
    and "session_turn (client_stream V (client_handle c)) K (server_keys V srv) (session_at c) n = (pc, n')"
  shows "session_inv V A K srv n' (c\<lparr>session_at := pc\<rparr>)"
proof (cases "session_at c")
  case (Disconnected r)
  with assms have "n' = n" "pc = session_at c" by auto
  with assms(2) show ?thesis by simp
qed (use assms session_receive_inv session_reply_inv in auto)

lemma session_turn_elsewhere:
  assumes "socket_law V A" and "session_turn (client_stream V h) K keys pc n = (pc', n')"
  shows "accepted_handles A n' = accepted_handles A n" and "same_elsewhere A h n n'"
proof -
  have recv: "accepted_handles A m = accepted_handles A n \<and> same_elsewhere A h n m" if "frame_next (client_stream V h) n = (r, m)" for r m
    using assms(1) that unfolding socket_law_def by blast
  have send: "accepted_handles A m = accepted_handles A n \<and> same_elsewhere A h n m" if "frame_send (client_stream V h) b n = (r, m)" for b r m
    using assms(1) that unfolding socket_law_def by blast
  have "accepted_handles A n' = accepted_handles A n \<and> same_elsewhere A h n n'"
  proof (cases pc)
    case Receiving
    then show ?thesis using assms(2) recv
      by (auto simp: session_receive_def client_recv_def split: prod.splits option.splits result.splits)
  next
    case (Sending response)
    then show ?thesis using assms(2) send
      by (cases "response_to_vec K response")
         (auto simp: session_reply_def client_send_def same_elsewhere_def split: prod.splits result.splits)
  qed (use assms(2) in \<open>simp add: same_elsewhere_def\<close>)
  then show "accepted_handles A n' = accepted_handles A n" "same_elsewhere A h n n'" by blast+
qed

lemma accept_inv:
  assumes law: "socket_law V A" and inv: "server_inv V A K srv st" and accept: "accept_one V st = (r, st')"
  shows "server_inv V A K srv st'"
proof -
  obtain x net where call: "vsock_accept V (srv_listener (ss_server st)) (ss_net st) = (x, net)" by fastforce
  show ?thesis
  proof (cases x)
    case (Ok h)
    note fresh = socket_accepts [OF law call [unfolded Ok]]
    have "session_inv V A K srv net c" if c: "c \<in> set (ss_sessions st)" for c
    proof (rule session_inv_elsewhere [OF fresh(5)])
      show "client_handle c \<noteq> h" using inv c fresh(1) unfolding server_inv_def by blast
      show "session_inv V A K srv (ss_net st) c" using inv c unfolding server_inv_def by blast
    qed
    moreover have "session_inv V A K srv net \<lparr>client_handle = h, session_at = Receiving\<rparr>"
      using fresh(3,4) by (simp add: session_inv_def)
    moreover have "client_handle ` set (ss_sessions st) \<subseteq> accepted_handles A net" "h \<notin> client_handle ` set (ss_sessions st)"
      using inv fresh(1,2) unfolding server_inv_def by blast+
    moreover have "st' = st\<lparr>ss_net := net, ss_sessions := ss_sessions st @ [\<lparr>client_handle = h, session_at = Receiving\<rparr>]\<rparr>"
      using accept call Ok by (simp add: accept_one_def Let_def)
    ultimately show ?thesis using inv fresh(2) by (auto simp: server_inv_def)
  qed (use inv accept call socket_refuses [OF law call] in
      \<open>clarsimp simp: server_inv_def session_inv_def accept_one_def Let_def\<close>)+
qed

lemma serve_inv:
  assumes law: "socket_law V A" and inv: "server_inv V A K srv st" and i: "i < length (ss_sessions st)"
    and c: "c = ss_sessions st ! i"
    and turn: "session_turn (client_stream V (client_handle c)) K (server_keys V (ss_server st)) (session_at c) (ss_net st) = (pc, net)"
  shows "server_inv V A K srv (st\<lparr>ss_sessions := (ss_sessions st)[i := c\<lparr>session_at := pc\<rparr>], ss_net := net\<rparr>)"
proof -
  let ?cs = "ss_sessions st"
  note elsewhere = session_turn_elsewhere [OF law turn]
  have srv: "ss_server st = srv" using inv by (simp add: server_inv_def)
  have clients: "map client_handle (?cs[i := c\<lparr>session_at := pc\<rparr>]) = map client_handle ?cs"
    using i c by (simp add: map_update list_update_same_conv)
  have own: "session_inv V A K srv net (c\<lparr>session_at := pc\<rparr>)"
    using inv i c turn srv by (intro session_turn_inv [OF law]) (auto simp: server_inv_def)
  have "session_inv V A K srv net d" if d: "d \<in> set (?cs[i := c\<lparr>session_at := pc\<rparr>])" for d
  proof -
    obtain j where j: "j < length ?cs" "d = ?cs[i := c\<lparr>session_at := pc\<rparr>] ! j" using d by (auto simp: in_set_conv_nth)
    show ?thesis
    proof (cases "j = i")
      case False
      then have d: "d = ?cs ! j" using j(2) by simp
      show ?thesis
      proof (rule session_inv_elsewhere [OF elsewhere(2)])
        have "distinct (map client_handle ?cs)" using inv by (simp add: server_inv_def)
        then show "client_handle d \<noteq> client_handle c" using False i j(1) c d by (simp add: distinct_conv_nth)
        show "session_inv V A K srv (ss_net st) d" using inv j(1) d unfolding server_inv_def by simp
      qed
    qed (use own j i in simp)
  qed
  moreover have "client_handle ` set (?cs[i := c\<lparr>session_at := pc\<rparr>]) = client_handle ` set ?cs"
    using clients by (metis set_map)
  ultimately show ?thesis using inv clients elsewhere(1) by (simp add: server_inv_def)
qed

lemma server_reaches_inv:
  assumes run: "server_reaches V A K srv n0 st" and law: "socket_law V A"
  shows "server_inv V A K srv st"
  using run
proof induction
  case started
  show ?case by (simp add: server_inv_def)
next
  case (step st st')
  from step(2) show ?case
  proof cases
    case accept
    with step(3) law show ?thesis using accept_inv by blast
  next
    case (accept_error e st'')
    have "server_inv V A K srv st''" using accept_inv [OF law step(3) accept_error(3)] .
    with accept_error(1) show ?thesis by (simp add: server_inv_def)
  next
    case (serve i c pc net)
    with serve_inv [OF law step(3)] show ?thesis by blast
  next
    case (clients net)
    then have "session_inv V A K srv net c = session_inv V A K srv (ss_net st) c" for c
      by (intro session_inv_cong) (simp_all add: clients_move_def)
    with clients step(3) show ?thesis by (simp add: server_inv_def clients_move_def)
  qed
qed

end
