(* ===== verification/Advisory_Listener.thy ===== *)
theory Advisory_Listener
  imports Contracts_Azero
begin

text \<open>
  The advisory listener (\<^verbatim>\<open>relayer/src/listeners/advisory.rs\<close>): it polls the advisory contracts and
  stores in the shared flag \<^verbatim>\<open>emergency\<close> whether one of them reports an emergency.
\<close>

datatype advisory_listener_error =
    Adv_AlephClient string
  | Adv_AzeroContract azero_contract_error

text \<open>The contracts to poll; without addresses the \<^verbatim>\<open>expect\<close> panics.\<close>

fun advisory_instances ::
  "('c, 't, 'o, 'raw, 'w) aleph_lib \<Rightarrow> string \<Rightarrow> 'c advisory_instance list \<Rightarrow> string list
    \<Rightarrow> ('c advisory_instance list, advisory_listener_error) result" where
  "advisory_instances L metadata acc [] = Ok acc"
| "advisory_instances L metadata acc (address # addresses) =
     try_res (map_err Adv_AzeroContract (advisory_instance_new L address metadata)) (\<lambda>inst.
       advisory_instances L metadata (acc @ [inst]) addresses)"

definition advisory_setup ::
  "('c, 't, 'o, 'raw, 'w) aleph_lib \<Rightarrow> config \<Rightarrow> ('c advisory_instance list, advisory_listener_error) result" where
  "advisory_setup L cfg =
     (case cfg_advisory_contract_addresses cfg of
        None \<Rightarrow> Panic
      | Some addresses \<Rightarrow> advisory_instances L (cfg_advisory_contract_metadata cfg) [] addresses)"

text \<open>\<^verbatim>\<open>join_all\<close>: every contract is asked, the answers come in the order of the contracts.\<close>

fun ask_advisories ::
  "('c, 't, 'o, 'raw, 'w) aleph_lib \<Rightarrow> 'c advisory_instance list \<Rightarrow> 'w
    \<Rightarrow> (bool \<times> account_id, azero_contract_error) result list \<times> 'w" where
  "ask_advisories L [] w = ([], w)"
| "ask_advisories L (inst # insts) w =
     (case advisory_read_emergency L inst w of (answer, w1) \<Rightarrow>
      case ask_advisories L insts w1 of (answers, w2) \<Rightarrow> (answer # answers, w2))"

text \<open>
  The loop over the answers: it stops at the first emergency, fails at the first error, and asks for
  the current block (for the log) when the emergency is new.
\<close>

fun scan_answers ::
  "('w \<Rightarrow> (u32 option, string) result \<times> 'w) \<Rightarrow> bool \<Rightarrow> (bool \<times> account_id, azero_contract_error) result list \<Rightarrow> 'w
    \<Rightarrow> (bool, advisory_listener_error) result \<times> 'w" where
  "scan_answers get_block_number_opt previous [] w = (Ok False, w)"
| "scan_answers get_block_number_opt previous (Ok (is_emergency, address) # answers) w =
     (if is_emergency then
        if True \<noteq> previous then
          (case get_block_number_opt w of
             (Ok _, w') \<Rightarrow> (Ok True, w')
           | (Err e, w') \<Rightarrow> (Err (Adv_AlephClient e), w')
           | (Panic, w') \<Rightarrow> (Panic, w'))
        else (Ok True, w)
      else scan_answers get_block_number_opt previous answers w)"
| "scan_answers get_block_number_opt previous (Err why # answers) w = (Err (Adv_AzeroContract why), w)"
| "scan_answers get_block_number_opt previous (Panic # answers) w = (Panic, w)"

text \<open>One round: the flag it stores, or the error with which the listener ends.\<close>

definition advisory_round ::
  "('c, 't, 'o, 'raw, 'w) aleph_lib \<Rightarrow> ('w \<Rightarrow> (u32 option, string) result \<times> 'w) \<Rightarrow> 'c advisory_instance list
    \<Rightarrow> bool \<Rightarrow> 'w \<Rightarrow> (bool, advisory_listener_error) result \<times> 'w" where
  "advisory_round L get_block_number_opt contracts emergency w =
     (case ask_advisories L contracts w of (answers, w1) \<Rightarrow>
        scan_answers get_block_number_opt emergency answers w1)"

partial_function (option) advisory_loop ::
  "('c, 't, 'o, 'raw, 'w) aleph_lib \<Rightarrow> ('w \<Rightarrow> (u32 option, string) result \<times> 'w) \<Rightarrow> 'c advisory_instance list
    \<Rightarrow> bool \<Rightarrow> 'w \<Rightarrow> ((unit, advisory_listener_error) result \<times> bool \<times> 'w) option" where
  "advisory_loop L get_block_number_opt contracts emergency w =
     (case advisory_round L get_block_number_opt contracts emergency w of
        (Ok emergency', w') \<Rightarrow> advisory_loop L get_block_number_opt contracts emergency' w'
      | (Err e, w') \<Rightarrow> Some (Err e, emergency, w')
      | (Panic, w') \<Rightarrow> Some (Panic, emergency, w'))"

definition advisory_listener_run ::
  "('c, 't, 'o, 'raw, 'w) aleph_lib \<Rightarrow> ('w \<Rightarrow> (u32 option, string) result \<times> 'w) \<Rightarrow> config \<Rightarrow> bool \<Rightarrow> 'w
    \<Rightarrow> ((unit, advisory_listener_error) result \<times> bool \<times> 'w) option" where
  "advisory_listener_run L get_block_number_opt cfg emergency w =
     (case advisory_setup L cfg of
        Ok contracts \<Rightarrow> advisory_loop L get_block_number_opt contracts emergency w
      | Err e \<Rightarrow> Some (Err e, emergency, w)
      | Panic \<Rightarrow> Some (Panic, emergency, w))"

section \<open>What a round stores\<close>

definition reports_emergency :: "(bool \<times> account_id, azero_contract_error) result \<Rightarrow> bool" where
  "reports_emergency answer \<longleftrightarrow> (\<exists>address. answer = Ok (True, address))"

definition reports_calm :: "(bool \<times> account_id, azero_contract_error) result \<Rightarrow> bool" where
  "reports_calm answer \<longleftrightarrow> (\<exists>address. answer = Ok (False, address))"

text \<open>The flag is lifted only when every contract answered and none reports an emergency.\<close>

lemma scan_lifted: "scan_answers g previous answers w = (Ok False, w') \<longleftrightarrow> list_all reports_calm answers \<and> w' = w"
  by (induction g previous answers w rule: scan_answers.induct)
     (auto simp: reports_calm_def split: prod.splits result.splits)

text \<open>It is raised only on a report that every earlier contract preceded with a calm answer.\<close>

lemma scan_raised:
  "scan_answers g previous answers w = (Ok True, w') \<Longrightarrow>
     \<exists>calm answer rest. answers = calm @ answer # rest \<and> list_all reports_calm calm \<and> reports_emergency answer"
proof (induction g previous answers w rule: scan_answers.induct)
  case (2 g previous is_emergency address answers w)
  show ?case
  proof (cases is_emergency)
    case True
    then have "Ok (is_emergency, address) # answers = [] @ Ok (is_emergency, address) # answers \<and>
        list_all reports_calm [] \<and> reports_emergency (Ok (is_emergency, address))"
      by (simp add: reports_emergency_def)
    then show ?thesis by blast
  next
    case False
    with 2 obtain calm answer rest where
      "answers = calm @ answer # rest" "list_all reports_calm calm" "reports_emergency answer" by auto
    with False have "Ok (is_emergency, address) # answers = (Ok (False, address) # calm) @ answer # rest \<and>
        list_all reports_calm (Ok (False, address) # calm) \<and> reports_emergency answer"
      by (simp add: reports_calm_def)
    then show ?thesis by blast
  qed
qed simp_all

lemma advisory_loop_fails:
  "advisory_loop L g contracts emergency w = Some res \<Longrightarrow> \<not> is_ok (fst res)"
  by (erule advisory_loop.raw_induct [rotated]) (auto split: prod.splits result.splits)

end
