(* ===== verification/Relayer_Main.thy ===== *)
theory Relayer_Main
  imports Connections Signer_Server Azero_Runs Advisory_Listener
begin

text \<open>
  The relayer process (\<^verbatim>\<open>relayer/src/main.rs\<close>): the cursors it overrides on request, the signers it
  chooses, and the supervision of the three listeners.
\<close>

section \<open>Start-up\<close>

datatype listener_error =
    Listener_Eth eth_listener_error
  | Listener_EthConnection string
  | Listener_EthWallet string
  | Listener_Azero azero_listener_error
  | Listener_Redis redis_error
  | Listener_Advisory advisory_listener_error

text \<open>The two \<^verbatim>\<open>if config.override_.._cache\<close> blocks; the \<^verbatim>\<open>u32\<close> difference wraps.\<close>

definition override_cache ::
  "'r redis \<Rightarrow> config \<Rightarrow> bool \<Rightarrow> string \<Rightarrow> sync_from_block \<Rightarrow> 'r \<Rightarrow> ('r, redis_error) result" where
  "override_cache C cfg wanted key default_block r =
     (if wanted then write_last_processed_block C (cfg_name cfg) key (sync_deref default_block - 1) r else Ok r)"

definition override_caches :: "'r redis \<Rightarrow> config \<Rightarrow> 'r \<Rightarrow> ('r, redis_error) result" where
  "override_caches C cfg r =
     try_res (override_cache C cfg (cfg_override_azero_cache cfg) ALEPH_LAST_BLOCK_KEY
                (cfg_default_sync_from_block_azero cfg) r) (\<lambda>r.
       override_cache C cfg (cfg_override_eth_cache cfg) ETH_LAST_BLOCK_KEY
         (cfg_default_sync_from_block_eth cfg) r)"

definition DEV_MNEMONIC :: string where
  "DEV_MNEMONIC = ''harsh master island dirt equip search awesome double turn crush wool grant''"

text \<open>
  The signers: the remote one when its context id is given, a development key in development mode,
  and a panic otherwise.  The Ethereum wallet is built in every case, from the development mnemonic
  or from the key store.
\<close>

record ('kp, 'wallet) key_lib =
  keypair_from_string :: "string \<Rightarrow> 'kp"
  wallet_from_mnemonic :: "string \<Rightarrow> u32 \<Rightarrow> ('wallet, string) result"
  decrypt_keystore :: "string \<Rightarrow> string \<Rightarrow> ('wallet, string) result"

definition dev_seed :: "config \<Rightarrow> string" where
  "dev_seed cfg = ''//'' @ decimal (unat (cfg_dev_account_index cfg))"

definition azero_signed_connection ::
  "('kp, 'wallet) key_lib \<Rightarrow> (string \<Rightarrow> 'ws) \<Rightarrow> (u32 \<Rightarrow> u32 \<Rightarrow> ('s, string) result) \<Rightarrow> 's frames \<Rightarrow> ('tx, 'asig, 'esig) codec
    \<Rightarrow> config \<Rightarrow> (('ws, 'kp, 's) azero_connection, ('tx, 'asig, 'esig) azero_connection_error) result" where
  "azero_signed_connection Y init connect F K cfg =
     (case cfg_signer_cid cfg of
        Some cid \<Rightarrow> azero_with_signer connect F K (init (cfg_azero_node_wss_url cfg)) cid (cfg_signer_port cfg)
      | None \<Rightarrow>
          if cfg_dev cfg then
            Ok (azero_with_keypair (init (cfg_azero_node_wss_url cfg)) (keypair_from_string Y (dev_seed cfg)))
          else Panic)"

definition eth_wallet :: "('kp, 'wallet) key_lib \<Rightarrow> config \<Rightarrow> ('wallet, string) result" where
  "eth_wallet Y cfg =
     (if cfg_dev cfg then wallet_from_mnemonic Y DEV_MNEMONIC (cfg_dev_account_index cfg)
      else decrypt_keystore Y (cfg_eth_keystore_path cfg) (cfg_eth_keystore_password cfg))"

definition eth_signed_connection ::
  "('nm, 'wallet, 's, 'conn) middleware_lib \<Rightarrow> ('wallet, 'tx, 'td, 'esig) wallet_lib \<Rightarrow> (u32 \<Rightarrow> u32 \<Rightarrow> ('s, string) result)
    \<Rightarrow> 's frames \<Rightarrow> ('tx, 'asig, 'esig) codec \<Rightarrow> config \<Rightarrow> 'wallet
    \<Rightarrow> ('conn, ('tx, 'asig, 'esig) eth_connection_error) result" where
  "eth_signed_connection M W connect F K cfg wallet =
     (case cfg_signer_cid cfg of
        Some cid \<Rightarrow> with_signer M connect F K cid (cfg_signer_port cfg)
      | None \<Rightarrow> with_local_wallet M W wallet)"

datatype ('tx, 'asig, 'esig) main_error =
    Main_Redis redis_error
  | Main_Signer "('tx, 'asig, 'esig) azero_connection_error"
  | Main_Wallet string
  | Main_EthConnection "('tx, 'asig, 'esig) eth_connection_error"
  | Main_Listener listener_error
  | Main_Join

text \<open>
  \<^verbatim>\<open>main\<close> up to the listeners: the overridden Redis and the two signed connections, or the error
  that ends the process.
\<close>

definition relayer_setup ::
  "'r redis \<Rightarrow> ('kp, 'wallet) key_lib \<Rightarrow> ('nm, 'wallet, 's, 'conn) middleware_lib \<Rightarrow> ('wallet, 'tx, 'td, 'esig) wallet_lib
    \<Rightarrow> (string \<Rightarrow> 'ws) \<Rightarrow> (u32 \<Rightarrow> u32 \<Rightarrow> ('s, string) result) \<Rightarrow> 's frames \<Rightarrow> ('tx, 'asig, 'esig) codec \<Rightarrow> config \<Rightarrow> 'r
    \<Rightarrow> ('r \<times> ('ws, 'kp, 's) azero_connection \<times> 'conn, ('tx, 'asig, 'esig) main_error) result" where
  "relayer_setup C Y M W init connect F K cfg r =
     try_res (map_err Main_Redis (override_caches C cfg r)) (\<lambda>r.
     try_res (map_err Main_Signer (azero_signed_connection Y init connect F K cfg)) (\<lambda>azero_connection.
     try_res (map_err Main_Wallet (eth_wallet Y cfg)) (\<lambda>wallet.
     try_res (map_err Main_EthConnection (eth_signed_connection M W connect F K cfg wallet)) (\<lambda>eth_connection.
       Ok (r, azero_connection, eth_connection)))))"

section \<open>Supervision\<close>

datatype listener = Advisory_Task | Eth_Task | Azero_Task

text \<open>The tasks \<^verbatim>\<open>run_listeners\<close> spawns first.\<close>

definition initial_listeners :: "config \<Rightarrow> listener list" where
  "initial_listeners cfg =
     (if cfg_advisory_contract_addresses cfg \<noteq> None then [Advisory_Task] else []) @ [Eth_Task, Azero_Task]"

text \<open>
  One turn of the \<^verbatim>\<open>join_next\<close> loop: task \<open>l\<close> left the set with result \<open>res\<close> (\<open>Panic\<close> is a join error).
  The result is the set of running tasks, or the error \<^verbatim>\<open>run_listeners\<close> returns.
\<close>

definition join_listener ::
  "listener list \<Rightarrow> listener \<Rightarrow> (unit, listener_error) result
    \<Rightarrow> (listener list, ('tx, 'asig, 'esig) main_error) result" where
  "join_listener tasks l res =
     (let tasks = remove1 l tasks in
      case res of
        Ok _ \<Rightarrow> Ok tasks
      | Err err \<Rightarrow>
          if err = Listener_Azero Az_BridgeHaltedRestartRequired then Ok (tasks @ [Azero_Task])
          else Err (Main_Listener err)
      | Panic \<Rightarrow> Err Main_Join)"

text \<open>The loop over a sequence of finished tasks; it ends by itself when no task is left.\<close>

fun run_listeners ::
  "listener list \<Rightarrow> (listener \<times> (unit, listener_error) result) list
    \<Rightarrow> (listener list, ('tx, 'asig, 'esig) main_error) result" where
  "run_listeners tasks [] = Ok tasks"
| "run_listeners tasks ((l, res) # rest) =
     (if tasks = [] then Ok [] else try_res (join_listener tasks l res) (\<lambda>tasks. run_listeners tasks rest))"

text \<open>
  \<^verbatim>\<open>main\<close> on a sequence of finished tasks: an error before the listeners run is returned, and once
  \<^verbatim>\<open>run_listeners\<close> has returned, with an error or not, the process exits with code -1.
\<close>

definition relayer_main ::
  "'r redis \<Rightarrow> ('kp, 'wallet) key_lib \<Rightarrow> ('nm, 'wallet, 's, 'conn) middleware_lib \<Rightarrow> ('wallet, 'tx, 'td, 'esig) wallet_lib
    \<Rightarrow> (string \<Rightarrow> 'ws) \<Rightarrow> (u32 \<Rightarrow> u32 \<Rightarrow> ('s, string) result) \<Rightarrow> 's frames \<Rightarrow> ('tx, 'asig, 'esig) codec \<Rightarrow> config \<Rightarrow> 'r
    \<Rightarrow> (listener \<times> (unit, listener_error) result) list \<Rightarrow> (int option, ('tx, 'asig, 'esig) main_error) result" where
  "relayer_main C Y M W init connect F K cfg r finished =
     try_res (relayer_setup C Y M W init connect F K cfg r) (\<lambda>_.
       case run_listeners (initial_listeners cfg) finished :: (listener list, ('tx, 'asig, 'esig) main_error) result of
         Ok tasks \<Rightarrow> Ok (if tasks = [] then Some (- 1) else None)
       | Err err \<Rightarrow> Ok (Some (- 1))
       | Panic \<Rightarrow> Panic)"

text \<open>
  The results the tasks can have: a listener's own errors, wrapped by \<^verbatim>\<open>ListenerError::from\<close>.
\<close>

fun task_result :: "listener \<Rightarrow> (unit, listener_error) result \<Rightarrow> bool" where
  "task_result l (Ok u) \<longleftrightarrow> False"
| "task_result Advisory_Task (Err e) \<longleftrightarrow> (\<exists>a. e = Listener_Advisory a)"
| "task_result Eth_Task (Err e) \<longleftrightarrow> (\<exists>a. e = Listener_Eth a)"
| "task_result Azero_Task (Err e) \<longleftrightarrow> (\<exists>a. e = Listener_Azero a)"
| "task_result l Panic \<longleftrightarrow> True"

text \<open>
  The supervisor on any sequence of ends: it keeps running, with the tasks it started, exactly as long as
  only the Aleph Zero listener ends, asking for a restart.
\<close>

lemma run_listeners_exact:
  assumes "\<forall>(l, res)\<in>set ends. l \<in> set running \<and> task_result l res"
  shows "if set ends \<subseteq> {(Azero_Task, Err (Listener_Azero Az_BridgeHaltedRestartRequired))}
    then \<exists>tasks. run_listeners running ends = (Ok tasks :: (listener list, ('tx, 'asig, 'esig) main_error) result) \<and>
      mset tasks = mset running
    else \<exists>e. run_listeners running ends = (Err e :: (listener list, ('tx, 'asig, 'esig) main_error) result)"
  using assms
proof (induction ends arbitrary: running)
  case (Cons lr ends)
  obtain l res where lr: "lr = (l, res)" by fastforce
  have l: "l \<in> set running" "task_result l res" using Cons.prems lr by auto
  show ?case
  proof (cases "lr = (Azero_Task, Err (Listener_Azero Az_BridgeHaltedRestartRequired))")
    case True
    let ?running = "remove1 Azero_Task running @ [Azero_Task]"
    have "mset ?running = mset running" using l(1) True lr by auto
    moreover from this have "set ?running = set running" by (rule mset_eq_setD)
    ultimately show ?thesis
      using Cons.IH [of ?running] Cons.prems l(1) lr True by (auto simp: join_listener_def Let_def split: if_splits)
  next
    case False
    have "\<exists>e. join_listener running l res = (Err e :: (listener list, ('tx, 'asig, 'esig) main_error) result)"
      using l(2) False lr by (cases l; cases res) (auto simp: join_listener_def Let_def)
    with False lr l(1) show ?thesis by auto
  qed
qed simp

text \<open>The loops of the two vote-casting listeners only end with an error.\<close>

lemma eth_loop_fails: "eth_loop L E C emergency cfg address most_azero account st = Some res \<Longrightarrow> \<not> is_ok (fst res)"
  by (erule eth_loop.raw_induct [rotated]) (auto split: option.splits prod.splits result.splits)

lemma azero_after_error_fails: "azero_after_error S most_eth e w = Some (res, w') \<Longrightarrow> \<not> is_ok res"
  by (auto simp: azero_after_error_def split: if_splits prod.splits result.splits option.splits)

lemma azero_returns_error:
  assumes "azero_reaches L E S C N emergency cfg most_azero most_eth (azero_start C cfg r) st"
  shows "az_pc st = Returned res \<Longrightarrow> \<not> is_ok res"
  using assms
proof (induction arbitrary: res)
  case refl
  then show ?case by (simp add: azero_start_def Let_def)
next
  case (step st st')
  from step(2) step(1,3,4) show ?case
    by cases (auto simp: returned_def dest: azero_after_error_fails)
qed

end
