(* ===== verification/Sample_Relayer.thy ===== *)
theory Sample_Relayer
  imports Relayer_Main Sample_Chain
begin

text \<open>
  Concrete instances of the relayer's parameters, for the witnesses: an in-memory store, two nodes
  whose finalized head is block 1 with one transfer request in it, and a codec for the signer.  The
  state of the world counts the calls made.
\<close>

section \<open>Store and configuration\<close>

type_synonym store = "string \<Rightarrow> u32 option"

definition sample_store :: "store redis" where
  "sample_store = \<lparr>redis_get = (\<lambda>k s. ok_or (s k) ''nil''), redis_set = (\<lambda>k v s. Ok (s(k \<mapsto> v)))\<rparr>"

lemma sample_store_law: "redis_law sample_store"
  by (simp add: redis_law_def sample_store_def)

definition sample_config :: config where
  "sample_config = \<lparr>cfg_name = ''relayer'', cfg_dev = True, cfg_dev_account_index = 0,
     cfg_override_azero_cache = True, cfg_override_eth_cache = True,
     cfg_advisory_contract_addresses = Some [''advisory''], cfg_advisory_contract_metadata = ''advisory.json'',
     cfg_signer_cid = None, cfg_signer_port = 1234, cfg_azero_contract_address = ''most'',
     cfg_azero_contract_metadata = ''most.json'', cfg_azero_node_wss_url = ''ws'',
     cfg_azero_max_event_handler_tasks = 1000, cfg_azero_ref_time_limit = 100, cfg_azero_proof_size_limit = 100,
     cfg_default_sync_from_block_azero = SyncFromBlock 1, cfg_eth_contract_address = ''0x09'',
     cfg_eth_keystore_password = [], cfg_eth_keystore_path = [], cfg_eth_node_http_url = ''http'',
     cfg_eth_tx_submission_retries = 10, cfg_eth_tx_min_confirmations = 32,
     cfg_default_sync_from_block_eth = SyncFromBlock 1, cfg_eth_gas_limit = 200000, cfg_sync_step = 100,
     cfg_redis_node = ''redis'', cfg_rust_log = Log_Info\<rparr>"

lemma sample_config_simps [simp]:
  "cfg_name sample_config = ''relayer''" "cfg_sync_step sample_config = 100"
  "cfg_default_sync_from_block_azero sample_config = SyncFromBlock 1"
  "cfg_default_sync_from_block_eth sample_config = SyncFromBlock 1"
  "cfg_override_azero_cache sample_config" "cfg_override_eth_cache sample_config"
  "cfg_advisory_contract_addresses sample_config = Some [''advisory'']"
  "cfg_azero_max_event_handler_tasks sample_config = 1000"
  by (simp_all add: sample_config_def)

section \<open>Aleph Zero\<close>

definition sample_request :: transfer_request where
  "sample_request = \<lparr>tr_committee_id = 0, tr_dest_token_address = 1, tr_amount = 100,
     tr_dest_receiver_address = 2, tr_request_nonce = 0\<rparr>"

definition sample_event :: "unit contract_event" where
  "sample_event = \<lparr>event_name = Some ''CrosschainTransferRequest'', event_data = request_fields sample_request\<rparr>"

definition sample_aleph :: "(unit, unit, unit, unit contract_event, nat) aleph_lib" where
  "sample_aleph = \<lparr>account_from_str = (\<lambda>_. Ok 7), contract_instance = (\<lambda>_ _. Ok ()), transcoder_load = (\<lambda>_. Ok ()),
     encode_message = (\<lambda>_ _ _. Ok []), decode_return = (\<lambda>_ _ _. Ok (Tuple (Some ''Ok'') [Tuple None [Bool_Value False]])),
     contract_call = (\<lambda>_ _ _ _ _ w. (Ok \<lparr>tx_block_hash = 0, tx_tx_hash = 0\<rparr>, Suc w)),
     call_and_get = (\<lambda>_ _ _ w. (Ok (Ok []), w)), contract_read_bool = (\<lambda>_ _ w. (Ok True, w)),
     translate_events = (\<lambda>_ evs _. map Ok evs), hex_encode = (\<lambda>_. []), debug_value = (\<lambda>_. []), debug_values = (\<lambda>_. [])\<rparr>"

definition sample_instance :: "(unit, unit) most_instance" where
  "sample_instance = \<lparr>mi_contract = (), mi_address = 7, mi_transcoder = (), mi_ref_time_limit = 100, mi_proof_size_limit = 100\<rparr>"

definition sample_node :: "(unit contract_event, nat) azero_node" where
  "sample_node = \<lparr>get_finalized_block_hash = (\<lambda>w. (Ok 0, w)), get_block_number = (\<lambda>_ w. (Ok (Some 1), w)),
     get_block_hash = (\<lambda>n w. (Ok (Some (ucast n)), w)),
     events_at = (\<lambda>h w. (Ok (if h = 1 then [sample_event] else []), w))\<rparr>"

definition sample_events_of :: "u32 \<Rightarrow> unit contract_event list" where
  "sample_events_of n = (if n = 1 then [sample_event] else [])"

lemma sample_node_below: "azero_finalized_below sample_node 2"
  by (simp add: azero_finalized_below_def sample_node_def)

lemma ok_events_map_Ok [simp]: "ok_events (map Ok xs) = xs"
  by (induction xs) auto

lemma ucast_u32_inject: "(ucast (n :: u32) :: bytes32) = ucast m \<longleftrightarrow> n = m"
  by (rule ucast_up_inject) simp

lemma ucast_u32_bytes32_1: "ucast (n :: u32) = (1 :: bytes32) \<longleftrightarrow> n = 1"
proof -
  have "ucast (n :: u32) = (ucast (1 :: u32) :: bytes32) \<longleftrightarrow> n = 1"
    by (rule ucast_u32_inject)
  then show ?thesis by simp
qed

lemma sample_fetch_law: "fetch_law sample_aleph sample_node sample_instance sample_events_of"
  by (auto simp: fetch_law_def fetch_block_def filter_events_def sample_aleph_def sample_node_def
      sample_events_of_def ucast_u32_bytes32_1)

section \<open>Ethereum\<close>

definition sample_eth_request :: eth_most_event where
  "sample_eth_request = CrosschainTransferRequestFilter 0 1 100 2 0"

definition sample_logs :: "u32 \<Rightarrow> eth_most_event list" where
  "sample_logs n = (if n = 1 then [sample_eth_request] else [])"

definition sample_eth :: "nat eth_lib" where
  "sample_eth = \<lparr>parse_address = (\<lambda>_. Ok 9), get_block_finalized = (\<lambda>w. (Ok (Some (Some 1)), w)),
     query_events = (\<lambda>_ from to w. (Ok (concat (map sample_logs (block_range from to))), w)),
     as_u32 = (\<lambda>x. if unat x < 2 ^ 32 then Some (ucast x) else None),
     as_u128 = (\<lambda>x. if unat x < 2 ^ 128 then Some (ucast x) else None),
     eth_keccak = sample_keccak\<rparr>"

lemma sample_narrowing: "narrowing_law sample_eth"
  by (simp add: narrowing_law_def sample_eth_def)

lemma sample_eth_below: "finalized_below sample_eth 2"
  by (auto simp: finalized_below_def sample_eth_def)

lemma sample_query_law: "query_law sample_eth 9 sample_logs"
  by (simp add: query_law_def sample_eth_def)

definition sample_signed :: "(unit, nat) eth_signed_lib" where
  "sample_signed = \<lparr>next_nonce = (\<lambda>w. (of_nat w, Suc w)), send_tx = (\<lambda>_ w. (Ok (), w)),
     await_confirmations = (\<lambda>_ _ _ w. (Ok (Some \<lparr>transaction_hash = 5, status = Some 1\<rparr>), w)),
     get_transaction = (\<lambda>_ w. (Ok (Some (Some 1)), w)), paused_call = (\<lambda>_ w. (Ok (w < 2), Suc w)),
     abi_encode = (\<lambda>ts. concat (map abi_word ts))\<rparr>"

section \<open>A run of the Aleph Zero listener\<close>

lemma sample_room: "window_room 2 (cfg_sync_step sample_config)"
  by (simp add: window_room_def)

lemma sample_window: "window_end 1 1 (cfg_sync_step sample_config) = 1"
  by (simp add: window_end_def min_def)

lemma sample_range: "block_range 1 1 = [1]"
  by (simp add: block_range_def)

lemma sample_next_eth: "get_next_finalized_block_number_eth sample_eth m w = (if m \<le> 1 then Some (Ok 1, w) else poll (ask_finalized_eth sample_eth m) w)"
  by (subst get_next_finalized_block_number_eth_def, subst poll.simps)
     (simp add: ask_finalized_eth_def sample_eth_def)

lemma sample_next_azero: "get_next_finalized_block_number_azero sample_node 1 w = Some (Ok 1, w)"
  unfolding get_next_finalized_block_number_azero_def
  by (subst poll.simps) (simp add: ask_finalized_azero_def sample_node_def)

lemma sample_request_handled:
  assumes "event_name event = Some ''CrosschainTransferRequest''" and "event_data event = request_fields d"
  shows "azero_handle_event sample_eth sample_signed sample_config event w = Some (Ok (), Suc w)"
proof -
  have "wait_for_eth_tx_finality sample_eth sample_signed 5 v = Some (Ok (), v)" for v
    by (subst wait_for_eth_tx_finality.simps)
       (simp add: ask_tx_finality_def sample_next_eth sample_signed_def)
  then show ?thesis
    by (simp add: azero_handle_event_def assms request_fields_decode sample_eth_def sample_signed_def)
qed

lemma sample_handled: "azero_handle_event sample_eth sample_signed sample_config sample_event w = Some (Ok (), Suc w)"
  by (rule sample_request_handled [where d = sample_request]) (simp_all add: sample_event_def)

definition sample_azero_state ::
  "u32 set \<Rightarrow> store \<Rightarrow> (unit contract_event, unit) azero_pc \<Rightarrow> (store, unit contract_event, unit) azero_state" where
  "sample_azero_state pending r pc =
     \<lparr>az_first = 1, az_pending = pending, az_redis = r, az_permits = 1000, az_next = 0, az_running = [], az_done = [],
      az_tasks = [], az_finished = [], az_pc = pc, az_sealed = {}\<rparr>"

abbreviation sample_azero_reaches ::
  "(store, unit contract_event, unit) azero_state \<Rightarrow> bool" where
  "sample_azero_reaches \<equiv>
     azero_reaches sample_aleph sample_eth sample_signed sample_store sample_node (\<lambda>_. False) sample_config sample_instance 9
       (azero_start sample_store sample_config Map.empty)"

lemma sample_first_block: "azero_first_block sample_store sample_config Map.empty = 1"
  by (simp add: azero_first_block_def read_first_unprocessed_block_number_def sample_store_def)

lemma sample_fetched:
  "fetch_events_in_block_range sample_node 1 1 (Ok [(\<lparr>block_number = 1, block_hash = 1\<rparr>, [sample_event])])"
proof -
  have "fetch_block sample_node 1 0 = (Ok (\<lparr>block_number = 1, block_hash = 1\<rparr>, [sample_event]), 0)"
    by (simp add: fetch_block_def sample_node_def)
  then have "finished_as (block_range 1 1) (\<lambda>n r. \<exists>w w'. fetch_block sample_node n w = (r, w'))
      (\<lambda>rs. is_ok (join_fetching_tasks rs)) [Ok (\<lparr>block_number = 1, block_hash = 1\<rparr>, [sample_event])]"
    unfolding finished_as_def sample_range by (intro exI [of _ "[1]"]) auto
  then show ?thesis unfolding fetch_events_in_block_range_def
    by (intro exI [of _ "[Ok (\<lparr>block_number = 1, block_hash = 1\<rparr>, [sample_event])]"]) simp
qed

abbreviation sample_azero_step ::
  "(store, unit contract_event, unit) azero_state \<Rightarrow> (store, unit contract_event, unit) azero_state \<Rightarrow> bool" where
  "sample_azero_step \<equiv>
     azero_step sample_aleph sample_eth sample_signed sample_store sample_node (\<lambda>_. False) sample_config sample_instance 9"

lemma sample_fetching: "sample_azero_reaches (sample_azero_state {1, 2} Map.empty (Fetching 1))"
proof -
  have "sample_azero_reaches (sample_azero_state {1} Map.empty Waiting)"
    using azero_reaches.refl
    by (simp add: azero_start_def sample_first_block sample_azero_state_def add_to_pending_def Let_def)
  moreover have "sample_azero_step (sample_azero_state {1} Map.empty Waiting) (sample_azero_state {1} Map.empty (Adding [1] 1))"
    using azero_step.window [where st = "sample_azero_state {1} Map.empty Waiting" and N = sample_node
        and fin = 1 and w = 0 and w' = 0 and to_block = 1 and cfg = sample_config and emergency = "\<lambda>_. False"]
      sample_next_azero sample_window sample_range
    by (simp add: sample_azero_state_def)
  moreover have "sample_azero_step (sample_azero_state {1} Map.empty (Adding [1] 1))
      (sample_azero_state {1, 2} Map.empty (Adding [] 1))"
    using azero_step.add [where st = "sample_azero_state {1} Map.empty (Adding [1] 1)" and n = 1 and ns = "[]" and to_block = 1]
    by (simp add: sample_azero_state_def add_to_pending_def insert_commute)
  moreover have "sample_azero_step (sample_azero_state {1, 2} Map.empty (Adding [] 1))
      (sample_azero_state {1, 2} Map.empty (Fetching 1))"
    using azero_step.added [where st = "sample_azero_state {1, 2} Map.empty (Adding [] 1)" and to_block = 1]
    by (simp add: sample_azero_state_def)
  ultimately show ?thesis by (meson azero_reaches.step)
qed

lemma sample_handling:
  "sample_azero_reaches (sample_azero_state {1, 2} Map.empty (Handling 1 [] [sample_event] [] 1))"
proof -
  let ?fetched = "[(\<lparr>block_number = 1, block_hash = 1\<rparr>, [sample_event])]"
  have "sample_azero_step (sample_azero_state {1, 2} Map.empty (Fetching 1))
      (sample_azero_state {1, 2} Map.empty (Spawning ?fetched 1))"
    using azero_step.fetched [where st = "sample_azero_state {1, 2} Map.empty (Fetching 1)" and to_block = 1
        and N = sample_node and block_events = ?fetched] sample_fetched
    by (simp add: sample_azero_state_def)
  moreover have "sample_azero_step (sample_azero_state {1, 2} Map.empty (Spawning ?fetched 1))
      (sample_azero_state {1, 2} Map.empty (Handling 1 [] [sample_event] [] 1))"
    using azero_step.handle [where st = "sample_azero_state {1, 2} Map.empty (Spawning ?fetched 1)" and to_block = 1
        and details = "\<lparr>block_number = 1, block_hash = 1\<rparr>" and events = "[sample_event]" and rest = "[]"
        and L = sample_aleph and most_azero = sample_instance]
    by (simp add: sample_azero_state_def filter_events_def sample_aleph_def)
  ultimately show ?thesis using sample_fetching by (meson azero_reaches.step)
qed

text \<open>The event task of block 1 runs, and its sealing task waits for it.\<close>

definition sample_spawned_state :: "(store, unit contract_event, unit) azero_state" where
  "sample_spawned_state = (sample_azero_state {1, 2} Map.empty (Spawning [] 1))
     \<lparr>az_permits := 999, az_next := 1, az_running := [(0, sample_event)], az_tasks := [(0, 1, [sample_event])]\<rparr>"

lemma sample_spawned: "sample_azero_reaches sample_spawned_state"
proof -
  let ?st = "sample_azero_state {1, 2} Map.empty (Handling 1 [] [sample_event] [] 1)"
  let ?started = "?st\<lparr>az_permits := 999, az_running := [(0, sample_event)], az_pc := Handling 1 [sample_event] [] [] 1\<rparr>"
  have "sample_azero_step ?st ?started"
    using azero_step.start_event [where st = ?st and n = 1 and started = "[]" and event = sample_event and events = "[]"
        and rest = "[]" and to_block = 1 and permits = 999 and started' = "[sample_event]"]
    by (simp add: sample_azero_state_def start_event_task_def ALEPH_MAX_REQUESTS_PER_BLOCK_def)
  moreover have "sample_azero_step ?started sample_spawned_state"
    using azero_step.spawn [where st = ?started and n = 1 and started = "[sample_event]" and rest = "[]" and to_block = 1]
    by (simp add: sample_azero_state_def sample_spawned_state_def)
  ultimately show ?thesis using sample_handling by (meson azero_reaches.step)
qed

definition sample_cursor :: store where
  "sample_cursor = [redis_key ''relayer'' ALEPH_LAST_BLOCK_KEY \<mapsto> 1]"

text \<open>Both tasks have ended, block 1 is sealed, and the cursor is on it.\<close>

definition sample_sealed_state :: "(store, unit contract_event, unit) azero_state" where
  "sample_sealed_state = (sample_azero_state {2} sample_cursor (Spawning [] 1))
     \<lparr>az_next := 1, az_done := [(0, sample_event, Ok ())], az_finished := [Ok ()], az_sealed := {1}\<rparr>"

definition sample_done_state :: "(store, unit contract_event, unit) azero_state" where
  "sample_done_state =
     sample_spawned_state\<lparr>az_running := [], az_done := [(0, sample_event, Ok ())], az_permits := 1000\<rparr>"

lemma sample_sealing:
  "sample_azero_step sample_spawned_state sample_done_state" "sample_azero_step sample_done_state sample_sealed_state"
proof -
  have "{1, 2 :: u32} - {1} = {2}" by auto
  then have seal: "seal_processed_block sample_store sample_config 1 [Ok ()] {1, 2} Map.empty = (Ok (), {2}, sample_cursor)"
    by (simp add: seal_processed_block_def Let_def write_last_processed_block_def sample_store_def sample_cursor_def)
  show "sample_azero_step sample_spawned_state sample_done_state"
    using azero_step.event_done [where st = sample_spawned_state and before = "[]" and after = "[]" and i = 0
        and event = sample_event and w = 0 and w' = 1 and r = "Ok ()" and cfg = sample_config
        and E = sample_eth and S = sample_signed] sample_handled [of 0]
    by (simp add: sample_done_state_def sample_spawned_state_def sample_azero_state_def)
  show "sample_azero_step sample_done_state sample_sealed_state"
    using azero_step.seal [where st = sample_done_state and before = "[]" and after = "[]" and i = 0 and n = 1
        and events = "[sample_event]" and C = sample_store and cfg = sample_config and pending = "{2}"
        and redis = sample_cursor and res = "Ok ()"] seal
    by (simp add: sample_done_state_def sample_spawned_state_def sample_sealed_state_def sample_azero_state_def
        events_running_def results_of_def drop_event_tasks_def)
qed

lemma sample_sealed: "sample_azero_reaches sample_sealed_state"
  using sample_spawned sample_sealing by (meson azero_reaches.step)

section \<open>A codec for the signer\<close>

text \<open>
  A transaction is its chain id, which the codec drops; every message is a tag byte followed by its
  fields.
\<close>

type_synonym sample_tx = "u64 option"

fun sample_command_bytes :: "sample_tx command \<Rightarrow> u8 list" where
  "sample_command_bytes Ping = [0]"
| "sample_command_bytes AccountIdAzero = [1]"
| "sample_command_bytes (SignAzero p) = 2 # p"
| "sample_command_bytes EthAddress = [3]"
| "sample_command_bytes (SignEthHash h) = 4 # array_bytes h"
| "sample_command_bytes (SignEthTx tx c) = 5 # array_bytes (ucast c)"

definition sample_command_read :: "u8 list \<Rightarrow> (sample_tx command, string) result" where
  "sample_command_read bs =
     (case bs of
        [] \<Rightarrow> Err ''EOF''
      | b # r \<Rightarrow>
          if b = 0 then Ok Ping else if b = 1 then Ok AccountIdAzero else if b = 2 then Ok (SignAzero r)
          else if b = 3 then Ok EthAddress else if b = 4 then Ok (SignEthHash (array_of_bytes r))
          else Ok (SignEthTx None (ucast (array_of_bytes r))))"

fun sample_response_bytes :: "(sample_tx, bytes32, bytes32) response \<Rightarrow> u8 list" where
  "sample_response_bytes Pong = [0]"
| "sample_response_bytes (Resp_AccountIdAzero a) = 1 # array_bytes a"
| "sample_response_bytes (SignedAzero p s) = 2 # array_bytes s @ p"
| "sample_response_bytes (Resp_EthAddress a) = 3 # array_bytes (ucast a)"
| "sample_response_bytes (SignedEthHash h s) = 4 # array_bytes h @ array_bytes s"
| "sample_response_bytes (SignedEthTx tx s c) = 5 # array_bytes s @ array_bytes (ucast c)"

definition sample_response_read :: "u8 list \<Rightarrow> ((sample_tx, bytes32, bytes32) response, string) result" where
  "sample_response_read bs =
     (case bs of
        [] \<Rightarrow> Err ''EOF''
      | b # r \<Rightarrow>
          if b = 0 then Ok Pong else if b = 1 then Ok (Resp_AccountIdAzero (array_of_bytes r))
          else if b = 2 then Ok (SignedAzero (drop 32 r) (array_of_bytes (take 32 r)))
          else if b = 3 then Ok (Resp_EthAddress (ucast (array_of_bytes r)))
          else if b = 4 then Ok (SignedEthHash (array_of_bytes (take 32 r)) (array_of_bytes (drop 32 r)))
          else Ok (SignedEthTx None (array_of_bytes (take 32 r)) (ucast (array_of_bytes (drop 32 r)))))"

definition sample_codec :: "(sample_tx, bytes32, bytes32) codec" where
  "sample_codec = \<lparr>command_to_vec = (\<lambda>c. Ok (sample_command_bytes c)), command_from_reader = sample_command_read,
     response_to_vec = (\<lambda>r. Ok (sample_response_bytes r)), response_from_reader = sample_response_read,
     tx_chain_id = (\<lambda>tx. tx), tx_set_chain_id = (\<lambda>c tx. Some c),
     debug_bytes = (\<lambda>_. []), debug_hash = (\<lambda>_. []), debug_tx = (\<lambda>_. [])\<rparr>"

lemma ucast_back: "ucast (ucast (c :: u64) :: bytes32) = c" "ucast (ucast (a :: eth_address) :: bytes32) = a"
  by (auto intro!: bit_word_eqI simp: bit_simps)

lemma sample_codec_law: "codec_law sample_codec (\<lambda>_. None)"
proof -
  have "sample_command_read (sample_command_bytes c) = Ok (strip_command (\<lambda>_. None) c)" for c
    by (cases c) (simp_all add: sample_command_read_def ucast_back)
  moreover have "sample_response_read (sample_response_bytes r) = Ok (strip_response (\<lambda>_. None) r)" for r
    by (cases r) (simp_all add: sample_response_read_def ucast_back)
  ultimately show ?thesis by (simp add: codec_law_def sample_codec_def)
qed

definition sample_keys :: "(sample_tx, bytes32, bytes32) signer_keys" where
  "sample_keys = \<lparr>azero_public = 11, azero_sign = (\<lambda>p. of_nat (length p)), eth_wallet_address = 12,
     eth_sign_hash = (\<lambda>h. Ok (h + 1)), eth_sign_transaction = (\<lambda>tx. case tx of None \<Rightarrow> Err ''chain id'' | Some c \<Rightarrow> Ok (ucast c))\<rparr>"

section \<open>The process and the signer's server\<close>

definition sample_middleware :: "(unit, unit, duplex, eth_address) middleware_lib" where
  "sample_middleware = \<lparr>initialize_nonce = (\<lambda>_. Ok ()), new_with_provider_chain = (\<lambda>_ _. Ok 12)\<rparr>"

definition sample_wallets :: "(unit, sample_tx, unit, bytes32) wallet_lib" where
  "sample_wallets = \<lparr>wallet_sign_message = (\<lambda>_ m. Ok (of_nat (length m) + 1)), wallet_sign_transaction = (\<lambda>_ _. Ok 0),
     wallet_sign_typed_data = (\<lambda>_ _. Ok 0), wallet_sign_hash = (\<lambda>_ h. Ok (h + 1)), wallet_address = (\<lambda>_. 12),
     wallet_chain_id = (\<lambda>_. 1), wallet_with_chain_id = (\<lambda>_ w. w), hash_message = (\<lambda>m. of_nat (length m)),
     encode_eip712 = (\<lambda>_. Ok 0)\<rparr>"

definition sample_key_lib :: "(nat, unit) key_lib" where
  "sample_key_lib = \<lparr>keypair_from_string = length, wallet_from_mnemonic = (\<lambda>_ _. Ok ()), decrypt_keystore = (\<lambda>_ _. Err ''no store'')\<rparr>"

definition sample_main :: "(listener \<times> (unit, listener_error) result) list
    \<Rightarrow> (int option, (sample_tx, bytes32, bytes32) main_error) result" where
  "sample_main = relayer_main sample_store sample_key_lib sample_middleware sample_wallets (\<lambda>url. ()) (\<lambda>cid port. Err ''refused'')
     server_side sample_codec sample_config Map.empty"

text \<open>
  A network for the signer: the connections waiting to be accepted, those accepted, and for each connection the
  frames its client sent, how many of them were read, and the frames sent back.
\<close>

record sample_net =
  backlog :: "nat list"
  opened :: "nat set"
  conn_sent :: "nat \<Rightarrow> u8 list list"
  conn_read :: "nat \<Rightarrow> nat"
  conn_out :: "nat \<Rightarrow> u8 list list"

fun sample_accept :: "unit \<Rightarrow> sample_net \<Rightarrow> (nat, string) result \<times> sample_net" where
  "sample_accept l n =
     (case backlog n of
        [] \<Rightarrow> (Err ''closed'', n)
      | h # hs \<Rightarrow>
          if h \<in> opened n then (Err ''busy'', n)
          else (Ok h, n\<lparr>backlog := hs, opened := insert h (opened n), conn_read := (conn_read n)(h := 0),
                        conn_out := (conn_out n)(h := [])\<rparr>))"

definition sample_stream :: "nat \<Rightarrow> sample_net frames" where
  "sample_stream h = \<lparr>
     frame_send = (\<lambda>b n. (Ok (), n\<lparr>conn_out := (conn_out n)(h := conn_out n h @ [b])\<rparr>)),
     frame_next = (\<lambda>n. if conn_read n h < length (conn_sent n h)
        then (Some (Ok (conn_sent n h ! conn_read n h)), n\<lparr>conn_read := (conn_read n)(h := Suc (conn_read n h))\<rparr>)
        else (None, n))\<rparr>"

definition sample_view :: "(nat, sample_net) net_view" where
  "sample_view = \<lparr>frames_sent = (\<lambda>h n. conn_sent n h), frames_taken = (\<lambda>h n. take (conn_read n h) (conn_sent n h)),
     frames_put = (\<lambda>h n. conn_out n h), accepted_handles = opened\<rparr>"

definition sample_server_lib ::
  "(unit, unit, unit, nat, sample_net, sample_tx, bytes32, bytes32) server_lib" where
  "sample_server_lib = \<lparr>azero_key_from_string = (\<lambda>_. Ok ()), vsock_bind = (\<lambda>_. Ok ()), hex_decode = (\<lambda>_. Ok []),
     wallet_from_bytes = (\<lambda>_. Ok ()), key_public = (\<lambda>_. 11), key_sign = (\<lambda>_ p. of_nat (length p)),
     local_wallet_address = (\<lambda>_. 12), local_wallet_sign_hash = (\<lambda>_ h. Ok (h + 1)), local_wallet_sign_tx = (\<lambda>_ _. Ok 0),
     listener_local_addr = (\<lambda>_. Ok 1234), vsock_accept = sample_accept, client_stream = sample_stream\<rparr>"

lemma sample_socket_law: "socket_law sample_server_lib sample_view"
  by (auto simp: socket_law_def same_elsewhere_def sample_server_lib_def sample_view_def sample_stream_def take_is_prefix
      take_Suc_conv_app_nth split: list.splits if_splits)

definition sample_server :: "(unit, unit, unit) server" where
  "sample_server = \<lparr>srv_listener = (), srv_azero_key = (), srv_eth_wallet = ()\<rparr>"

text \<open>
  Two clients connect, the first asking for the account and the second sending a ping; both commands are read, and
  the second client is answered first.
\<close>

definition sample_net_start :: sample_net where
  "sample_net_start = \<lparr>backlog = [1, 2], opened = {}, conn_sent = (\<lambda>_. [])(1 := [[1]], 2 := [[0]]),
     conn_read = (\<lambda>_. 0), conn_out = (\<lambda>_. [])\<rparr>"

definition sample_net_served :: sample_net where
  "sample_net_served = \<lparr>backlog = [], opened = {1, 2}, conn_sent = (\<lambda>_. [])(1 := [[1]], 2 := [[0]]),
     conn_read = (\<lambda>_. 0)(1 := 1, 2 := 1), conn_out = (\<lambda>_. [])(1 := [1 # array_bytes 11], 2 := [[0]])\<rparr>"

definition sample_served :: "(unit, unit, unit, nat, sample_net, sample_tx, bytes32, bytes32) server_state" where
  "sample_served = \<lparr>ss_server = sample_server,
     ss_sessions = [\<lparr>client_handle = 1, session_at = Receiving\<rparr>, \<lparr>client_handle = 2, session_at = Receiving\<rparr>],
     ss_net = sample_net_served, ss_returned = None\<rparr>"

lemma sample_server_run:
  "server_reaches sample_server_lib sample_view sample_codec sample_server sample_net_start sample_served"
proof -
  let ?step = "server_step sample_server_lib sample_view sample_codec"
  let ?st = "\<lambda>cs n. \<lparr>ss_server = sample_server, ss_sessions = cs, ss_net = n, ss_returned = None\<rparr>"
  let ?c = "\<lambda>h pc. \<lparr>client_handle = h, session_at = pc\<rparr> :: (nat, sample_tx, bytes32, bytes32) session"
  let ?first = "sample_net_start\<lparr>backlog := [2], opened := {1}\<rparr>"
  let ?both = "sample_net_start\<lparr>backlog := [], opened := {1, 2}\<rparr>"
  let ?one = "?both\<lparr>conn_read := (\<lambda>_. 0)(1 := 1)\<rparr>"
  let ?two = "?both\<lparr>conn_read := (\<lambda>_. 0)(1 := 1, 2 := 1)\<rparr>"
  let ?pong = "?two\<lparr>conn_out := (\<lambda>_. [])(2 := [[0]])\<rparr>"
  let ?account = "Sending (Resp_AccountIdAzero 11)"
  note defs = sample_server_lib_def sample_net_start_def sample_net_served_def sample_stream_def session_receive_def
    session_reply_def client_recv_def client_send_def serve_command_def server_keys_def sample_codec_def
    sample_command_read_def fun_eq_iff
  have "?step (?st [] sample_net_start) (?st [?c 1 Receiving] ?first)"
    by (rule server_step.accept) (simp_all add: accept_one_def defs)
  moreover have "?step (?st [?c 1 Receiving] ?first) (?st [?c 1 Receiving, ?c 2 Receiving] ?both)"
    by (rule server_step.accept) (simp_all add: accept_one_def defs insert_commute)
  moreover have "?step (?st [?c 1 Receiving, ?c 2 Receiving] ?both) (?st [?c 1 ?account, ?c 2 Receiving] ?one)"
    using server_step.serve [of "?st [?c 1 Receiving, ?c 2 Receiving] ?both" 0 "?c 1 Receiving" sample_server_lib
        sample_codec ?account ?one sample_view] by (simp add: defs)
  moreover have "?step (?st [?c 1 ?account, ?c 2 Receiving] ?one) (?st [?c 1 ?account, ?c 2 (Sending Pong)] ?two)"
    using server_step.serve [of "?st [?c 1 ?account, ?c 2 Receiving] ?one" 1 "?c 2 Receiving" sample_server_lib
        sample_codec "Sending Pong" ?two sample_view] by (simp add: defs)
  moreover have "?step (?st [?c 1 ?account, ?c 2 (Sending Pong)] ?two) (?st [?c 1 ?account, ?c 2 Receiving] ?pong)"
    using server_step.serve [of "?st [?c 1 ?account, ?c 2 (Sending Pong)] ?two" 1 "?c 2 (Sending Pong)" sample_server_lib
        sample_codec Receiving ?pong sample_view] by (simp add: defs)
  moreover have "?step (?st [?c 1 ?account, ?c 2 Receiving] ?pong) sample_served"
    using server_step.serve [of "?st [?c 1 ?account, ?c 2 Receiving] ?pong" 0 "?c 1 ?account" sample_server_lib
        sample_codec Receiving sample_net_served sample_view] by (simp add: sample_served_def defs)
  ultimately show ?thesis by (meson server_reaches.intros)
qed

end
