(* ===== verification/Sample_Network.thy ===== *)
theory Sample_Network
  imports Halt_Recovery Most_Properties Sample_Relayer
begin

text \<open>
  A client library on the sample chain, for each guardian: the world is the chain itself, and a call
  runs at once.  Its transcoder knows one call, the vote for the request the witnesses use.
\<close>

definition byte_chars :: "u8 list \<Rightarrow> string" where
  "byte_chars bs = map (\<lambda>b. char_of (unat b)) bs"

lemma byte_chars_inject: "byte_chars xs = byte_chars ys \<longleftrightarrow> xs = ys"
proof -
  have "inj (\<lambda>b :: u8. char_of (unat b) :: char)"
  proof (rule injI)
    fix a b :: u8 assume "(char_of (unat a) :: char) = char_of (unat b)"
    then have "(of_char (char_of (unat a) :: char) :: nat) = of_char (char_of (unat b) :: char)" by simp
    then have "unat a mod 256 = unat b mod 256" by simp
    moreover have "unat x < 256" for x :: u8 by (rule order_less_le_trans [OF unsigned_less]) simp
    ultimately show "a = b" by (simp add: word_unat_eq_iff)
  qed
  then show ?thesis unfolding byte_chars_def by (rule inj_map_eq_map)
qed

definition vote_args :: "string list" where
  "vote_args = [''0x'' @ byte_chars (array_bytes 112), decimal 0, ''0x'' @ byte_chars (array_bytes 7),
     decimal 30, ''0x'' @ byte_chars (array_bytes 60), decimal 0]"

definition vote_decode :: "u8 list \<Rightarrow> most_msg option" where
  "vote_decode bs = (if bs = [1] then Some (ReceiveRequest 112 0 7 30 60 0) else None)"

definition guardian_client :: "account_id \<Rightarrow> (unit, unit, unit, unit, ledger chain) aleph_lib" where
  "guardian_client g = \<lparr>account_from_str = (\<lambda>_. Ok 1000), contract_instance = (\<lambda>_ _. Ok ()), transcoder_load = (\<lambda>_. Ok ()),
     encode_message = (\<lambda>_ name args. if args = vote_args then Ok [1] else Err ''unknown call''),
     decode_return = (\<lambda>_ _ _. Err ''no answer''),
     contract_call = (\<lambda>address v wt data status w.
       case vote_decode data of
         None \<Rightarrow> (Err ''unknown call'', w)
       | Some msg \<Rightarrow>
           if id_headroom (bridge w) then
             (case run_message sample_keccak ledger_lib sample_runtime ((sample_env g 0)\<lparr>self_account := address\<rparr>) msg w of
                Ok w' \<Rightarrow> (Ok \<lparr>tx_block_hash = 0, tx_tx_hash = 0\<rparr>, w')
              | _ \<Rightarrow> (Err ''reverted'', w))
           else (Err ''reverted'', w)),
     call_and_get = (\<lambda>_ _ _ w. (Err ''no answer'', w)), contract_read_bool = (\<lambda>_ _ w. (Ok False, w)),
     translate_events = (\<lambda>_ _ _. []), hex_encode = byte_chars, debug_value = (\<lambda>_. []), debug_values = (\<lambda>_. [])\<rparr>"

definition network_eth :: "ledger chain eth_lib" where
  "network_eth = \<lparr>parse_address = (\<lambda>_. Ok 9), get_block_finalized = (\<lambda>w. (Ok (Some (Some 1)), w)),
     query_events = (\<lambda>_ _ _ w. (Ok [], w)),
     as_u32 = (\<lambda>x. if unat x < 2 ^ 32 then Some (ucast x) else None),
     as_u128 = (\<lambda>x. if unat x < 2 ^ 128 then Some (ucast x) else None),
     eth_keccak = sample_keccak\<rparr>"

lemma guardian_message_law: "message_law (guardian_client g) vote_decode"
  by (auto simp: message_law_def guardian_client_def vote_args_def vote_decode_def receive_request_args_def
      bytes32_to_str_def byte_chars_inject decimal_inject word_unat_eq_iff split: if_splits)

lemma guardian_submission_law: "submission_law (guardian_client g) vote_decode (\<lambda>w. w) sample_keccak g"
proof -
  have "\<exists>P R env v v'. caller env = g \<and> self_account env = address \<and> transferred_value env = 0 \<and>
      chain_evolves sample_keccak w v \<and> id_headroom (bridge v) \<and> run_message sample_keccak P R env msg v = Ok v' \<and>
      chain_evolves sample_keccak v' w'"
    if "contract_call (guardian_client g) address 0 wt data Finalized w = (Ok info, w')" and "vote_decode data = Some msg"
    for address wt data w info w' msg
  proof -
    let ?env = "(sample_env g 0)\<lparr>self_account := address\<rparr>"
    have "run_message sample_keccak ledger_lib sample_runtime ?env msg w = Ok w'" "id_headroom (bridge w)"
      using that by (auto simp: guardian_client_def split: if_splits result.splits)
    then show ?thesis
      by (intro exI [of _ ledger_lib] exI [of _ sample_runtime] exI [of _ ?env] exI [of _ w] exI [of _ w'])
         (simp add: sample_env_def chain_evolves.still)
  qed
  then show ?thesis unfolding submission_law_def by blast
qed

definition network_request :: eth_most_event where
  "network_request = CrosschainTransferRequestFilter 0 7 30 60 0"

lemma network_hash: "narrowed_hash sample_keccak network_request = 112"
  by (simp add: narrowed_hash_def)

lemma network_eth_laws: "narrowing_law network_eth" "eth_keccak network_eth = sample_keccak"
  by (simp_all add: narrowing_law_def network_eth_def)

lemma guardian_handles:
  assumes "receive_request sample_keccak ledger_lib sample_runtime (sample_env g 0) 112 0 7 30 60 0 w = Ok w'"
    and "id_headroom (bridge w)"
  shows "eth_handle_event (guardian_client g) network_eth cfg network_request w = (Ok (), w')"
proof -
  have "eth_keccak network_eth (eth_request_bytes 0 7 30 60 0) = 112"
    by (simp add: eth_request_bytes_eq network_eth_laws sample_keccak_def length_request_data)
  moreover have "(sample_env g 0)\<lparr>self_account := 1000\<rparr> = sample_env g 0" by (simp add: sample_env_def)
  ultimately show ?thesis
    using assms
    by (simp add: eth_handle_event_def network_request_def network_eth_def most_instance_new_def guardian_client_def
        send_receive_request_def receive_request_args_def bytes32_to_str_def vote_args_def vote_decode_def Let_def)
qed

section \<open>A halt that is lifted\<close>

text \<open>
  The chain of a guardian who votes while the bridge is halted.  The world counts the questions asked and the votes
  cast; with the second question the owner resumes the bridge.  Voting again only adds an event to the log.
\<close>

definition paired_chain :: "ledger chain" where
  "paired_chain = sample_chain\<lparr>bridge := sample_most\<lparr>supported_pairs := [7 \<mapsto> 77]\<rparr>\<rparr>"

definition again_chain :: "nat \<Rightarrow> ledger chain" where
  "again_chain k = on_bridge (\<lambda>m. m\<lparr>most_events := most_events m @ replicate k (RequestAlreadySigned 112 1)\<rparr>) voted_chain"

definition halt_view :: "nat \<times> nat \<Rightarrow> ledger chain" where
  "halt_view w = (if fst w < 2 then paired_chain else if snd w = 0 then open_chain else again_chain (snd w - 1))"

definition patient_client :: "(unit, unit, unit, unit, nat \<times> nat) aleph_lib" where
  "patient_client = \<lparr>account_from_str = (\<lambda>_. Ok 1000), contract_instance = (\<lambda>_ _. Ok ()), transcoder_load = (\<lambda>_. Ok ()),
     encode_message = (\<lambda>_ name args. if args = vote_args then Ok [1] else if args = [] then Ok [2] else Err ''unknown call''),
     decode_return = (\<lambda>_ _ res. Ok (Tuple (Some ''Ok'') [Tuple (Some ''Ok'') [Bool_Value (res = [1])]])),
     contract_call = (\<lambda>address v wt data status w.
       if vote_decode data = None \<or> address \<noteq> 1000 then (Err ''unknown call'', w)
       else if fst w < 2 then (Err ''IsHalted'', w)
       else (Ok \<lparr>tx_block_hash = 0, tx_tx_hash = 0\<rparr>, (fst w, Suc (snd w)))),
     call_and_get = (\<lambda>_ _ _ w. (Ok (Ok (if fst w < 2 then [1] else [0])), (Suc (fst w), snd w))),
     contract_read_bool = (\<lambda>_ _ w. (Ok False, w)),
     translate_events = (\<lambda>_ _ _. []), hex_encode = byte_chars, debug_value = (\<lambda>_. []), debug_values = (\<lambda>_. [])\<rparr>"

definition patient_instance :: "(unit, unit) most_instance" where
  "patient_instance = \<lparr>mi_contract = (), mi_address = 1000, mi_transcoder = (), mi_ref_time_limit = 100, mi_proof_size_limit = 100\<rparr>"

definition patient_eth :: "(nat \<times> nat) eth_lib" where
  "patient_eth = \<lparr>parse_address = (\<lambda>_. Ok 9), get_block_finalized = (\<lambda>w. (Ok (Some (Some 1)), w)),
     query_events = (\<lambda>_ _ _ w. (Ok [], w)),
     as_u32 = (\<lambda>x. if unat x < 2 ^ 32 then Some (ucast x) else None),
     as_u128 = (\<lambda>x. if unat x < 2 ^ 128 then Some (ucast x) else None),
     eth_keccak = sample_keccak\<rparr>"

lemma patient_eth_laws: "narrowing_law patient_eth" "eth_keccak patient_eth = sample_keccak"
  by (simp_all add: narrowing_law_def patient_eth_def)

lemma again_chain_0: "again_chain 0 = voted_chain"
  by (simp add: again_chain_def on_bridge_def)

lemma again_vote:
  "receive_request sample_keccak ledger_lib sample_runtime (sample_env 1 0) 112 0 7 30 60 0 (again_chain k) = Ok (again_chain (Suc k))"
  by (simp add: again_chain_def run_defs voted_chain_def sample_defs replicate_append_same [symmetric])

lemma again_headroom: "id_headroom (bridge (again_chain k))"
  by (simp add: id_headroom_def again_chain_def on_bridge_def voted_chain_def sample_defs)

lemma halt_view_vote:
  assumes "\<not> fst w < 2"
  shows "receive_request sample_keccak ledger_lib sample_runtime (sample_env 1 0) 112 0 7 30 60 0 (halt_view w) =
    Ok (halt_view (fst w, Suc (snd w)))" and "id_headroom (bridge (halt_view w))"
proof -
  have "receive_request sample_keccak ledger_lib sample_runtime (sample_env 1 0) 112 0 7 30 60 0 open_chain = Ok (again_chain 0)"
    unfolding again_chain_0 by (simp add: run_defs voted_chain_def sample_defs)
  then show "receive_request sample_keccak ledger_lib sample_runtime (sample_env 1 0) 112 0 7 30 60 0 (halt_view w) =
      Ok (halt_view (fst w, Suc (snd w)))"
    using assms again_vote [of "snd w - 1"] by (auto simp: halt_view_def)
  show "id_headroom (bridge (halt_view w))" using assms again_headroom sample_headroom(1) by (simp add: halt_view_def)
qed

lemma sample_vote_evolves:
  assumes "receive_request sample_keccak ledger_lib sample_runtime (sample_env 1 0) 112 0 7 30 60 0 v = Ok v'" and "id_headroom (bridge v)"
  shows "chain_evolves sample_keccak v v'"
proof -
  have "most_tx sample_keccak ledger_lib sample_runtime (sample_env 1 0) vote_msg v = v'"
    using assms(1) by (intro most_tx_message) (simp_all add: vote_msg_def sample_env_def)
  then show ?thesis using chain_evolves.transaction [OF chain_evolves.still assms(2)] by metis
qed

lemma open_evolves: "chain_evolves sample_keccak open_chain (again_chain k)"
proof (induction k)
  case 0
  have "receive_request sample_keccak ledger_lib sample_runtime (sample_env 1 0) 112 0 7 30 60 0 open_chain = Ok voted_chain"
    by (simp add: run_defs voted_chain_def sample_defs)
  then show ?case unfolding again_chain_0 using sample_headroom(1) by (rule sample_vote_evolves)
next
  case (Suc k)
  then show ?case using chain_evolves_trans [OF sample_vote_evolves [OF again_vote again_headroom]] by blast
qed

lemma resumed: "chain_evolves sample_keccak paired_chain open_chain"
proof -
  have "most_tx sample_keccak ledger_lib sample_runtime (sample_env 100 0) (SetHalted False) paired_chain = open_chain"
    by (simp add: most_tx_def set_halted_def owner_only_def ensure_owner_def read_data_def read_ownable_data_def
        ownable_ensure_owner_def lift_bridge_def on_bridge_def set_data_def emit_event_def paired_chain_def sample_defs Let_def)
  moreover have "id_headroom (bridge paired_chain)" by (simp add: id_headroom_def paired_chain_def sample_defs)
  ultimately show ?thesis using chain_evolves.transaction [OF chain_evolves.still] by metis
qed

lemma halt_view_flag: "is_halted (bridge (halt_view w)) = Ok (fst w < 2)"
  by (simp add: halt_view_def is_halted_def read_data_def paired_chain_def again_chain_def on_bridge_def voted_chain_def sample_defs)

lemma halt_view_question: "chain_evolves sample_keccak (halt_view w) (halt_view (Suc (fst w), snd w))"
  using resumed chain_evolves_trans [OF open_evolves resumed] by (simp add: halt_view_def chain_evolves.still)

lemma patient_read_law: "halt_read_law patient_client patient_instance account halt_view sample_keccak fst"
  by (simp add: halt_read_law_def patient_client_def vote_args_def halt_view_flag halt_view_question)

lemma patient_message_law: "message_law patient_client vote_decode"
  by (auto simp: message_law_def patient_client_def vote_args_def vote_decode_def receive_request_args_def
      bytes32_to_str_def byte_chars_inject decimal_inject word_unat_eq_iff split: if_splits)

lemma patient_submission_law: "submission_law patient_client vote_decode halt_view sample_keccak 1"
proof -
  have "\<exists>P R env v v'. caller env = 1 \<and> self_account env = address \<and> transferred_value env = 0 \<and>
      chain_evolves sample_keccak (halt_view w) v \<and> id_headroom (bridge v) \<and> run_message sample_keccak P R env msg v = Ok v' \<and>
      chain_evolves sample_keccak v' (halt_view w')"
    if call: "contract_call patient_client address 0 wt data Finalized w = (Ok info, w')" and msg: "vote_decode data = Some msg"
    for address wt data w info w' msg
  proof -
    have w: "\<not> fst w < 2" "w' = (fst w, Suc (snd w))" "address = 1000"
      using call by (auto simp: patient_client_def split: if_splits)
    have "msg = ReceiveRequest 112 0 7 30 60 0" using msg by (simp add: vote_decode_def split: if_splits)
    then show ?thesis
      using halt_view_vote [OF w(1)] w
      by (intro exI [of _ ledger_lib] exI [of _ sample_runtime] exI [of _ "sample_env 1 0"] exI [of _ "halt_view w"]
          exI [of _ "halt_view w'"]) (simp add: sample_env_def chain_evolves.still)
  qed
  then show ?thesis unfolding submission_law_def by blast
qed

lemma patient_meets_halts: "meets_only_halts patient_client patient_eth patient_instance halt_view fst 2 network_request"
proof -
  have "chain_evolves sample_keccak (halt_view w) (halt_view (fst w, Suc (snd w)))" if "\<not> fst w < 2" for w
    using sample_vote_evolves halt_view_vote [OF that] by blast
  moreover have "receive_request_args patient_client 112 0 7 30 60 0 = vote_args"
    by (simp add: receive_request_args_def vote_args_def bytes32_to_str_def patient_client_def)
  ultimately show ?thesis
    using network_hash unfolding network_request_def
    by (auto simp: patient_eth_laws(2) patient_client_def vote_decode_def patient_instance_def halt_view_flag
        chain_evolves.still split: if_splits)
qed

end
