(* ===== verification/Sample_Eth.thy ===== *)
theory Sample_Eth
  imports Eth_Network Sample_Network
begin

text \<open>
  A concrete Ethereum side for the witnesses: the OpenZeppelin modules as a small record, a token at 70
  paired with the token 7 of the sample chain, the guardians 11, 12 and 13 with threshold two, the owner
  100 and WETH at 500.
\<close>

section \<open>The inherited modules\<close>

record oz =
  oz_owner :: eth_address
  oz_pending :: eth_address
  oz_paused :: bool
  oz_initialized :: bool

definition sample_oz :: "oz oz_lib" where
  "sample_oz = \<lparr>
     begin_initializer = (\<lambda>s. if oz_initialized s then Err ''InvalidInitialization'' else Ok s),
     end_initializer = (\<lambda>s. s\<lparr>oz_initialized := True\<rparr>),
     ownable_init = (\<lambda>a s. if a = 0 then Err ''OwnableInvalidOwner'' else Ok (s\<lparr>oz_owner := a\<rparr>)),
     pausable_init = (\<lambda>s. Ok (s\<lparr>oz_paused := False\<rparr>)),
     check_owner = (\<lambda>a s. if a = oz_owner s then Ok () else Err ''OwnableUnauthorizedAccount''),
     require_not_paused = (\<lambda>s. if oz_paused s then Err ''EnforcedPause'' else Ok ()),
     require_paused = (\<lambda>s. if oz_paused s then Ok () else Err ''ExpectedPause''),
     oz_pause = (\<lambda>a s. if oz_paused s then Err ''EnforcedPause'' else Ok (s\<lparr>oz_paused := True\<rparr>)),
     oz_unpause = (\<lambda>a s. if oz_paused s then Ok (s\<lparr>oz_paused := False\<rparr>) else Err ''ExpectedPause''),
     oz_transfer_ownership = (\<lambda>a b s. if a = oz_owner s then Ok (s\<lparr>oz_pending := b\<rparr>) else Err ''OwnableUnauthorizedAccount''),
     oz_accept_ownership = (\<lambda>a s. if a = oz_pending s then Ok (s\<lparr>oz_owner := a, oz_pending := 0\<rparr>)
       else Err ''OwnableUnauthorizedAccount'')\<rparr>"

lemma sample_oz_law: "initializer_law sample_oz oz_initialized"
  by (auto simp: initializer_law_def sample_oz_def split: if_splits)

section \<open>Member ids\<close>

lemma address_bytes_number: "horner_sum unsigned (2 ^ 8) (to_le_bytes (a :: eth_address)) = (ucast a :: bytes32)"
proof -
  have "ucast (drop_bit (8 * i) a) = (ucast (drop_bit (8 * i) (ucast a :: bytes32)) :: u8)" if "i < 20" for i
    by (rule bit_word_eqI) (use that in \<open>auto simp: bit_simps\<close>)
  then have "to_le_bytes a = map (\<lambda>i. ucast (drop_bit (8 * i) (ucast a :: bytes32)) :: u8) [0..<20]"
    by (auto simp: to_le_bytes_def)
  then have "horner_sum unsigned (2 ^ 8) (to_le_bytes a) = take_bit (8 * 20) (ucast a :: bytes32)"
    by (simp only: horner_bytes)
  also have "take_bit (8 * 20) (ucast a :: bytes32) = ucast a"
    by (rule bit_word_eqI) (auto simp: bit_simps dest: bit_imp_le_length)
  finally show ?thesis .
qed

lemma sample_member_id: "committee_member_id sample_keccak c a = ucast a + 2 ^ 160 * c"
proof -
  have "array_of_bytes (array_bytes c @ address_bytes a) =
      horner_sum unsigned (2 ^ 8) (to_le_bytes a) + (2 ^ 8) ^ length (to_le_bytes a) * horner_sum unsigned (2 ^ 8) (to_le_bytes c)"
    by (simp add: array_of_bytes_def array_bytes_def address_bytes_def horner_sum_append)
  also have "horner_sum unsigned (2 ^ 8) (to_le_bytes c) = array_of_bytes (array_bytes c)"
    by (simp add: array_of_bytes_def array_bytes_def)
  finally show ?thesis
    using address_bytes_number [of a] by (simp add: committee_member_id_def sample_keccak_def address_bytes_def)
qed

lemma sample_eth_hash [simp]: "eth_request_hash sample_keccak c t a r n = 160"
  by (simp add: eth_request_hash_def sample_keccak_def)

section \<open>Worlds\<close>

definition eth_at :: "eth_address \<Rightarrow> eth_env" where
  "eth_at who = \<lparr>msg_sender = who, msg_value = 0, this_address = 1000\<rparr>"

definition sample_evm :: "(oz, unit) evm" where
  "sample_evm = \<lparr>external_call = (\<lambda>c w. Some ([], w)), code_length = (\<lambda>_ _. 1)\<rparr>"

definition eth_new :: "oz eth_most" where
  "eth_new = \<lparr>requestNonce = 0, committeeId = 0, wethAddress = 500, supportedPairs = (\<lambda>_. 0),
     pendingRequests = (\<lambda>_. \<lparr>signatureCount = 0, requestSignatures = (\<lambda>_. False)\<rparr>), processedRequests = (\<lambda>_. False),
     eth_committee = (\<lambda>_. False)(11 := True, 12 := True, 13 := True), committeeSize = (\<lambda>_. 0)(0 := 3),
     signatureThreshold = (\<lambda>_. 0)(0 := 2),
     oz_state = \<lparr>oz_owner = 100, oz_pending = 0, oz_paused = True, oz_initialized = True\<rparr>, eth_events = []\<rparr>"

definition eth_open :: "oz eth_most" where
  "eth_open = eth_new\<lparr>supportedPairs := (\<lambda>_. 0)(70 := 7),
     oz_state := \<lparr>oz_owner = 100, oz_pending = 0, oz_paused = False, oz_initialized = True\<rparr>\<rparr>"

definition eth_sent :: "oz eth_most" where
  "eth_sent = eth_open\<lparr>requestNonce := 1, eth_events := [Eth_CrosschainTransferRequest 0 7 30 60 0]\<rparr>"

text \<open>The request 160 of the other direction, after the votes of guardians 11 and 12.\<close>

definition eth_half :: "oz eth_most \<Rightarrow> oz eth_most" where
  "eth_half m = voted 160 11 1 m"

definition eth_paid :: "oz eth_most \<Rightarrow> oz eth_most" where
  "eth_paid m = log_event (Eth_RequestProcessed 160) (settled 160 (voted 160 12 2 m))"

definition in_world :: "oz eth_most \<Rightarrow> (oz, unit) eth_world" where
  "in_world m = \<lparr>emost = m, outside = ()\<rparr>"

lemmas eth_sample_defs = eth_at_def sample_evm_def eth_new_def eth_open_def eth_sent_def in_world_def sample_oz_def

lemma in_world_simps [simp]: "emost (in_world m) = m" "on_most f (in_world m) = in_world (f m)"
  "emit_eth e (in_world m) = in_world (log_event e m)"
  by (simp_all add: in_world_def on_most_def emit_eth_def log_event_def)

lemma eth_new_deployed: "eth_deployed sample_keccak sample_oz eth_new"
proof -
  have "initialize_most sample_keccak sample_oz (eth_at 100) [11, 12, 13] 2 100 500
      (blank_most \<lparr>oz_owner = 0, oz_pending = 0, oz_paused = False, oz_initialized = False\<rparr>) = Ok eth_new"
    by (simp add: initialize_most_def setCommittee_internal_def require_def sample_oz_def blank_most_def sample_member_id
        eth_new_def Let_def)
  then show ?thesis unfolding eth_deployed_def by blast
qed

definition eth_call_sample :: "eth_address \<Rightarrow> eth_msg \<Rightarrow> oz eth_most \<Rightarrow> ((oz, unit) eth_world, eth_error) result" where
  "eth_call_sample who msg m = eth_dispatch sample_keccak sample_oz sample_evm (eth_at who) msg (in_world m)"

lemmas eth_run_defs = eth_call_sample_def eth_dispatch_def require_def onlyOwner_def whenPaused_def whenNotPaused_def
  onlyCommitteeMember_def isInCommittee_def increment_def checked_add_def word_le_nat_alt

lemma eth_opened:
  "eth_call_sample 100 (AddPair_Eth 70 7) eth_new = Ok (in_world (eth_new\<lparr>supportedPairs := (\<lambda>_. 0)(70 := 7)\<rparr>))"
  "eth_call_sample 100 Unpause_Eth (eth_new\<lparr>supportedPairs := (\<lambda>_. 0)(70 := 7)\<rparr>) = Ok (in_world eth_open)"
  by (simp_all add: eth_run_defs addPair_def unpause_most_def on_oz_def eth_sample_defs on_most_def)

lemma eth_sends: "eth_call_sample 50 (SendRequest_Eth 70 30 60) eth_open = Ok (in_world eth_sent)"
  by (simp add: eth_run_defs sendRequest_def announce_def eth_sample_defs on_most_def emit_eth_def Let_def)

lemma eth_votes:
  assumes "m = eth_open \<or> m = eth_sent"
  shows "eth_call_sample 11 (ReceiveRequest_Eth 160 0 77 30 99 0) m = Ok (in_world (eth_half m))"
    and "eth_call_sample 12 (ReceiveRequest_Eth 160 0 77 30 99 0) (eth_half m) = Ok (in_world (eth_paid (eth_half m)))"
proof -
  show "eth_call_sample 11 (ReceiveRequest_Eth 160 0 77 30 99 0) m = Ok (in_world (eth_half m))"
    using assms
    by (auto simp: eth_run_defs receiveRequest_vote hasSignedRequest_def sample_member_id eth_half_def
        eth_at_def sample_oz_def eth_open_def eth_new_def eth_sent_def)
  have "\<not> processedRequests (eth_half m) 160" "\<not> hasSignedRequest 12 160 (eth_half m)"
    using assms by (auto simp: eth_half_def voted_def hasSignedRequest_def eth_open_def eth_new_def eth_sent_def)
  then show "eth_call_sample 12 (ReceiveRequest_Eth 160 0 77 30 99 0) (eth_half m) = Ok (in_world (eth_paid (eth_half m)))"
    using assms
    by (auto simp: eth_run_defs receiveRequest_vote sample_member_id eth_half_def eth_paid_def return_locked_def
        tokenTransferReturnSuccess_def bytes32ToAddress_def voted_def settled_def
        eth_at_def sample_oz_def sample_evm_def eth_open_def eth_new_def eth_sent_def)
qed

lemma sample_evm_calls: "external_call sample_evm c u = Some (data, u') \<Longrightarrow> eth_evolves K Z G u u'"
  by (simp add: sample_evm_def eth_evolves.still)

lemma sample_eth_step:
  assumes "eth_evolves sample_keccak sample_oz G w (in_world m)" and "eth_call_sample who msg m = Ok v" and "G (eth_at who) msg"
  shows "eth_evolves sample_keccak sample_oz G w v"
  by (rule eth_evolves.message [OF assms(1,3) _ assms(2) [unfolded eth_call_sample_def]]) (use sample_evm_calls in blast)

lemma eth_sent_evolves:
  assumes "\<And>who msg. (\<And>h c t a r n. msg \<noteq> ReceiveRequest_Eth h c t a r n) \<Longrightarrow> G (eth_at who) msg"
  shows "eth_evolves sample_keccak sample_oz G (in_world eth_new) (in_world eth_open)"
    and "eth_evolves sample_keccak sample_oz G (in_world eth_new) (in_world eth_sent)"
proof -
  note add = sample_eth_step [OF eth_evolves.still eth_opened(1), of G]
  show open_world: "eth_evolves sample_keccak sample_oz G (in_world eth_new) (in_world eth_open)"
    by (rule sample_eth_step [OF add eth_opened(2)]) (rule assms, simp)+
  show "eth_evolves sample_keccak sample_oz G (in_world eth_new) (in_world eth_sent)"
    by (rule sample_eth_step [OF open_world eth_sends]) (rule assms, simp)
qed

section \<open>The client libraries of two guardians\<close>

text \<open>The world is the Ethereum chain itself; a transaction for the first committee runs when it is sent.\<close>

definition client_eth :: "(oz, unit) eth_world eth_lib" where
  "client_eth = \<lparr>parse_address = (\<lambda>_. Ok 1000), get_block_finalized = (\<lambda>w. (Ok (Some (Some 1)), w)),
     query_events = (\<lambda>_ _ _ w. (Ok [], w)),
     as_u32 = (\<lambda>x. if unat x < 2 ^ 32 then Some (ucast x) else None),
     as_u128 = (\<lambda>x. if unat x < 2 ^ 128 then Some (ucast x) else None),
     eth_keccak = sample_keccak\<rparr>"

definition client_signed :: "eth_address \<Rightarrow> (unit, (oz, unit) eth_world) eth_signed_lib" where
  "client_signed g = \<lparr>next_nonce = (\<lambda>w. (0, w)),
     send_tx = (\<lambda>call w. if call_committee_id call = 0 then
         (case eth_dispatch sample_keccak sample_oz sample_evm (eth_at g) (call_message call) w of
            Ok w' \<Rightarrow> (Ok (), w') | _ \<Rightarrow> (Err ''reverted'', w))
       else (Err ''unknown committee'', w)),
     await_confirmations = (\<lambda>_ _ _ w. (Ok (Some \<lparr>transaction_hash = 5, status = Some 1\<rparr>), w)),
     get_transaction = (\<lambda>_ w. (Ok (Some (Some 1)), w)), paused_call = (\<lambda>_ w. (Ok False, w)),
     abi_encode = (\<lambda>ts. concat (map abi_word ts))\<rparr>"

definition first_committee :: "eth_env \<Rightarrow> eth_msg \<Rightarrow> bool" where
  "first_committee env msg \<longleftrightarrow> (\<forall>h c t a r n. msg = ReceiveRequest_Eth h c t a r n \<longrightarrow> c = 0)"

lemma client_laws:
  "abi_law (client_signed g)" "eth_keccak client_eth = sample_keccak"
  "eth_query_law client_eth (client_signed g) (\<lambda>w. w) sample_oz G"
  "eth_submission_law (client_signed g) (\<lambda>w. w) sample_keccak sample_oz first_committee 1000 g"
proof -
  show "abi_law (client_signed g)" "eth_keccak client_eth = sample_keccak"
    "eth_query_law client_eth (client_signed g) (\<lambda>w. w) sample_oz G"
    by (simp_all add: abi_law_def client_signed_def client_eth_def eth_query_law_def eth_evolves.still)
  have "\<exists>X env v v'. msg_sender env = g \<and> msg_value env = 0 \<and> first_committee env (call_message call) \<and>
      (\<forall>c x data x'. external_call X c x = Some (data, x') \<longrightarrow> eth_evolves sample_keccak sample_oz first_committee x x') \<and>
      eth_evolves sample_keccak sample_oz first_committee u v \<and>
      eth_dispatch sample_keccak sample_oz X env (call_message call) v = Ok v' \<and>
      eth_evolves sample_keccak sample_oz first_committee v' u''"
    if "send_tx (client_signed g) call u = (Ok p, u')"
      and "await_confirmations (client_signed g) p confirmations retries u' = (Ok (Some receipt), u'')"
    for call u p u' confirmations retries receipt u''
  proof -
    have "eth_dispatch sample_keccak sample_oz sample_evm (eth_at g) (call_message call) u = Ok u''" "call_committee_id call = 0"
      using that by (auto simp: client_signed_def split: if_splits result.splits)
    then show ?thesis
      by (intro exI [of _ sample_evm] exI [of _ "eth_at g"] exI [of _ u] exI [of _ u''])
         (auto simp: eth_at_def first_committee_def call_message_def eth_evolves.still intro: sample_evm_calls)
  qed
  then show "eth_submission_law (client_signed g) (\<lambda>w. w) sample_keccak sample_oz first_committee 1000 g"
    unfolding eth_submission_law_def by blast
qed

definition azero_request :: transfer_request where
  "azero_request = \<lparr>tr_committee_id = 0, tr_dest_token_address = 77, tr_amount = 30, tr_dest_receiver_address = 99,
     tr_request_nonce = 0\<rparr>"

definition azero_event :: "unit contract_event" where
  "azero_event = \<lparr>event_name = Some ''CrosschainTransferRequest'', event_data = request_fields azero_request\<rparr>"

lemma azero_request_hash: "widened_hash sample_keccak azero_request = 160"
  by (simp add: widened_hash_def)

lemma client_handles:
  assumes "eth_call_sample g (ReceiveRequest_Eth 160 0 77 30 99 0) m = Ok v"
  shows "azero_handle_event client_eth (client_signed g) sample_config azero_event (in_world m) = Some (Ok (), v)"
proof -
  have "get_next_finalized_block_number_eth client_eth 0 u = Some (Ok 1 :: (u32, azero_listener_error) result, u)" for u
    unfolding get_next_finalized_block_number_eth_def by (subst poll.simps) (simp add: ask_finalized_eth_def client_eth_def)
  then have "wait_for_eth_tx_finality client_eth (client_signed g) 5 u = Some (Ok (), u)" for u
    by (subst wait_for_eth_tx_finality.simps) (simp add: ask_tx_finality_def client_signed_def)
  moreover have "call_message (azero_vote_call client_eth (client_signed g) cfg address azero_request nonce) =
      ReceiveRequest_Eth 160 0 77 30 99 0" for cfg address nonce
    by (simp add: call_message_widened [OF client_laws(1)] client_laws(2) widened_vote_def azero_request_hash)
       (simp add: azero_request_def)
  moreover have "call_committee_id (azero_vote_call client_eth (client_signed g) cfg address azero_request nonce) = 0" for cfg address nonce
    by (simp add: azero_vote_call_def azero_request_def)
  moreover have "parse_address client_eth s = Ok 1000" for s by (simp add: client_eth_def)
  ultimately show ?thesis
    using assms
    by (simp add: azero_handle_event_def azero_event_def request_fields_decode client_signed_def eth_call_sample_def)
qed

end
