(* ===== verification/Eth_Properties.thy ===== *)
theory Eth_Properties
  imports Sample_Eth
begin

text \<open>
  The properties of the Ethereum contract, over every state that its transactions reach when the tokens,
  WETH and the receivers of ether are adversaries that may call back at any point.
\<close>

lemma eth_paid_evolves:
  assumes "\<And>who msg. G (eth_at who) msg"
  shows "eth_evolves sample_keccak sample_oz G (in_world eth_new) (in_world (eth_half eth_open))"
    and "eth_evolves sample_keccak sample_oz G (in_world eth_new) (in_world (eth_paid (eth_half eth_open)))"
proof -
  show half: "eth_evolves sample_keccak sample_oz G (in_world eth_new) (in_world (eth_half eth_open))"
    by (rule sample_eth_step [OF eth_sent_evolves(1) eth_votes(1)]) (simp_all add: assms)
  show "eth_evolves sample_keccak sample_oz G (in_world eth_new) (in_world (eth_paid (eth_half eth_open)))"
    by (rule sample_eth_step [OF half eth_votes(2)]) (simp_all add: assms)
qed

lemma eth_paid_reachable: "eth_reachable sample_keccak sample_oz (\<lambda>_ _. True) (in_world (eth_paid (eth_half eth_open)))"
  unfolding eth_reachable_def using eth_new_deployed eth_paid_evolves(2) by (intro exI [of _ "in_world eth_new"]) simp

lemma eth_half_reachable: "eth_reachable sample_keccak sample_oz (\<lambda>_ _. True) (in_world (eth_half eth_open))"
  unfolding eth_reachable_def using eth_new_deployed eth_paid_evolves(1) by (intro exI [of _ "in_world eth_new"]) simp

lemma eth_paid_views:
  "processedRequests (eth_paid (eth_half eth_open)) 160" "eth_signers (eth_paid (eth_half eth_open)) 160 = {11, 12}"
  "\<not> processedRequests (eth_half eth_open) 160" "eth_signers (eth_half eth_open) 160 = {11}"
proof -
  have "eth_signers eth_open 160 = {}" "\<not> processedRequests eth_open 160"
    by (simp_all add: eth_signers_def hasSignedRequest_def eth_open_def eth_new_def)
  then show "processedRequests (eth_paid (eth_half eth_open)) 160" "eth_signers (eth_paid (eth_half eth_open)) 160 = {11, 12}"
    "\<not> processedRequests (eth_half eth_open) 160" "eth_signers (eth_half eth_open) 160 = {11}"
    by (auto simp: eth_paid_def eth_half_def)
qed

section \<open>Executions and votes\<close>

text \<open>
  C6.  On Ethereum too a request is executed at most once, even though executing it calls the token or the
  receiver, which may call back: in every reachable state the executions in the log are distinct and are
  exactly the processed requests, and a further vote for a processed request only adds one event, without
  a call to anyone.
\<close>

theorem eth_executed_at_most_once:
  assumes "eth_reachable K Z G w" and "initializer_law Z init"
  shows "distinct (eth_processed_log (eth_events (emost w))) \<and>
    set (eth_processed_log (eth_events (emost w))) = {h. processedRequests (emost w) h} \<and>
    (\<forall>X env h c t a r n w'. processedRequests (emost w) h \<longrightarrow>
       eth_dispatch K Z X env (ReceiveRequest_Eth h c t a r n) w = Ok w' \<longrightarrow>
       w' = emit_eth (Eth_ProcessedRequestSigned h (msg_sender env)) w)"
proof (intro conjI allI impI)
  have inv: "eth_log_inv {} (emost w)" using eth_reachable_inv [OF assms] by (simp add: eth_most_inv_def)
  then show "distinct (eth_processed_log (eth_events (emost w)))"
    "set (eth_processed_log (eth_events (emost w))) = {h. processedRequests (emost w) h}"
    by (simp_all add: eth_log_inv_def)
  fix X env h c t a r n w'
  assume "processedRequests (emost w) h" and "eth_dispatch K Z X env (ReceiveRequest_Eth h c t a r n) w = Ok w'"
  then show "w' = emit_eth (Eth_ProcessedRequestSigned h (msg_sender env)) w"
    by (auto simp: eth_dispatch_def receiveRequest_def result_elims)
qed

theorem eth_executed_at_most_once_witness:
  "eth_processed_log (eth_events (eth_paid (eth_half eth_open))) = [160] \<and>
   (\<exists>w'. eth_call_sample 13 (ReceiveRequest_Eth 160 0 77 30 99 0) (eth_paid (eth_half eth_open)) = Ok w' \<and>
      processedRequests (emost w') 160)"
proof -
  let ?m = "eth_paid (eth_half eth_open)"
  have "eth_call_sample 13 (ReceiveRequest_Eth 160 0 77 30 99 0) ?m =
      Ok (emit_eth (Eth_ProcessedRequestSigned 160 13) (in_world ?m))"
    by (simp add: eth_run_defs receiveRequest_def sample_member_id eth_paid_views)
       (simp add: eth_paid_def eth_half_def voted_def settled_def log_event_def eth_open_def eth_new_def eth_at_def sample_oz_def)
  moreover have "eth_processed_log (eth_events ?m) = [160]"
    by (simp add: eth_paid_def eth_half_def eth_open_def eth_new_def eth_processed_log_def)
  moreover note eth_executed_at_most_once [OF eth_paid_reachable sample_oz_law]
  ultimately show ?thesis by (auto simp: eth_paid_views)
qed

text \<open>
  C7.  A processed request on Ethereum has its quorum: everyone who signed it is in a committee named in
  data with its hash, and there are as many signers as the threshold of such a committee, a threshold that
  is not zero and counts the request's own committee, not the one in office.  The only exception is a
  collision of Keccak between the member ids of a signer for a later committee and of somebody for an
  earlier one, since membership is looked up by hash.
\<close>

theorem eth_processed_has_quorum:
  assumes "eth_reachable K Z G w" and "initializer_law Z init" and "processedRequests (emost w) h"
  shows "(\<forall>a. hasSignedRequest a h (emost w) \<longrightarrow>
      (\<exists>c t amount r n. h = eth_request_hash K c t amount r n \<and> isInCommittee K c a (emost w))) \<and>
    (\<exists>c t amount r n a. h = eth_request_hash K c t amount r n \<and> hasSignedRequest a h (emost w) \<and>
       isInCommittee K c a (emost w) \<and>
       (signatureThreshold (emost w) c \<noteq> 0 \<and>
          unat (signatureThreshold (emost w) c) \<le> card {a. hasSignedRequest a h (emost w)} \<or>
        (\<exists>c' b. c' < c \<and> committee_member_id K c' b = committee_member_id K c a)))"
proof -
  have inv: "eth_vote_inv K (emost w)" "eth_committee_inv K (emost w)"
    using eth_reachable_inv [OF assms(1,2)] by (simp_all add: eth_most_inv_def)
  then have "eth_quorum K h (emost w)" using assms(3) by (simp add: eth_vote_inv_def)
  then have "\<exists>c t amount r n a. h = eth_request_hash K c t amount r n \<and> hasSignedRequest a h (emost w) \<and>
       isInCommittee K c a (emost w) \<and>
       (signatureThreshold (emost w) c \<noteq> 0 \<and>
          unat (signatureThreshold (emost w) c) \<le> card {a. hasSignedRequest a h (emost w)} \<or>
        (\<exists>c' b. c' < c \<and> committee_member_id K c' b = committee_member_id K c a))"
    using inv(2) unfolding eth_quorum_def eth_committee_inv_def hasSignedRequest_signers by fastforce
  moreover have "\<forall>a. hasSignedRequest a h (emost w) \<longrightarrow>
      (\<exists>c t amount r n. h = eth_request_hash K c t amount r n \<and> isInCommittee K c a (emost w))"
    using inv(1) unfolding eth_vote_inv_def hasSignedRequest_signers by blast
  ultimately show ?thesis by blast
qed

theorem eth_processed_has_quorum_witness:
  "processedRequests (eth_paid (eth_half eth_open)) 160 \<and>
   (\<exists>c t amount r n. 160 = eth_request_hash sample_keccak c t amount r n \<and>
      isInCommittee sample_keccak c 12 (eth_paid (eth_half eth_open)))"
proof -
  have "hasSignedRequest 12 160 (eth_paid (eth_half eth_open))" by (simp add: hasSignedRequest_signers eth_paid_views)
  with eth_processed_has_quorum [OF eth_paid_reachable sample_oz_law, of 160] show ?thesis
    by (auto simp: eth_paid_views)
qed

text \<open>
  C17.  The nonces of the requests announced on Ethereum are 0, 1, 2 and so on without a gap or a repetition,
  up to the stored nonce, also when tokens call back in the middle of \<^verbatim>\<open>sendRequest\<close>.
\<close>

theorem eth_nonces_consecutive:
  assumes "eth_reachable K Z G w" and "initializer_law Z init"
  shows "eth_sent_nonces (eth_events (emost w)) = [0..<unat (requestNonce (emost w))]"
  using eth_reachable_inv [OF assms] by (simp add: eth_most_inv_def eth_nonce_inv_def)

theorem eth_nonces_consecutive_witness:
  "eth_sent_nonces (eth_events eth_sent) = [0..<unat (requestNonce eth_sent)] \<and> requestNonce eth_sent = 1"
proof -
  have "eth_reachable sample_keccak sample_oz (\<lambda>_ _. True) (in_world eth_sent)"
    unfolding eth_reachable_def using eth_new_deployed eth_sent_evolves(2) by (intro exI [of _ "in_world eth_new"]) simp
  from eth_nonces_consecutive [OF this sample_oz_law] show ?thesis by (simp add: eth_sent_def)
qed

section \<open>The vote ledger\<close>

text \<open>
  C14.  When the contracts it calls leave the bridge alone, a vote that succeeds on Ethereum acts on the
  abstraction of the storage exactly as casting one vote, with the threshold of the committee \<^emph>\<open>named in the
  request\<close>.  The contract on Aleph Zero uses that of the committee in office.
\<close>

theorem eth_vote_refines:
  assumes "eth_reachable K Z G w" and "initializer_law Z init"
    and "receiveRequest K Z X env h c t a r n w = Ok w'" and "h = eth_request_hash K c t a r n"
    and "\<forall>k u data u'. external_call X k u = Some (data, u') \<longrightarrow> emost u' = emost u"
  shows "abs_votes_eth (emost w') =
    cast_vote (unat (signatureThreshold (emost w) c)) h (msg_sender env) (abs_votes_eth (emost w))"
proof -
  let ?s = "msg_sender env" and ?m = "emost w"
  have inv: "eth_vote_inv K ?m" using eth_reachable_inv [OF assms(1,2)] by (simp add: eth_most_inv_def)
  have calm: "abs_votes_eth (emost u') = abs_votes_eth (emost u)" if "drift (\<lambda>_. True) X u u'" for u u'
    using that by (induction rule: drift.induct) (use assms(5) in \<open>auto simp: abs_votes_eth_def quiet_views\<close>)
  show ?thesis
  proof (cases "processedRequests ?m h \<or> hasSignedRequest ?s h ?m")
    case True
    then have "w' = emit_eth (Eth_ProcessedRequestSigned h ?s) w \<or> w' = emit_eth (Eth_RequestAlreadySigned h ?s) w"
      using assms(3,4) by (auto simp: receiveRequest_def result_elims hasSignedRequest_def Let_def split: if_splits)
    with True show ?thesis by (auto simp: abs_votes_eth_def cast_vote_def hasSignedRequest_signers)
  next
    case False
    then have new: "\<not> processedRequests ?m h" "\<not> hasSignedRequest ?s h ?m" by simp_all
    from assms(3) new(1) new(2) [unfolded assms(4)] show ?thesis
    proof (cases rule: receiveRequest_counts)
      case (counted count)
      then show ?thesis using abs_votes_voted [OF inv new counted(3,2)] by simp
    next
      case (executed count v)
      from calm [OF return_locked_drift [OF executed(4)]]
      have "abs_votes_eth (emost w') = abs_votes_eth (settled h (voted h ?s count ?m))"
        by (simp add: executed(5) abs_votes_eth_def)
      then show ?thesis using abs_votes_settled [OF inv new executed(3,2)] by simp
    qed
  qed
qed

theorem eth_vote_refines_witness:
  "abs_votes_eth (eth_paid (eth_half eth_open)) = cast_vote 2 160 12 (abs_votes_eth (eth_half eth_open))"
proof -
  have "receiveRequest sample_keccak sample_oz sample_evm (eth_at 12) 160 0 77 30 99 0 (in_world (eth_half eth_open)) =
      Ok (in_world (eth_paid (eth_half eth_open)))"
    using eth_votes(2) [of eth_open] by (simp add: eth_call_sample_def eth_dispatch_def require_def eth_at_def)
  moreover have "\<forall>k u data u'. external_call sample_evm k u = Some (data, u') \<longrightarrow> emost u' = emost u"
    by (simp add: sample_evm_def)
  ultimately have "abs_votes_eth (emost (in_world (eth_paid (eth_half eth_open)))) =
      cast_vote (unat (signatureThreshold (emost (in_world (eth_half eth_open))) 0)) 160 (msg_sender (eth_at 12))
        (abs_votes_eth (emost (in_world (eth_half eth_open))))"
    by (intro eth_vote_refines [OF eth_half_reachable sample_oz_law, where t = 77 and a = 30 and r = 99 and n = 0]) simp_all
  then show ?thesis by (simp add: eth_half_def eth_open_def eth_new_def eth_at_def)
qed

text \<open>
  C13.  Callbacks add nothing: whatever the called contracts do, every run of the Ethereum contract acts on the
  vote ledger as a sequence of votes cast one after the other.  Each of them counts against the threshold of
  an existing committee and was sent by its voter, provided that no vote uses a collision of member ids.
\<close>

theorem eth_runs_refine_ledger:
  assumes "eth_reachable K Z G w" and "eth_evolves K Z G w w'" and "initializer_law Z init"
    and "\<forall>env msg. G env msg \<longrightarrow> genuine_vote K env msg"
  shows "\<exists>bs. abs_votes_eth (emost w') = count_ballots bs (abs_votes_eth (emost w)) \<and>
    (\<forall>(h, a, q)\<in>set bs. (\<exists>c. c \<le> committeeId (emost w') \<and> q = unat (signatureThreshold (emost w') c)) \<and>
       (\<exists>env c t amount r n. msg_sender env = a \<and> G env (ReceiveRequest_Eth h c t amount r n)))"
proof -
  have "init (oz_state (emost w))" "eth_most_inv K {} (emost w)"
    using eth_reachable_init [OF assms(1,3)] eth_reachable_inv [OF assms(1,3)] by simp_all
  from eth_evolves_ballots(2) [OF assms(2,3) this] assms(4)
  obtain bs where "abs_votes_eth (emost w') = count_ballots bs (abs_votes_eth (emost w))"
    "\<forall>(h, a, q)\<in>set bs. q \<in> quorums_eth (emost w') \<and> may_vote G h a" by blast
  then show ?thesis unfolding quorums_eth_def may_vote_def by (intro exI [of _ bs] conjI) (assumption, fastforce)
qed

theorem eth_runs_refine_ledger_witness:
  "\<exists>bs. abs_votes_eth (eth_paid (eth_half eth_open)) = count_ballots bs (abs_votes_eth eth_new) \<and> 160 \<in> fst ` set bs"
proof -
  let ?G = first_committee
  have genuine: "\<forall>env msg. ?G env msg \<longrightarrow> genuine_vote sample_keccak env msg"
    by (auto simp: first_committee_def genuine_vote_def)
  have start: "eth_reachable sample_keccak sample_oz ?G (in_world eth_new)"
    unfolding eth_reachable_def using eth_new_deployed by (intro exI [of _ "in_world eth_new"]) (simp add: eth_evolves.still)
  have half: "eth_evolves sample_keccak sample_oz ?G (in_world eth_new) (in_world (eth_half eth_open))"
    by (rule sample_eth_step [OF eth_sent_evolves(1) eth_votes(1)]) (simp_all add: first_committee_def)
  have "eth_evolves sample_keccak sample_oz ?G (in_world eth_new) (in_world (eth_paid (eth_half eth_open)))"
    by (rule sample_eth_step [OF half eth_votes(2)]) (simp_all add: first_committee_def)
  from eth_runs_refine_ledger [OF start this sample_oz_law genuine]
  obtain bs where bs: "abs_votes_eth (eth_paid (eth_half eth_open)) = count_ballots bs (abs_votes_eth eth_new)" by auto
  have "160 \<in> fst ` set bs"
  proof (rule ccontr)
    assume absent: "160 \<notin> fst ` set bs"
    from voters_count_ballots [OF absent, of "abs_votes_eth eth_new"] have "eth_signers (eth_paid (eth_half eth_open)) 160 = eth_signers eth_new 160"
      by (simp add: bs [symmetric]) (simp add: abs_votes_eth_def)
    then show False by (simp add: eth_paid_views) (simp add: eth_signers_def hasSignedRequest_def eth_new_def)
  qed
  with bs show ?thesis by blast
qed

section \<open>Sending\<close>

text \<open>
  C15.  A request is announced on Ethereum only after the sender's tokens have been moved into the bridge, or
  the sent ether has been wrapped: the event carries exactly that amount and the partner of the token, and
  takes the committee and the nonce as they are once the call has returned, so that a token that calls back
  cannot make two requests share a nonce.
\<close>

theorem eth_send_locks_and_announces:
  assumes "msg = SendRequest_Eth src amount receiver \<and> src_key = src \<and>
        lock = Safe_Transfer_From (bytes32ToAddress src) (msg_sender env) (this_address env) amount \<or>
      msg = SendRequestNative receiver \<and> src_key = addressToBytes32 (wethAddress (emost w)) \<and> amount = msg_value env \<and>
        lock = Low_Call (wethAddress (emost w)) amount None Call_Deposit"
    and "eth_dispatch K Z X env msg w = Ok w'"
  shows "amount \<noteq> 0 \<and> supportedPairs (emost w) src_key \<noteq> 0 \<and>
    (\<exists>data v. external_call X lock w = Some (data, v) \<and>
       eth_events (emost w') = eth_events (emost v) @
         [Eth_CrosschainTransferRequest (committeeId (emost v)) (supportedPairs (emost w) src_key) amount receiver
            (requestNonce (emost v))] \<and>
       unat (requestNonce (emost w')) = unat (requestNonce (emost v)) + 1)"
  using assms
  by (auto simp: eth_dispatch_def sendRequest_def sendRequestNative_def announce_def result_elims Let_def
      split: option.splits)

theorem eth_send_locks_and_announces_witness:
  "eth_events (emost (in_world eth_sent)) = [Eth_CrosschainTransferRequest 0 7 30 60 0] \<and>
   (\<exists>data v. external_call sample_evm (Safe_Transfer_From 70 50 1000 30) (in_world eth_open) = Some (data, v))"
proof -
  have "bytes32ToAddress 70 = 70" by (simp add: bytes32ToAddress_def)
  moreover have "msg_sender (eth_at 50) = 50" "this_address (eth_at 50) = 1000" by (simp_all add: eth_at_def)
  ultimately show ?thesis
    using eth_send_locks_and_announces [OF _ eth_sends [unfolded eth_call_sample_def], of 70 30 60 70
        "Safe_Transfer_From 70 50 1000 30"] by (auto simp: eth_sent_def eth_open_def)
qed

end
