(* ===== verification/Azero_Progress.thy ===== *)
theory Azero_Progress
  imports Azero_Runs
begin

text \<open>
  The Aleph Zero listener always has something to do until it waits for the next window or returns, and it
  does only finitely many things before that.
\<close>

section \<open>Windows end\<close>

text \<open>
  A step that moves the listener: everything but another wait during an emergency and the writes of the
  other listener to Redis.
\<close>

definition moved :: "('r, 'raw, 'o) azero_state \<Rightarrow> ('r, 'raw, 'o) azero_state \<Rightarrow> bool" where
  "moved st st' \<longleftrightarrow> az_pc st' \<noteq> az_pc st \<or> length (az_running st') < length (az_running st) \<or>
     length (az_tasks st') < length (az_tasks st) \<or> length (az_finished st') < length (az_finished st)"

fun phase :: "('raw, 'o) azero_pc \<Rightarrow> nat" where
  "phase (Adding ns b) = 6"
| "phase (Fetching b) = 5"
| "phase (Spawning rest b) = 4"
| "phase (Handling n started todo rest b) = 4"
| "phase (Joining b) = 3"
| "phase (Draining e) = 2"
| "phase Waiting = 1"
| "phase (Returned res) = 0"

fun blocks_left :: "('raw, 'o) azero_pc \<Rightarrow> nat" where
  "blocks_left (Adding ns b) = length ns"
| "blocks_left (Spawning rest b) = 2 * length rest"
| "blocks_left (Handling n started todo rest b) = 2 * length rest + 1"
| "blocks_left _ = 0"

fun events_left :: "('raw, 'o) azero_pc \<Rightarrow> nat" where
  "events_left (Handling n started todo rest b) = length todo"
| "events_left _ = 0"

definition work_left :: "('r, 'raw, 'o) azero_state \<Rightarrow> nat" where
  "work_left st = length (az_running st) + 2 * length (az_tasks st) + length (az_finished st)"

lemma work_measure:
  assumes "azero_step L E S C N emergency cfg most_azero most_eth st st'" and "moved st st'"
    and "az_pc st \<noteq> Waiting \<or> phase (az_pc st') \<le> 1"
  shows "(st', st) \<in> measures [\<lambda>s. phase (az_pc s), \<lambda>s. blocks_left (az_pc s), \<lambda>s. events_left (az_pc s), work_left]"
  using assms
proof cases
  case (seal before i n events after res pending redis)
  have "length (filter (\<lambda>t. fst t \<noteq> i) (az_running st)) < Suc (length (az_running st))"
    by (simp add: less_Suc_eq_le)
  with seal show ?thesis by (simp add: work_left_def drop_event_tasks_def)
next
  case (join_panic to_block e rs)
  then show ?thesis by (auto simp: returned_def)
next
  case (paused w fin w')
  then show ?thesis using assms(2) by (simp add: moved_def)
next
  case (others n r)
  then show ?thesis using assms(2) by (simp add: moved_def)
qed (auto simp: returned_def work_left_def)

lemma windows_wf:
  "wf {(st', st). azero_step L E S C N emergency cfg most_azero most_eth st st' \<and> moved st st' \<and>
     (az_pc st \<noteq> Waiting \<or> phase (az_pc st') \<le> 1)}"
  by (rule wf_subset [OF wf_measures]) (use work_measure in blast)

section \<open>The listener is never stuck\<close>

lemma fetch_answers: "\<exists>res. fetch_events_in_block_range N from to res \<and> res \<noteq> Panic"
proof -
  define rs where "rs = map (\<lambda>n. fst (fetch_block N n undefined)) (block_range from to)"
  have "list_all2 (\<lambda>n r. \<exists>w w'. fetch_block N n w = (r, w')) (block_range from to) rs"
    unfolding rs_def list_all2_map2 by (rule list_all2_refl) (metis prod.collapse)
  then have "finished_as (block_range from to) (\<lambda>n r. \<exists>w w'. fetch_block N n w = (r, w'))
      (\<lambda>rs. is_ok (join_fetching_tasks rs)) rs"
    unfolding finished_as_def by (intro exI [of _ "block_range from to"]) (simp add: rs_def)
  moreover have "join_fetching_tasks xs \<noteq> Panic" for xs :: "('e, azero_listener_error) result list"
  proof (induction xs rule: join_fetching_tasks.induct)
    case (2 a rs)
    then show ?case by (cases "join_fetching_tasks rs") auto
  qed simp_all
  ultimately show ?thesis unfolding fetch_events_in_block_range_def by blast
qed

text \<open>An event task that runs ends, or a sealing task whose event tasks have ended does.\<close>

lemma tasks_progress:
  assumes "az_running st \<noteq> [] \<or> az_tasks st \<noteq> []"
    and "\<forall>(i, event)\<in>set (az_running st). \<exists>w r w'. azero_handle_event E S cfg event w = Some (r, w')"
  shows "\<exists>st'. azero_step L E S C N emergency cfg most_azero most_eth st st' \<and> moved st st'"
proof (cases "az_running st")
  case (Cons t after)
  obtain i event where t: "t = (i, event)" by (cases t)
  then obtain w r w' where "azero_handle_event E S cfg event w = Some (r, w')" using assms(2) Cons by fastforce
  then show ?thesis
    using azero_step.event_done [of st "[]" i event after E S cfg w r w'] Cons t by (fastforce simp: moved_def)
next
  case Nil
  then obtain i n events after where task: "az_tasks st = [] @ (i, n, events) # after"
    using assms(1) by (cases "az_tasks st") auto
  obtain res pending redis where sealed: "seal_processed_block C cfg n (results_of i st) (az_pending st) (az_redis st) = (res, pending, redis)"
    by (cases "seal_processed_block C cfg n (results_of i st) (az_pending st) (az_redis st)") auto
  have "events_running i st = [] \<or> \<not> is_ok (join_event_tasks (results_of i st))" using Nil by (simp add: events_running_def)
  from azero_step.seal [OF task this sealed] show ?thesis using task by (fastforce simp: moved_def)
qed

lemma azero_progress:
  assumes sem: "semaphore_inv (unat (cfg_azero_max_event_handler_tasks cfg)) st" and max: "cfg_azero_max_event_handler_tasks cfg \<noteq> 0"
    and pc: "az_pc st \<noteq> Waiting" "\<And>res. az_pc st \<noteq> Returned res"
    and handled: "\<forall>(i, event)\<in>set (az_running st). \<exists>w r w'. azero_handle_event E S cfg event w = Some (r, w')"
    and drained: "\<And>e. az_pc st = Draining e \<Longrightarrow> \<exists>w r w'. azero_after_error S most_eth e w = Some (r, w')"
  shows "\<exists>st'. azero_step L E S C N emergency cfg most_azero most_eth st st' \<and> moved st st'"
proof -
  note tasks = tasks_progress [OF _ handled, of L C N emergency most_azero most_eth]
  show ?thesis
  proof (cases "az_pc st")
    case (Adding ns b)
    then show ?thesis
    proof (cases ns)
      case Nil
      then show ?thesis using azero_step.added [of st b] Adding by (fastforce simp: moved_def)
    next
      case (Cons n ns)
      then show ?thesis using azero_step.add [of st n ns b] Adding by (fastforce simp: moved_def)
    qed
  next
    case (Fetching b)
    obtain res where "fetch_events_in_block_range N (az_first st) b res" "res \<noteq> Panic" using fetch_answers by blast
    then show ?thesis
      using azero_step.fetched [OF Fetching] azero_step.fetch_error [OF Fetching] Fetching
      by (cases res) (fastforce simp: moved_def returned_def)+
  next
    case (Spawning rest b)
    then show ?thesis
    proof (cases rest)
      case Nil
      then show ?thesis using azero_step.spawned [of st b] Spawning by (fastforce simp: moved_def)
    next
      case (Cons x rest')
      obtain details events where "x = (details, events)" by (cases x)
      then show ?thesis using azero_step.handle [of st details events rest' b] Cons Spawning by (fastforce simp: moved_def)
    qed
  next
    case (Handling n started todo rest b)
    show ?thesis
    proof (cases todo)
      case Nil
      then show ?thesis using azero_step.spawn [of st n started rest b] Handling by (fastforce simp: moved_def)
    next
      case (Cons event events)
      show ?thesis
      proof (cases "az_permits st")
        case 0
        then have "az_running st \<noteq> []" using sem max pc(2) by (auto simp: semaphore_inv_def unat_eq_zero)
        then show ?thesis using tasks by blast
      next
        case (Suc permits)
        then show ?thesis
          using azero_step.start_event [of st n started event events rest b permits]
            azero_step.too_many [of st n started event events rest b permits] Handling Cons
          by (cases "start_event_task started event")
             (fastforce simp: moved_def returned_def start_event_task_def Let_def split: if_splits)+
      qed
    qed
  next
    case (Joining b)
    show ?thesis
    proof (cases "az_finished st")
      case Nil
      then show ?thesis using azero_step.joined [OF Joining] Joining by (fastforce simp: moved_def)
    next
      case (Cons r rs)
      then show ?thesis
        using azero_step.join_ok [OF Joining] azero_step.join_error [OF Joining] azero_step.join_panic [OF disjI1 [OF Joining]] Joining
        by (cases r) (fastforce simp: moved_def returned_def)+
    qed
  next
    case (Draining e)
    show ?thesis
    proof (cases "az_finished st")
      case Nil
      show ?thesis
      proof (cases "az_tasks st = []")
        case True
        then show ?thesis using azero_step.drained [OF Draining Nil] drained [OF Draining] Draining
          by (fastforce simp: moved_def returned_def)
      next
        case False
        then show ?thesis using tasks by blast
      qed
    next
      case (Cons r rs)
      then show ?thesis
        using azero_step.drain [OF Draining Cons] azero_step.join_panic [OF disjI2 [OF Draining]] Draining
        by (cases "r = Panic") (fastforce simp: moved_def returned_def)+
    qed
  qed (use pc in auto)
qed

text \<open>Without a permit to give, the first event of a block blocks the main loop for good.\<close>

lemma azero_no_permits:
  assumes sem: "semaphore_inv 0 st" and pc: "az_pc st = Handling n started (event # events) rest b"
    and step: "azero_step L E S C N emergency cfg most_azero most_eth st st'"
  shows "az_pc st' = az_pc st"
  using step pc sem by cases (auto simp: semaphore_inv_def drop_event_tasks_def)

end
