(* ===== verification/Emergency_Stop.thy ===== *)
theory Emergency_Stop
  imports Azero_Progress
begin

text \<open>
  What the emergency flag, which the advisory listener raises, does to the two listeners.  Both read it once per
  window, after a finalized block was found: the Ethereum listener then goes back to waiting, and so does the main loop
  of the Aleph Zero listener, whose tasks go on.  A window that was open when the flag was raised is finished.
\<close>

section \<open>The work of a window\<close>

text \<open>The blocks of the window that is open, if one is.\<close>

fun last_open :: "('raw, 'o) azero_pc \<Rightarrow> u32 option" where
  "last_open (Adding ns b) = Some b"
| "last_open (Fetching b) = Some b"
| "last_open (Spawning fetched b) = Some b"
| "last_open (Handling n started todo rest b) = Some b"
| "last_open (Joining b) = Some b"
| "last_open _ = None"

definition open_window :: "('r, 'raw, 'o) azero_state \<Rightarrow> u32 set" where
  "open_window st = (case last_open (az_pc st) of Some b \<Rightarrow> {az_first st..b} | None \<Rightarrow> {})"

text \<open>
  The events for which a task was started, unless it was aborted, and the blocks that have a sealing task or are sealed.
\<close>

definition taken_up :: "('r, 'raw, 'o) azero_state \<Rightarrow> 'o contract_event set" where
  "taken_up st = snd ` set (az_running st) \<union> (fst \<circ> snd) ` set (az_done st)"

definition in_hand :: "('r, 'raw, 'o) azero_state \<Rightarrow> u32 set" where
  "in_hand st = az_sealed st \<union> (fst \<circ> snd) ` set (az_tasks st)"

text \<open>What the main loop has fetched are the events of the blocks of its window.\<close>

definition fetched_ok ::
  "('c, 't, 'o, 'raw, 'w) aleph_lib \<Rightarrow> ('c, 't) most_instance \<Rightarrow> (u32 \<Rightarrow> 'o contract_event list) \<Rightarrow> u32 \<Rightarrow> u32
    \<Rightarrow> (block_details \<times> 'raw list) list \<Rightarrow> bool" where
  "fetched_ok L inst events_of first b fetched \<longleftrightarrow>
     (\<forall>(details, events)\<in>set fetched. block_number details \<in> {first..b} \<and>
        filter_events L inst events details = events_of (block_number details))"

fun window_inv ::
  "('c, 't, 'o, 'raw, 'w) aleph_lib \<Rightarrow> ('c, 't) most_instance \<Rightarrow> (u32 \<Rightarrow> 'o contract_event list) \<Rightarrow> u32
    \<Rightarrow> ('raw, 'o) azero_pc \<Rightarrow> bool" where
  "window_inv L inst events_of first (Spawning fetched b) \<longleftrightarrow> fetched_ok L inst events_of first b fetched"
| "window_inv L inst events_of first (Handling n started todo rest b) \<longleftrightarrow>
     n \<in> {first..b} \<and> set todo \<subseteq> set (events_of n) \<and> fetched_ok L inst events_of first b rest"
| "window_inv L inst events_of first _ \<longleftrightarrow> True"

lemma window_inv_step:
  assumes "azero_step L E S C N flag cfg most_azero most_eth st st'" and "fetch_law L N most_azero events_of"
    and "window_inv L most_azero events_of (az_first st) (az_pc st)"
  shows "window_inv L most_azero events_of (az_first st') (az_pc st')"
  using assms(1,3)
proof cases
  case (fetched to_block block_events)
  have "fetched_ok L most_azero events_of (az_first st) to_block block_events"
    unfolding fetched_ok_def using fetched_blocks [OF fetched(3) assms(2)] by blast
  with fetched show ?thesis by simp
qed (auto simp: returned_def fetched_ok_def)

lemma window_inv_reaches:
  assumes "azero_reaches L E S C N flag cfg most_azero most_eth st0 st" and "fetch_law L N most_azero events_of"
    and "window_inv L most_azero events_of (az_first st0) (az_pc st0)"
  shows "window_inv L most_azero events_of (az_first st) (az_pc st)"
  using assms(1)
proof induction
  case (step st st')
  then show ?case using window_inv_step [OF step(2) assms(2)] by blast
qed (rule assms(3))

section \<open>The Aleph Zero listener during an emergency\<close>

text \<open>In the middle of a window the flag is not looked at.\<close>

theorem flag_read_between_windows:
  assumes "azero_step L E S C N flag cfg most_azero most_eth st st'" and "az_pc st \<noteq> Waiting"
  shows "azero_step L E S C N flag' cfg most_azero most_eth st st'"
  using assms(1)
proof cases
  case (seal before i n events after res pending redis)
  show ?thesis unfolding seal(1) by (rule azero_step.seal [OF seal(2-4)])
qed (use assms(2) in \<open>auto intro: azero_step.intros\<close>)

lemma emergency_waits:
  assumes "azero_step L E S C N flag cfg most_azero most_eth st st'" and "\<forall>w. flag w" and "az_pc st = Waiting"
  shows "az_pc st' = Waiting \<or> (\<exists>res. az_pc st' = Returned res)"
  using assms by cases (auto simp: returned_def)

lemma emergency_step:
  assumes step: "azero_step L E S C N flag cfg most_azero most_eth st st'" and flag: "\<forall>w. flag w"
    and inv: "window_inv L most_azero events_of (az_first st) (az_pc st)"
  shows "open_window st' \<subseteq> open_window st"
    and "taken_up st' \<subseteq> taken_up st \<union> (\<Union>b\<in>open_window st. set (events_of b))"
    and "in_hand st' \<subseteq> in_hand st \<union> open_window st"
proof -
  show "open_window st' \<subseteq> open_window st"
    using step flag by cases (auto simp: open_window_def returned_def split: option.splits)
  show "taken_up st' \<subseteq> taken_up st \<union> (\<Union>b\<in>open_window st. set (events_of b))"
    using step inv by cases (auto simp: taken_up_def open_window_def returned_def drop_event_tasks_def split: option.splits)
  show "in_hand st' \<subseteq> in_hand st \<union> open_window st"
    using step inv by cases (auto simp: in_hand_def open_window_def returned_def)
qed

lemma emergency_reaches:
  assumes run: "azero_reaches L E S C N flag cfg most_azero most_eth st st'" and flag: "\<forall>w. flag w"
    and law: "fetch_law L N most_azero events_of"
    and inv: "window_inv L most_azero events_of (az_first st) (az_pc st)"
  shows "open_window st' \<subseteq> open_window st \<and>
    taken_up st' \<subseteq> taken_up st \<union> (\<Union>b\<in>open_window st. set (events_of b)) \<and>
    in_hand st' \<subseteq> in_hand st \<union> open_window st"
  using run
proof induction
  case refl
  show ?case by blast
next
  case (step u v)
  have "window_inv L most_azero events_of (az_first u) (az_pc u)"
    using window_inv_reaches [OF step(1) law inv] .
  note here = emergency_step [OF step(2) flag this]
  have "(\<Union>b\<in>open_window u. set (events_of b)) \<subseteq> (\<Union>b\<in>open_window st. set (events_of b))"
    using step(3) by (intro UN_mono) simp_all
  moreover have "taken_up u \<subseteq> taken_up st \<union> (\<Union>b\<in>open_window st. set (events_of b))" using step(3) by simp
  ultimately have "taken_up v \<subseteq> taken_up st \<union> (\<Union>b\<in>open_window st. set (events_of b))"
    using here(2) by (meson Un_least Un_upper2 subset_trans)
  moreover have "open_window v \<subseteq> open_window st" "in_hand v \<subseteq> in_hand st \<union> open_window st"
    using here(1,3) step(3) by auto
  ultimately show ?case by simp
qed

text \<open>The listener comes to rest, and at rest nothing is left running.\<close>

lemma emergency_wf:
  assumes "\<forall>w. flag w"
  shows "wf {(st', st). azero_step L E S C N flag cfg most_azero most_eth st st' \<and> moved st st'}"
proof (rule wf_subset [OF windows_wf])
  show "{(st', st). azero_step L E S C N flag cfg most_azero most_eth st st' \<and> moved st st'} \<subseteq>
      {(st', st). azero_step L E S C N flag cfg most_azero most_eth st st' \<and> moved st st' \<and>
        (az_pc st \<noteq> Waiting \<or> phase (az_pc st') \<le> 1)}"
    using emergency_waits [OF _ assms] by fastforce
qed

lemma emergency_rest:
  assumes sem: "semaphore_inv (unat (cfg_azero_max_event_handler_tasks cfg)) st" and "cfg_azero_max_event_handler_tasks cfg \<noteq> 0"
    and handled: "\<forall>(i, event)\<in>set (az_running st). \<exists>w r w'. azero_handle_event E S cfg event w = Some (r, w')"
    and "\<forall>e. az_pc st = Draining e \<longrightarrow> (\<exists>w r w'. azero_after_error S most_eth e w = Some (r, w'))"
    and rest: "\<nexists>st'. azero_step L E S C N flag cfg most_azero most_eth st st' \<and> moved st st'"
  shows "(az_pc st = Waiting \<or> (\<exists>res. az_pc st = Returned res)) \<and> az_running st = [] \<and> az_tasks st = []"
proof (intro conjI)
  show "az_pc st = Waiting \<or> (\<exists>res. az_pc st = Returned res)"
    using azero_progress [OF sem assms(2) _ _ handled] assms(4) rest by blast
  show "az_running st = []" using tasks_progress [OF _ handled] rest by blast
  show "az_tasks st = []" using tasks_progress [OF _ handled] rest by blast
qed

section \<open>The Ethereum listener during an emergency\<close>

text \<open>
  A round changes nothing but the world, by its questions for a finalized block: with any other client library for
  Aleph Zero and any other answer to the query for events, it would do the same.
\<close>

lemma finalized_poll_queries:
  "get_next_finalized_block_number_eth (E\<lparr>query_events := q\<rparr>) first w =
     (get_next_finalized_block_number_eth E first w :: ((u32, 'e) result \<times> 'w) option)"
proof -
  have "ask_finalized_eth (E\<lparr>query_events := q\<rparr>) first = (ask_finalized_eth E first :: 'w \<Rightarrow> (u32, 'e) result option \<times> 'w)"
    by (rule ext) (simp add: ask_finalized_eth_def split: prod.splits result.splits option.splits)
  then show ?thesis by (simp add: get_next_finalized_block_number_eth_def)
qed

lemma emergency_round:
  assumes "eth_round L E C flag cfg address most_azero account s = Some (Ok (), s')" and "\<forall>w. flag w"
  shows "es_first_unprocessed s' = es_first_unprocessed s" and "es_redis s' = es_redis s"
    and "eth_round L' (E\<lparr>query_events := q\<rparr>) C flag cfg address most_azero account s = Some (Ok (), s')"
  using assms by (auto simp: eth_round_def finalized_poll_queries split: option.splits prod.splits result.splits)

lemma emergency_eth_reaches:
  assumes run: "eth_reaches L E C flag cfg address most_azero account s s'" and flag: "\<forall>w. flag w" and law: "redis_law C"
  shows "es_first_unprocessed s' = es_first_unprocessed s \<and>
    redis_get C (redis_key (cfg_name cfg) ETH_LAST_BLOCK_KEY) (es_redis s') =
      redis_get C (redis_key (cfg_name cfg) ETH_LAST_BLOCK_KEY) (es_redis s) \<and>
    eth_reaches L' (E\<lparr>query_events := q\<rparr>) C flag cfg address most_azero account s s'"
  using run
proof induction
  case start
  show ?case by (simp add: eth_reaches.start)
next
  case (round u v)
  then show ?case using emergency_round [OF round(2) flag] eth_reaches.round by fastforce
next
  case (others u n r w)
  have "redis_get C (redis_key (cfg_name cfg) ETH_LAST_BLOCK_KEY) r =
        redis_get C (redis_key (cfg_name cfg) ETH_LAST_BLOCK_KEY) (es_redis u)"
    using other_cursor_kept [OF law others(2)] cursor_keys_differ by metis
  with others show ?case by (simp add: eth_reaches.others)
qed

end
