(* ===== verification/Relayer_Properties.thy ===== *)
theory Relayer_Properties
  imports Sample_Relayer Emergency_Stop
begin

text \<open>
  The properties of the relayer: the cursors of the two listeners never pass a block that was not
  fully handled, the listeners pause, retry and restart as they should, the process supervises them, and
  the remote signer is interchangeable with a local key and answers each client's own commands.  Each property is
  followed by its witness on the sample instances.
\<close>

section \<open>The Aleph Zero listener\<close>

text \<open>
  C19.  Whatever the interleaving of the main loop and its tasks, the block at which the listener
  would resume after a crash or a restart never skips a block of the run: every event of every block
  between the first one and the resumption point was relayed: a task of this run handled it with success, that is,
  its vote was mined on Ethereum, did not revert, and was finalized.
\<close>

theorem azero_restart_skips_nothing:
  assumes "redis_law C" and "azero_finalized_below N B" and "fetch_law L N most_azero events_of"
    and "window_room B (cfg_sync_step cfg)"
    and "1 \<le> unat (azero_first_block C cfg r)" and "unat (azero_first_block C cfg r) \<le> B"
    and "azero_reaches L E S C N flag cfg most_azero most_eth (azero_start C cfg r) st"
    and "redis_get C (redis_key (cfg_name cfg) ALEPH_LAST_BLOCK_KEY) (az_redis st) = Ok cursor"
    and "azero_first_block C cfg r \<le> b" and "b < azero_first_block C cfg (az_redis st)"
  shows "list_all (relayed E S cfg st) (events_of b)"
proof -
  have "azero_lawful_run L E S C N flag cfg most_azero most_eth events_of B (azero_start C cfg r) st"
    unfolding azero_lawful_run_def using assms(1-7) by blast
  from azero_cursor.resume_skips_nothing [OF this] assms(8-10) show ?thesis
    by (simp add: azero_cursor.resume_def azero_first_block_def azero_start_def Let_def)
qed

theorem azero_restart_skips_nothing_witness:
  "azero_first_block sample_store sample_config sample_cursor = 2 \<and>
   list_all (relayed sample_eth sample_signed sample_config sample_sealed_state) [sample_event]"
proof -
  have first: "azero_first_block sample_store sample_config sample_cursor = 2"
    by (simp add: azero_first_block_def read_first_unprocessed_block_number_def sample_store_def sample_cursor_def)
  have "list_all (relayed sample_eth sample_signed sample_config sample_sealed_state) (sample_events_of 1)"
    by (rule azero_restart_skips_nothing [OF sample_store_law sample_node_below sample_fetch_law sample_room
          _ _ sample_sealed, where cursor = 1])
       (simp_all add: sample_first_block first sample_sealed_state_def sample_azero_state_def,
        simp add: sample_store_def sample_cursor_def)
  with first show ?thesis by (simp add: sample_events_of_def)
qed

text \<open>
  C33.  A sealing task never hits the \<^verbatim>\<open>expect("There always is a pending block in the set")\<close>, and the
  number it writes never underflows: in every reachable state, for every running sealing task, the
  pending set without its block is not empty, its least element is not 0, and the task does not panic
  unless the store does.
\<close>

theorem sealing_finds_pending:
  assumes "redis_law C" and "azero_finalized_below N B" and "fetch_law L N most_azero events_of"
    and "window_room B (cfg_sync_step cfg)"
    and "1 \<le> unat (azero_first_block C cfg r)" and "unat (azero_first_block C cfg r) \<le> B"
    and "azero_reaches L E S C N flag cfg most_azero most_eth (azero_start C cfg r) st"
    and "(i, n, events) \<in> set (az_tasks st)" and "\<forall>key v s. redis_set C key v s \<noteq> Panic"
  shows "az_pending st - {n} \<noteq> {} \<and> Min (az_pending st - {n}) \<noteq> 0 \<and>
    fst (seal_processed_block C cfg n results (az_pending st) (az_redis st)) \<noteq> Panic"
proof -
  obtain front where "front_inv B (azero_first_block C cfg r) events_of L most_azero front st"
    using azero_reaches_inv [OF assms(7) assms(1-6)] by (auto simp: azero_inv_def)
  note found = sealable [OF this assms(5,8)]
  moreover have "join_event_tasks results \<noteq> Panic"
    by (induction results rule: join_event_tasks.induct) auto
  ultimately have "fst (seal_processed_block C cfg n results (az_pending st) (az_redis st)) \<noteq> Panic"
    using assms(9) by (auto simp: seal_processed_block_def Let_def write_last_processed_block_def split: result.splits)
  with found show ?thesis by auto
qed

lemma sample_store_total: "redis_set sample_store key v s \<noteq> Panic"
  by (simp add: sample_store_def)

theorem sealing_finds_pending_witness:
  "fst (seal_processed_block sample_store sample_config 1 [Ok ()] {1, 2} Map.empty) \<noteq> Panic"
proof -
  have "{1, 2 :: u32} - {1} \<noteq> {} \<and> Min ({1, 2 :: u32} - {1}) \<noteq> 0 \<and>
      fst (seal_processed_block sample_store sample_config 1 [Ok ()] {1, 2} Map.empty) \<noteq> Panic"
    using sealing_finds_pending [OF sample_store_law sample_node_below sample_fetch_law sample_room
        _ _ sample_spawned, of 0 1 "[sample_event]" "[Ok ()]"]
    by (simp add: sample_first_block sample_spawned_state_def sample_azero_state_def sample_store_total)
  then show ?thesis by blast
qed

text \<open>
  The semaphore and the limit per block hold on every interleaving: never more event tasks run
  than \<^verbatim>\<open>azero_max_event_handler_tasks\<close>, permits and running tasks always add up to it until the listener
  returns, so that no permit is lost or made up, and no block has fifty event tasks.
\<close>

theorem event_tasks_bounded:
  assumes "azero_reaches L E S C N flag cfg most_azero most_eth (azero_start C cfg r) st"
  shows "length (az_running st) \<le> unat (cfg_azero_max_event_handler_tasks cfg) \<and>
    ((\<nexists>res. az_pc st = Returned res) \<longrightarrow>
       az_permits st + length (az_running st) = unat (cfg_azero_max_event_handler_tasks cfg)) \<and>
    (\<forall>(i, n, events)\<in>set (az_tasks st). length events < ALEPH_MAX_REQUESTS_PER_BLOCK)"
  using azero_reaches_semaphore [OF assms] by (simp add: semaphore_inv_def batch_inv_def)

theorem event_tasks_bounded_witness:
  "length (az_running sample_spawned_state) \<le> 1000 \<and>
   az_permits sample_spawned_state + length (az_running sample_spawned_state) = 1000"
  using event_tasks_bounded [OF sample_spawned] by (simp add: sample_spawned_state_def sample_azero_state_def)

text \<open>
  C23.  Refinement of the listener to a counter: as long as no sealing task has failed, the cursor that
  is in Redis after the first sealed block is exactly the end of the sealed prefix of the run (every
  block up to it is sealed, the next one is not), whatever the order in which blocks were sealed; and
  whenever the listener is back at its waiting point with no task left, the cursor is the block before
  the next window.
\<close>

theorem cursor_is_sealed_prefix:
  assumes "redis_law C" and "azero_finalized_below N B" and "fetch_law L N most_azero events_of"
    and "window_room B (cfg_sync_step cfg)"
    and "1 \<le> unat (azero_first_block C cfg r)" and "unat (azero_first_block C cfg r) \<le> B"
    and "azero_reaches L E S C N flag cfg most_azero most_eth (azero_start C cfg r) st"
    and "calm st" and "az_sealed st \<noteq> {}"
    and "redis_get C (redis_key (cfg_name cfg) ALEPH_LAST_BLOCK_KEY) (az_redis st) = Ok cursor"
  shows "{azero_first_block C cfg r..cursor} \<subseteq> az_sealed st \<and> cursor + 1 \<notin> az_sealed st \<and>
    (az_pc st = Waiting \<and> az_tasks st = [] \<longrightarrow> cursor + 1 = az_first st)"
  using cursor_exact [OF azero_reaches_inv [OF assms(7) assms(1-6)] assms(5,8-10)] by blast

theorem cursor_is_sealed_prefix_witness:
  "calm sample_sealed_state \<and> {1..1} \<subseteq> az_sealed sample_sealed_state \<and> 1 + 1 \<notin> az_sealed sample_sealed_state"
proof -
  have calm: "calm sample_sealed_state" by (simp add: calm_def sample_sealed_state_def sample_azero_state_def)
  have "{azero_first_block sample_store sample_config Map.empty..1} \<subseteq> az_sealed sample_sealed_state \<and>
      1 + 1 \<notin> az_sealed sample_sealed_state \<and>
      (az_pc sample_sealed_state = Waiting \<and> az_tasks sample_sealed_state = [] \<longrightarrow> 1 + 1 = az_first sample_sealed_state)"
    by (rule cursor_is_sealed_prefix [OF sample_store_law sample_node_below sample_fetch_law sample_room
          _ _ sample_sealed calm])
       (simp_all add: sample_first_block sample_sealed_state_def sample_azero_state_def,
        simp add: sample_store_def sample_cursor_def)
  with calm show ?thesis by (simp add: sample_first_block)
qed

section \<open>The Ethereum listener\<close>

text \<open>
  C20.  The cursor of the Ethereum listener never passes a block with an unhandled request: for every
  state its rounds reach, every request logged in a block between the first block of the run and the block at which
  it would resume was among the events of a round of this run, in which its vote was cast on Aleph Zero.
\<close>

theorem eth_restart_skips_nothing:
  assumes "redis_law C" and "query_law E address logs" and "finalized_below E B" and "window_room B (cfg_sync_step cfg)"
    and "1 \<le> unat (es_first_unprocessed st0)" and "unat (es_first_unprocessed st0) \<le> B"
    and "es_first_unprocessed st0 = read_first_unprocessed_block_number C (cfg_name cfg) ETH_LAST_BLOCK_KEY dflt (es_redis st0)"
    and "eth_reaches L E C flag cfg address most_azero account st0 st"
    and "redis_get C (redis_key (cfg_name cfg) ETH_LAST_BLOCK_KEY) (es_redis st) = Ok cursor"
    and "es_first_unprocessed st0 \<le> b"
    and "b < read_first_unprocessed_block_number C (cfg_name cfg) ETH_LAST_BLOCK_KEY dflt (es_redis st)"
  shows "list_all (voted_in_run L E C flag cfg address most_azero account st0 st) (logs b)"
proof -
  have "eth_lawful_run L E C flag cfg address most_azero account logs B dflt st0 st"
    unfolding eth_lawful_run_def using assms(1-8) by blast
  from eth_cursor.resume_skips_nothing [OF this assms(9)] assms(7,10,11) show ?thesis
    by (simp add: eth_cursor.resume_def)
qed

definition sample_eth_start :: "(store, nat) eth_state" where
  "sample_eth_start = \<lparr>es_first_unprocessed = 1, es_redis = Map.empty, es_world = 0\<rparr>"

definition sample_eth_next :: "(store, nat) eth_state" where
  "sample_eth_next = \<lparr>es_first_unprocessed = 2, es_redis = [redis_key ''relayer'' ETH_LAST_BLOCK_KEY \<mapsto> 1], es_world = 1\<rparr>"

lemma sample_vote: "eth_handle_event sample_aleph sample_eth sample_config sample_eth_request w = (Ok (), Suc w)"
  by (simp add: eth_handle_event_def sample_eth_request_def sample_eth_def sample_aleph_def most_instance_new_def
      send_receive_request_def Let_def)

lemma sample_eth_round:
  "eth_round sample_aleph sample_eth sample_store (\<lambda>_. False) sample_config 9 sample_instance 11 sample_eth_start =
     Some (Ok (), sample_eth_next)"
proof -
  have "eth_retry_event sample_aleph sample_eth sample_config sample_instance 11 sample_eth_request 0 = Some (Ok (), 1)"
    by (subst eth_retry_event.simps) (simp add: sample_vote)
  moreover have "query_events sample_eth 9 1 1 0 = (Ok [sample_eth_request], 0)"
    by (simp add: sample_eth_def sample_range sample_logs_def)
  ultimately show ?thesis
    using sample_window
    by (simp add: eth_round_def sample_eth_start_def sample_eth_next_def sample_next_eth Let_def
        write_last_processed_block_def sample_store_def)
qed

theorem eth_restart_skips_nothing_witness:
  "list_all (voted_in_run sample_aleph sample_eth sample_store (\<lambda>_. False) sample_config 9 sample_instance 11
     sample_eth_start sample_eth_next) [sample_eth_request]"
proof -
  have reach: "eth_reaches sample_aleph sample_eth sample_store (\<lambda>_. False) sample_config 9 sample_instance 11
      sample_eth_start sample_eth_next"
    using eth_reaches.round [OF eth_reaches.start sample_eth_round] .
  have "list_all (voted_in_run sample_aleph sample_eth sample_store (\<lambda>_. False) sample_config 9 sample_instance 11
      sample_eth_start sample_eth_next) (sample_logs 1)"
    by (rule eth_restart_skips_nothing [OF sample_store_law sample_query_law sample_eth_below sample_room _ _ _ reach,
          where cursor = 1 and dflt = 1])
       (simp_all add: sample_eth_start_def sample_eth_next_def read_first_unprocessed_block_number_def sample_store_def)
  then show ?thesis by (simp add: sample_logs_def)
qed

text \<open>
  C34.  A request whose amount does not fit 128 bits stops the listener: handling it panics, whatever
  the state, and no list of events that contains it is ever handled to the end, so that the cursor
  stays below its block.
\<close>

theorem oversized_request_stops_listener:
  assumes "narrowing_law E" and "unat (ev_committee_id event) < 2 ^ 128" and "2 ^ 128 \<le> unat (ev_amount event)"
    and "event \<noteq> Other_Event" and "event \<in> set events"
  shows "eth_handle_event L E cfg event w = (Panic, w) \<and>
    eth_handle_events L E cfg most_azero account events w1 \<noteq> Some (Ok (), w2)"
proof -
  have panic: "eth_handle_event L E cfg event v = (Panic, v)" for v
    using assms(1-4) by (cases event) (simp_all add: eth_handle_event_def narrowing_law_def not_less [symmetric])
  then have "\<not> vote_cast L E cfg event" by (simp add: vote_cast_def)
  with assms(5) have "\<not> list_all (vote_cast L E cfg) events" by (auto simp: list_all_iff)
  with panic show ?thesis by (auto dest: eth_handle_events_Ok)
qed

definition huge_request :: eth_most_event where
  "huge_request = CrosschainTransferRequestFilter 0 1 (2 ^ 128) 2 0"

theorem oversized_request_stops_listener_witness:
  "eth_handle_event sample_aleph sample_eth sample_config huge_request 0 = (Panic, 0)"
  by (rule oversized_request_stops_listener [where events = "[huge_request]", OF sample_narrowing, THEN conjunct1])
     (simp_all add: huge_request_def)

text \<open>
  Waiting for a finalized block ends as soon as the node reports one that is recent enough:
  if some question is answered by a block number not older than the one asked for, the loop returns,
  and whenever it returns a number, that number is not older.
\<close>

theorem finalized_poll_returns:
  assumes "get_block_finalized E (asked (ask_finalized_eth E m :: 'w \<Rightarrow> (u32, 'e) result option \<times> 'w) k w) =
      (Ok (Some (Some x)), w')"
    and "as_u32 E x = Some n" and "m \<le> n"
    and "\<And>v y v'. get_block_finalized E v = (Ok (Some y), v') \<Longrightarrow> \<exists>z b. y = Some z \<and> as_u32 E z = Some b"
    and "\<And>v v'. get_block_finalized E v \<noteq> (Panic, v')"
  shows "\<exists>b v. get_next_finalized_block_number_eth E m w = Some (Ok b :: (u32, 'e) result, v) \<and> m \<le> b"
proof -
  let ?ask = "ask_finalized_eth E m :: 'w \<Rightarrow> (u32, 'e) result option \<times> 'w"
  have shape: "a = None \<or> (\<exists>b. a = Some (Ok b) \<and> m \<le> b)" if "?ask v = (a, v')" for v a v'
    using that assms(4) [of v] assms(5) [of v]
    by (auto simp: ask_finalized_eth_def split: prod.splits result.splits option.splits if_splits)
  have "fst (?ask (asked ?ask k w)) \<noteq> None"
    using assms(1-3) by (simp add: ask_finalized_eth_def)
  then obtain j where "fst (?ask (asked ?ask j w)) \<noteq> None" and "\<forall>i<j. fst (?ask (asked ?ask i w)) = None"
    using exists_least_iff [of "\<lambda>i. fst (?ask (asked ?ask i w)) \<noteq> None"] by blast
  moreover from this(1) obtain b v where "?ask (asked ?ask j w) = (Some (Ok b), v)" "m \<le> b"
    using shape by (metis prod.collapse)
  ultimately have "answered_after ?ask j w (Ok b) v" by (simp add: answered_after_def)
  then have "get_next_finalized_block_number_eth E m w = Some (Ok b :: (u32, 'e) result, v)"
    unfolding get_next_finalized_block_number_eth_def by (rule poll_answered)
  with \<open>m \<le> b\<close> show ?thesis by blast
qed

theorem finalized_poll_returns_witness:
  "\<exists>b v. get_next_finalized_block_number_eth sample_eth 1 0 = Some (Ok b :: (u32, unit) result, v) \<and> 1 \<le> b"
  by (rule finalized_poll_returns [where k = 0 and x = 1 and n = 1 and w' = 0])
     (auto simp: sample_eth_def)

section \<open>Advisories, supervision and start-up\<close>

text \<open>
  A round of the advisory listener stores exactly what the contracts report: it lifts the flag
  only if every contract answered and none reports an emergency, and it raises it only on a report
  that no failed query precedes.
\<close>

theorem advisory_flag_exact:
  assumes "advisory_round L g contracts previous w = (Ok flag, w')"
  shows "(\<not> flag \<longleftrightarrow> list_all reports_calm (fst (ask_advisories L contracts w))) \<and>
    (flag \<longrightarrow> (\<exists>calm answer rest. fst (ask_advisories L contracts w) = calm @ answer # rest \<and>
       list_all reports_calm calm \<and> reports_emergency answer))"
proof -
  obtain answers v where ask: "ask_advisories L contracts w = (answers, v)" by fastforce
  then have scan: "scan_answers g previous answers v = (Ok flag, w')"
    using assms by (simp add: advisory_round_def)
  show ?thesis
  proof (cases flag)
    case True
    with scan obtain calm answer rest where split: "answers = calm @ answer # rest" "list_all reports_calm calm"
      "reports_emergency answer" using scan_raised by metis
    then have "\<not> list_all reports_calm answers" by (auto simp: reports_calm_def reports_emergency_def)
    moreover have "\<exists>calm answer rest. answers = calm @ answer # rest \<and> list_all reports_calm calm \<and> reports_emergency answer"
      using split by blast
    ultimately show ?thesis unfolding ask fst_conv using True by blast
  next
    case False
    with scan have "scan_answers g previous answers v = (Ok False, w')" by simp
    then have "list_all reports_calm answers" unfolding scan_lifted by blast
    with ask False show ?thesis by simp
  qed
qed

definition sample_advisory :: "unit advisory_instance" where
  "sample_advisory = \<lparr>ai_contract = (), ai_address = 21\<rparr>"

theorem advisory_flag_exact_witness:
  "\<not> list_all reports_calm (fst (ask_advisories sample_aleph [sample_advisory] 0))"
proof -
  have "advisory_round sample_aleph (\<lambda>w. (Ok None, w)) [sample_advisory] False 0 = (Ok True, 0)"
    by (simp add: advisory_round_def advisory_read_emergency_def sample_aleph_def)
  from advisory_flag_exact [OF this] show ?thesis by simp
qed

text \<open>
  C36.  An emergency stops both listeners, once the window that is open has been worked off.  From whatever state
  of the run in which the flag is raised, and for as long as it stays raised: the Aleph Zero listener starts a
  task, and so sends a vote, for no event but those of the window that is open, of which there is none while
  it waits for a block, and no other block is handed to a sealing task or sealed; its activity comes to an end, and when
  nothing of it can move any more the main loop waits or has returned and no task is left (if event handlers end,
  and the limit of event tasks is not zero).  The Ethereum listener, between two rounds, keeps its block and its cursor,
  asks for no events and makes no call to Aleph Zero: it would run the same with any other client library and any
  other answer to its query.
\<close>

theorem emergency_brings_to_rest:
  fixes L :: "('c, 't, 'o, 'raw, 'w) aleph_lib"
  assumes "\<forall>w. flag w" and "redis_law C" and "fetch_law L N most_azero events_of"
    and "azero_reaches L E S C N earlier cfg most_azero most_eth (azero_start C cfg r) st"
    and "azero_reaches L E S C N flag cfg most_azero most_eth st st'"
    and "eth_reaches L E C flag cfg address most_azero account s s'"
  shows "taken_up st' \<subseteq> taken_up st \<union> (\<Union>b\<in>open_window st. set (events_of b)) \<and>
    in_hand st' \<subseteq> in_hand st \<union> open_window st \<and>
    (\<nexists>run. run 0 = st' \<and> (\<forall>i. azero_step L E S C N flag cfg most_azero most_eth (run i) (run (Suc i)) \<and>
       moved (run i) (run (Suc i)))) \<and>
    ((\<nexists>u. azero_step L E S C N flag cfg most_azero most_eth st' u \<and> moved st' u) \<and>
       cfg_azero_max_event_handler_tasks cfg \<noteq> 0 \<and>
       (\<forall>(i, event)\<in>set (az_running st'). \<exists>w v w'. azero_handle_event E S cfg event w = Some (v, w')) \<and>
       (\<forall>e. az_pc st' = Draining e \<longrightarrow> (\<exists>w v w'. azero_after_error S most_eth e w = Some (v, w'))) \<longrightarrow>
       (az_pc st' = Waiting \<or> (\<exists>res. az_pc st' = Returned res)) \<and> az_running st' = [] \<and> az_tasks st' = []) \<and>
    es_first_unprocessed s' = es_first_unprocessed s \<and>
    redis_get C (redis_key (cfg_name cfg) ETH_LAST_BLOCK_KEY) (es_redis s') =
      redis_get C (redis_key (cfg_name cfg) ETH_LAST_BLOCK_KEY) (es_redis s) \<and>
    (\<forall>(L' :: ('c, 't, 'o, 'raw, 'w) aleph_lib) q. eth_reaches L' (E\<lparr>query_events := q\<rparr>) C flag cfg address most_azero account s s')"
proof -
  have "window_inv L most_azero events_of (az_first st) (az_pc st)"
    using window_inv_reaches [OF assms(4,3)] by (simp add: azero_start_def Let_def)
  note azero = emergency_reaches [OF assms(5,1,3) this]
  have "semaphore_inv (unat (cfg_azero_max_event_handler_tasks cfg)) st" using azero_reaches_semaphore [OF assms(4)] by blast
  with assms(5) have sem: "semaphore_inv (unat (cfg_azero_max_event_handler_tasks cfg)) st'"
    by (induction rule: azero_reaches.induct) (auto intro: semaphore_step)
  show ?thesis
  proof (intro conjI)
    show "taken_up st' \<subseteq> taken_up st \<union> (\<Union>b\<in>open_window st. set (events_of b))"
      "in_hand st' \<subseteq> in_hand st \<union> open_window st" using azero by simp_all
    show "\<nexists>run. run 0 = st' \<and> (\<forall>i. azero_step L E S C N flag cfg most_azero most_eth (run i) (run (Suc i)) \<and>
        moved (run i) (run (Suc i)))"
      using emergency_wf [OF assms(1), of L E S C N cfg most_azero most_eth]
      unfolding wf_iff_no_infinite_down_chain by auto
  qed (use emergency_rest [OF sem, of E S most_eth L C N flag most_azero]
      emergency_eth_reaches [OF assms(6,1,2)] in blast)+
qed

theorem emergency_brings_to_rest_witness:
  "taken_up sample_sealed_state \<subseteq> taken_up sample_spawned_state \<union> set (sample_events_of 1) \<and>
   in_hand sample_sealed_state \<subseteq> in_hand sample_spawned_state \<union> {1} \<and>
   eth_reaches (sample_aleph\<lparr>contract_call := (\<lambda>_ _ _ _ _ w. (Panic, w))\<rparr>)
     (sample_eth\<lparr>query_events := (\<lambda>_ _ _ w. (Panic, w))\<rparr>) sample_store (\<lambda>_. True) sample_config 9 sample_instance 11
     sample_eth_start sample_eth_start"
proof -
  have "eth_round sample_aleph sample_eth sample_store (\<lambda>_. True) sample_config 9 sample_instance 11 sample_eth_start =
      Some (Ok (), sample_eth_start)"
    by (simp add: eth_round_def sample_next_eth sample_eth_start_def)
  note round = eth_reaches.round [OF eth_reaches.start this]
  let ?step = "azero_step sample_aleph sample_eth sample_signed sample_store sample_node (\<lambda>_. True) sample_config sample_instance 9"
  have "?step sample_spawned_state sample_done_state" "?step sample_done_state sample_sealed_state"
    by (rule flag_read_between_windows [OF sample_sealing(1)] flag_read_between_windows [OF sample_sealing(2)];
        simp add: sample_done_state_def sample_spawned_state_def sample_azero_state_def)+
  then have "azero_reaches sample_aleph sample_eth sample_signed sample_store sample_node (\<lambda>_. True) sample_config
      sample_instance 9 sample_spawned_state sample_sealed_state"
    by (meson azero_reaches.intros)
  moreover have "open_window sample_spawned_state = {1}"
    by (simp add: open_window_def sample_spawned_state_def sample_azero_state_def)
  ultimately show ?thesis
    using emergency_brings_to_rest [OF _ sample_store_law sample_fetch_law sample_spawned _ round, of sample_sealed_state]
    by simp
qed

text \<open>
  C37.  The supervisor keeps every listener running: whatever the order in which its tasks end, the process
  goes on exactly as long as only the Aleph Zero listener has ended, each time asking for a restart after a
  halt; any other end of any task, a panic included, makes the process exit with code -1.
\<close>

theorem listeners_supervised:
  fixes K :: "('tx, 'asig, 'esig) codec"
  assumes "relayer_setup C Y M W init connect F K cfg r = Ok set_up"
    and "\<forall>(l, res)\<in>set ends. l \<in> set (initial_listeners cfg) \<and> task_result l res"
  shows "relayer_main C Y M W init connect F K cfg r ends =
    Ok (if set ends \<subseteq> {(Azero_Task, Err (Listener_Azero Az_BridgeHaltedRestartRequired))} then None else Some (- 1))"
proof -
  have "tasks \<noteq> []" if "mset tasks = mset (initial_listeners cfg)" for tasks
    using that by (auto simp: initial_listeners_def)
  moreover note run_listeners_exact [OF assms(2), where 'tx = 'tx and 'asig = 'asig and 'esig = 'esig]
  ultimately show ?thesis using assms(1) unfolding relayer_main_def by (auto split: if_splits)
qed

theorem listeners_supervised_witness:
  "sample_main [(Azero_Task, Err (Listener_Azero Az_BridgeHaltedRestartRequired))] = Ok None \<and>
   sample_main [(Azero_Task, Err (Listener_Azero Az_BridgeHaltedRestartRequired)), (Eth_Task, Panic)] = Ok (Some (- 1))"
proof -
  have cfg: "cfg_signer_cid sample_config = None" "cfg_dev sample_config" by (simp_all add: sample_config_def)
  have "is_ok (relayer_setup sample_store sample_key_lib sample_middleware sample_wallets (\<lambda>url. ()) (\<lambda>cid port. Err ''refused'')
      server_side sample_codec sample_config Map.empty)"
    by (simp add: relayer_setup_def override_caches_def override_cache_def write_last_processed_block_def sample_store_def
        azero_signed_connection_def eth_signed_connection_def eth_wallet_def with_local_wallet_def with_nonce_manager_def
        sample_key_lib_def sample_middleware_def cfg)
  then obtain x where "relayer_setup sample_store sample_key_lib sample_middleware sample_wallets (\<lambda>url. ()) (\<lambda>cid port. Err ''refused'')
      server_side sample_codec sample_config Map.empty = Ok x" by (auto simp: is_ok_iff)
  note supervised = listeners_supervised [OF this]
  show ?thesis
    using supervised [of "[(Azero_Task, Err (Listener_Azero Az_BridgeHaltedRestartRequired))]"]
      supervised [of "[(Azero_Task, Err (Listener_Azero Az_BridgeHaltedRestartRequired)), (Eth_Task, Panic)]"]
    by (simp add: sample_main_def initial_listeners_def)
qed

text \<open>
  The starting block of the configuration: every decimal numeral below \<open>2 ^ 32\<close> is accepted and
  stands for its value, 0 excepted, which becomes 1; and no string at all is parsed to block 0, so that
  the block before the starting block always exists.
\<close>

theorem sync_from_str_decimal:
  assumes "n < 2 ^ 32"
  shows "sync_from_str (decimal n) = Ok (SyncFromBlock (of_nat (max 1 n))) \<and>
    (\<forall>s b. sync_from_str s = Ok b \<longrightarrow> 1 \<le> sync_deref b)"
proof -
  have "max 1 (of_nat n :: u32) = of_nat (max 1 n)"
    using assms by (simp add: max_def word_le_nat_alt unat_of_nat_small)
  then show ?thesis
    using parse_u32_decimal [OF assms] sync_from_str_positive by (simp add: sync_from_str_def)
qed

theorem sync_from_str_decimal_witness: "sync_from_str ''100'' = Ok (SyncFromBlock 100)"
proof -
  have "decimal 100 = ''100''" by (simp add: decimal.simps char_of_def bit_0)
  with sync_from_str_decimal [of 100] show ?thesis by (simp add: max_def)
qed

section \<open>The remote signer\<close>

text \<open>
  C38.  Sending a transaction through the remote signer is sending it with the key: against a server
  that holds the same key, the remote connection submits the same extrinsic, under the same account
  and with the same signature, and returns what the local one returns.
\<close>

theorem remote_transaction_as_local:
  assumes "codec_law K strip" and "kp_sign P keypair = azero_sign keys" and "kp_account_id P keypair = azero_public keys"
    and "send_tx_with_params X P (client_side K keys) K show_error tx params st (Dev_Signer keypair) w = (res, s', w')"
  shows "send_tx_with_params X P (client_side K keys) K show_error tx params st (Remote_Signer ([], []) (azero_public keys)) w =
    (res, Remote_Signer ([], []) (azero_public keys), w')"
proof -
  have sign: "sign_azero (client_side K keys) K payload ([], []) = (Ok (azero_sign keys payload), ([], []))" for payload
  proof -
    have "serve_command K keys (strip_command strip (SignAzero payload)) = Ok (SignedAzero payload (azero_sign keys payload))"
      by (simp add: serve_command_def)
    from request_served [OF assms(1) this] show ?thesis by (simp add: sign_azero_Ok)
  qed
  show ?thesis
    using assms(2-4) by (auto simp: send_tx_with_params_def sign split: prod.splits result.splits tx_status.splits)
qed

definition sample_tx_client :: "(nat, unit, u8 list, bytes32, account_id \<times> bytes32, account_id \<times> bytes32, nat) tx_client" where
  "sample_tx_client = \<lparr>create_partial_signed = (\<lambda>c a p w. (Ok (replicate c 0), w)), signer_payload = (\<lambda>p. p),
     sign_with_address_and_signature = (\<lambda>p a s. (a, s)), submit_and_watch = (\<lambda>s w. (Ok s, Suc w)),
     wait_for_in_block_success = (\<lambda>p w. (Ok \<lparr>tx_block_hash = fst p, tx_tx_hash = snd p\<rparr>, w)),
     wait_for_finalized_success = (\<lambda>p w. (Ok \<lparr>tx_block_hash = fst p, tx_tx_hash = snd p\<rparr>, w)),
     extrinsic_hash = snd, default_params = ()\<rparr>"

definition sample_keypairs :: "(unit, bytes32) keypair_lib" where
  "sample_keypairs = \<lparr>kp_account_id = (\<lambda>_. 11), kp_sign = (\<lambda>_ p. of_nat (length p))\<rparr>"

theorem remote_transaction_as_local_witness:
  "send_tx_with_params sample_tx_client sample_keypairs (client_side sample_codec sample_keys) sample_codec (\<lambda>_. []) 3 ()
     Finalized (Remote_Signer ([], []) 11) 0 =
   (Ok \<lparr>tx_block_hash = 11, tx_tx_hash = 3\<rparr>, Remote_Signer ([], []) 11, 1)"
proof -
  have dev: "send_tx_with_params sample_tx_client sample_keypairs (client_side sample_codec sample_keys) sample_codec (\<lambda>_. []) 3 ()
     Finalized (Dev_Signer ()) 0 = (Ok \<lparr>tx_block_hash = 11, tx_tx_hash = 3\<rparr>, Dev_Signer (), 1)"
    by (simp add: send_tx_with_params_def sample_tx_client_def sample_keypairs_def)
  have "azero_public sample_keys = 11" by (simp add: sample_keys_def)
  with remote_transaction_as_local [OF sample_codec_law _ _ dev] show ?thesis
    by (simp add: sample_keypairs_def sample_keys_def)
qed

text \<open>
  Signing a message through the remote Ethereum signer gives the signature the wallet held by
  the server gives locally.
\<close>

theorem remote_message_as_local:
  assumes "codec_law K strip" and "same_wallet W wallet keys" and "vs_client v = ([], [])"
    and "eth_sign_message W (client_side K keys) K message (Local wallet) = (Ok signature, s')"
  shows "eth_sign_message W (client_side K keys) K message (Vsock v :: ('wallet, duplex) ethereum_signer) = (Ok signature, Vsock v)"
proof -
  have "eth_sign_hash keys (hash_message W message) = Ok signature"
    using assms(2,4) by (cases "wallet_sign_hash W wallet (hash_message W message)") (auto simp: same_wallet_def)
  from remote_sign_hash [OF assms(1) this] assms(3) show ?thesis
    by (simp add: via_vsock_def vsock_sign_message_def vsock_sign_hash_def)
qed

definition sample_vsock :: "duplex eth_vsock_signer" where
  "sample_vsock = \<lparr>vs_client = ([], []), vs_chain_id = 1, vs_address = 12\<rparr>"

theorem remote_message_as_local_witness:
  "eth_sign_message sample_wallets (client_side sample_codec sample_keys) sample_codec [1, 2] (Vsock sample_vsock) =
     (Ok 3, Vsock sample_vsock)"
proof -
  have "same_wallet sample_wallets () sample_keys"
    by (auto simp: same_wallet_def sample_wallets_def sample_keys_def)
  then show ?thesis
    by (rule remote_message_as_local [OF sample_codec_law _, where s' = "Local ()"])
       (simp_all add: sample_vsock_def sample_wallets_def)
qed

text \<open>
  C39.  Every client of the signer gets the answers to its own commands, from the keys of the server: in every
  interleaving of the accept loop, the tasks of all clients and the clients themselves, over one network and with
  a task switch possible between reading a command and answering it, the answers sent on a connection belong, one by one
  and in order, to the frames its client has sent; every command that was read has been answered once the task waits for
  the next; no two tasks share a connection; and a task ends only with an error.
\<close>

theorem clients_answered_in_order:
  assumes "socket_law V A" and "server_reaches V A K srv n0 st" and "c \<in> set (ss_sessions st)"
    and "h = client_handle c" and "n = ss_net st"
  shows "(\<forall>k < length (frames_put A h n). k < length (frames_sent A h n) \<and>
      right_answer V K srv (frames_sent A h n ! k) (frames_put A h n ! k)) \<and>
    (session_at c = Receiving \<longrightarrow> length (frames_taken A h n) = length (frames_put A h n)) \<and>
    (\<forall>d\<in>set (ss_sessions st). client_handle d = h \<longrightarrow> d = c) \<and>
    (\<forall>r. session_at c = Disconnected r \<longrightarrow> \<not> is_ok r)"
proof -
  have inv: "server_inv V A K srv st" using server_reaches_inv [OF assms(2,1)] .
  then obtain answered rest where read: "frames_taken A h n = answered @ rest"
      and answers: "list_all2 (right_answer V K srv) answered (frames_put A h n)"
      and rest: "left_over V K srv (session_at c) rest"
    using assms(3-5) by (auto simp: server_inv_def session_inv_def)
  have "prefix (frames_taken A h n) (frames_sent A h n)" using assms(1) by (simp add: socket_law_def)
  then obtain more where frames_sent: "frames_sent A h n = answered @ rest @ more" unfolding read by (auto simp: prefix_def)
  have length: "length answered = length (frames_put A h n)" using answers by (rule list_all2_lengthD)
  have "k < length (frames_sent A h n) \<and> right_answer V K srv (frames_sent A h n ! k) (frames_put A h n ! k)"
    if "k < length (frames_put A h n)" for k
    using that length list_all2_nthD2 [OF answers that] by (simp add: frames_sent nth_append)
  moreover have "session_at c = Receiving \<longrightarrow> length (frames_taken A h n) = length (frames_put A h n)"
    using rest read length by auto
  moreover have "\<forall>d\<in>set (ss_sessions st). client_handle d = h \<longrightarrow> d = c"
    using inv assms(3,4) by (auto simp: server_inv_def distinct_map inj_on_def)
  moreover have "\<forall>r. session_at c = Disconnected r \<longrightarrow> \<not> is_ok r" using rest by auto
  ultimately show ?thesis by blast
qed

theorem clients_answered_in_order_witness:
  "right_answer sample_server_lib sample_codec sample_server [1] (1 # array_bytes 11) \<and>
   right_answer sample_server_lib sample_codec sample_server [0] [0]"
proof -
  note served = clients_answered_in_order [OF sample_socket_law sample_server_run]
  from served [of "ss_sessions sample_served ! 0"] served [of "ss_sessions sample_served ! 1"] show ?thesis
    by (simp add: sample_served_def sample_net_served_def sample_view_def)
qed

text \<open>
  C40.  Although transactions lose their chain id on the wire, the remote signer signs the right one: a
  transaction with a chain id is signed as it is, one without as a transaction of the main net, and
  the client accepts the answer.
\<close>

theorem sign_eth_tx_chain_id:
  assumes "codec_law K strip"
    and "eth_sign_transaction keys (case tx_chain_id K tx of Some c \<Rightarrow> tx | None \<Rightarrow> tx_set_chain_id K 1 tx) = Ok signature"
  shows "sign_eth_tx (client_side K keys) K tx ([], []) = (Ok signature, ([], []))"
proof -
  let ?c = "unwrap_or (tx_chain_id K tx) ETH_MAINNET_CHAIN_ID"
  have signed: "tx_set_chain_id K ?c (strip tx) = (case tx_chain_id K tx of Some c \<Rightarrow> tx | None \<Rightarrow> tx_set_chain_id K 1 tx)"
    using assms(1) by (auto simp: codec_law_def ETH_MAINNET_CHAIN_ID_def split: option.splits)
  then have "serve_command K keys (strip_command strip (SignEthTx tx ?c)) = Ok (SignedEthTx (tx_set_chain_id K ?c (strip tx)) signature ?c)"
    using assms(2) by (simp add: serve_command_def)
  from request_served [OF assms(1) this]
  have request: "client_request (client_side K keys) K (SignEthTx tx ?c) ([], []) = (Ok (SignedEthTx (strip tx) signature ?c), ([], []))"
    using assms(1) by (simp add: codec_law_def)
  show ?thesis
  proof (cases "tx_chain_id K tx")
    case None
    with assms(1) have "strip tx = tx" by (simp add: codec_law_def)
    with request None show ?thesis by (simp add: sign_eth_tx_def Let_def and_then_def)
  next
    case (Some c)
    with assms(1) have "tx_set_chain_id K c (strip tx) = tx" by (simp add: codec_law_def)
    with request Some show ?thesis by (simp add: sign_eth_tx_def Let_def and_then_def)
  qed
qed

theorem sign_eth_tx_chain_id_witness:
  "sign_eth_tx (client_side sample_codec sample_keys) sample_codec None ([], []) = (Ok 1, ([], []))"
  by (rule sign_eth_tx_chain_id [OF sample_codec_law]) (simp add: sample_codec_def sample_keys_def)

text \<open>
  C21.  The Aleph Zero listener is never stuck in the middle of a window: in every interleaving, as long as
  the handling of the events that are being handled can end, and after an error the node can be asked whether
  the bridge is paused, the main loop or one of its tasks can take a step, until the listener returns or waits
  for the next finalized block.  With a limit of zero event tasks, which the configuration allows, the first
  event instead blocks the main loop for ever.
\<close>

theorem azero_listener_progress:
  assumes "azero_reaches L E S C N emergency cfg most_azero most_eth (azero_start C cfg r) st"
    and "az_pc st \<noteq> Waiting" and "\<forall>res. az_pc st \<noteq> Returned res"
    and "\<forall>(i, event)\<in>set (az_running st). \<exists>w v w'. azero_handle_event E S cfg event w = Some (v, w')"
    and "\<forall>e. az_pc st = Draining e \<longrightarrow> (\<exists>w v w'. azero_after_error S most_eth e w = Some (v, w'))"
  shows "(cfg_azero_max_event_handler_tasks cfg \<noteq> 0 \<longrightarrow>
      (\<exists>st'. azero_step L E S C N emergency cfg most_azero most_eth st st' \<and> moved st st')) \<and>
    (cfg_azero_max_event_handler_tasks cfg = 0 \<longrightarrow>
      (\<forall>n started event events rest b st'. az_pc st = Handling n started (event # events) rest b \<longrightarrow>
         azero_reaches L E S C N emergency cfg most_azero most_eth st st' \<longrightarrow> az_pc st' = az_pc st))"
proof (intro conjI impI allI)
  have sem: "semaphore_inv (unat (cfg_azero_max_event_handler_tasks cfg)) st" using azero_reaches_semaphore [OF assms(1)] by blast
  show "\<exists>st'. azero_step L E S C N emergency cfg most_azero most_eth st st' \<and> moved st st'"
    if "cfg_azero_max_event_handler_tasks cfg \<noteq> 0"
    by (rule azero_progress [OF sem that assms(2) _ assms(4)]) (use assms(3,5) in auto)
  fix n started event events rest b st'
  assume none: "cfg_azero_max_event_handler_tasks cfg = 0" and pc: "az_pc st = Handling n started (event # events) rest b"
    and run: "azero_reaches L E S C N emergency cfg most_azero most_eth st st'"
  from run have "semaphore_inv 0 st' \<and> az_pc st' = az_pc st"
  proof induction
    case refl
    show ?case using sem none by simp
  next
    case (step u v)
    then show ?case using azero_no_permits [OF _ _ step(2)] semaphore_step [OF step(2)] pc by simp
  qed
  then show "az_pc st' = az_pc st" by blast
qed

theorem azero_listener_progress_witness:
  "\<exists>st'. sample_azero_step sample_spawned_state st' \<and> moved sample_spawned_state st'"
proof -
  have "\<forall>(i, event)\<in>set (az_running sample_spawned_state).
      \<exists>w v w'. azero_handle_event sample_eth sample_signed sample_config event w = Some (v, w')"
    using sample_handled by (fastforce simp: sample_spawned_state_def)
  moreover have "az_pc sample_spawned_state \<noteq> Waiting" "\<forall>res. az_pc sample_spawned_state \<noteq> Returned res"
    "\<forall>e. az_pc sample_spawned_state \<noteq> Draining e" "cfg_azero_max_event_handler_tasks sample_config \<noteq> 0"
    by (simp_all add: sample_spawned_state_def sample_azero_state_def)
  ultimately show ?thesis using azero_listener_progress [OF sample_spawned] by blast
qed

text \<open>
  C22.  Every window of the Aleph Zero listener comes to an end: no run goes on for ever without opening a new
  window, if the waiting of the listener itself and the cursor of the other listener are not counted as steps.
\<close>

theorem azero_windows_end:
  "\<nexists>run. \<forall>i. azero_step L E S C N emergency cfg most_azero most_eth (run i) (run (Suc i)) \<and> moved (run i) (run (Suc i)) \<and>
     \<not> (\<exists>ns b. az_pc (run i) = Waiting \<and> az_pc (run (Suc i)) = Adding ns b)"
proof -
  have leaves: "phase (az_pc st') \<le> 1" if "azero_step L E S C N emergency cfg most_azero most_eth st st'" "az_pc st = Waiting"
    "\<nexists>ns b. az_pc st' = Adding ns b" for st st'
    using that by cases (auto simp: returned_def drop_event_tasks_def)
  have "\<nexists>run. \<forall>i. (run (Suc i), run i) \<in> {(st', st). azero_step L E S C N emergency cfg most_azero most_eth st st' \<and>
      moved st st' \<and> (az_pc st \<noteq> Waiting \<or> phase (az_pc st') \<le> 1)}"
    using windows_wf unfolding wf_iff_no_infinite_down_chain .
  then show ?thesis using leaves by blast
qed

end
