(* ===== verification/Weth9.thy ===== *)
theory Weth9
  imports Bridge_Prelude
begin

text \<open>
  The contract \<^verbatim>\<open>eth/contracts/WETH9.sol\<close>, and the ether it holds.  It is compiled by Solidity 0.4, whose
  arithmetic wraps; that it never does here follows from the ether that backs every balance.
\<close>

section \<open>State\<close>

datatype weth_event =
    Weth_Approval eth_address eth_address u256
  | Weth_Transfer eth_address eth_address u256
  | Weth_Deposit eth_address u256
  | Weth_Withdrawal eth_address u256

record weth9 =
  balanceOf :: "eth_address \<Rightarrow> u256"
  weth_allowance :: "eth_address \<Rightarrow> eth_address \<Rightarrow> u256"
  weth_events :: "weth_event list"

text \<open>
  The contract and the ether of all accounts, in wei.  \<open>accepts\<close> says which accounts take ether that is sent
  with the stipend of \<^verbatim>\<open>transfer\<close>; the stipend is too small for them to change any storage.
\<close>

record ether_world =
  weth :: weth9
  ether :: "eth_address \<Rightarrow> nat"

definition emit_weth :: "weth_event \<Rightarrow> weth9 \<Rightarrow> weth9" where
  "emit_weth e s = s\<lparr>weth_events := weth_events s @ [e]\<rparr>"

definition pay :: "eth_address \<Rightarrow> eth_address \<Rightarrow> u256 \<Rightarrow> ether_world \<Rightarrow> ether_world option" where
  "pay from to v x =
     (if ether x from < unat v then None
      else let e = (ether x)(from := ether x from - unat v) in Some (x\<lparr>ether := e(to := e to + unat v)\<rparr>))"

section \<open>Functions\<close>

text \<open>\<open>W\<close> is the address of the contract, \<open>sender\<close> the caller; \<open>None\<close> is a call that reverts.\<close>

definition deposit :: "eth_address \<Rightarrow> u256 \<Rightarrow> weth9 \<Rightarrow> weth9" where
  "deposit sender v s =
     emit_weth (Weth_Deposit sender v) (s\<lparr>balanceOf := (balanceOf s)(sender := balanceOf s sender + v)\<rparr>)"

definition withdraw ::
  "eth_address \<Rightarrow> (eth_address \<Rightarrow> bool) \<Rightarrow> eth_address \<Rightarrow> u256 \<Rightarrow> ether_world \<Rightarrow> ether_world option" where
  "withdraw W accepts sender wad x =
     (if \<not> balanceOf (weth x) sender \<ge> wad then None
      else
        let x1 = x\<lparr>weth := (weth x)\<lparr>balanceOf := (balanceOf (weth x))(sender := balanceOf (weth x) sender - wad)\<rparr>\<rparr> in
        case pay W sender wad x1 of
          None \<Rightarrow> None
        | Some x2 \<Rightarrow>
            if accepts sender then Some (x2\<lparr>weth := emit_weth (Weth_Withdrawal sender wad) (weth x2)\<rparr>) else None)"

definition weth_totalSupply :: "eth_address \<Rightarrow> ether_world \<Rightarrow> nat" where
  "weth_totalSupply W x = ether x W"

definition approve :: "eth_address \<Rightarrow> eth_address \<Rightarrow> u256 \<Rightarrow> weth9 \<Rightarrow> weth9" where
  "approve sender guy wad s =
     emit_weth (Weth_Approval sender guy wad)
       (s\<lparr>weth_allowance := (weth_allowance s)(sender := (weth_allowance s sender)(guy := wad))\<rparr>)"

definition transferFrom :: "eth_address \<Rightarrow> eth_address \<Rightarrow> eth_address \<Rightarrow> u256 \<Rightarrow> weth9 \<Rightarrow> weth9 option" where
  "transferFrom sender src dst wad s =
     (if \<not> balanceOf s src \<ge> wad then None
      else if src \<noteq> sender \<and> weth_allowance s src sender \<noteq> - 1 \<and> \<not> weth_allowance s src sender \<ge> wad then None
      else
        let s1 = (if src \<noteq> sender \<and> weth_allowance s src sender \<noteq> - 1 then
                    s\<lparr>weth_allowance := (weth_allowance s)(src := (weth_allowance s src)(sender := weth_allowance s src sender - wad))\<rparr>
                  else s);
            b = (balanceOf s1)(src := balanceOf s1 src - wad);
            s2 = s1\<lparr>balanceOf := b(dst := b dst + wad)\<rparr>
        in Some (emit_weth (Weth_Transfer src dst wad) s2))"

definition transfer_weth :: "eth_address \<Rightarrow> eth_address \<Rightarrow> u256 \<Rightarrow> weth9 \<Rightarrow> weth9 option" where
  "transfer_weth sender dst wad s = transferFrom sender sender dst wad s"

section \<open>Messages\<close>

datatype weth_msg =
    Deposit
  | Fallback
  | Withdraw u256
  | Approve eth_address u256
  | Transfer eth_address u256
  | TransferFrom eth_address eth_address u256

text \<open>Only \<^verbatim>\<open>deposit\<close> and the fallback function, which calls it, are payable.\<close>

fun weth_function ::
  "eth_address \<Rightarrow> (eth_address \<Rightarrow> bool) \<Rightarrow> eth_address \<Rightarrow> u256 \<Rightarrow> weth_msg \<Rightarrow> ether_world \<Rightarrow> ether_world option" where
  "weth_function W accepts sender v Deposit x = Some (x\<lparr>weth := deposit sender v (weth x)\<rparr>)"
| "weth_function W accepts sender v Fallback x = Some (x\<lparr>weth := deposit sender v (weth x)\<rparr>)"
| "weth_function W accepts sender v (Withdraw wad) x = (if v = 0 then withdraw W accepts sender wad x else None)"
| "weth_function W accepts sender v (Approve guy wad) x =
     (if v = 0 then Some (x\<lparr>weth := approve sender guy wad (weth x)\<rparr>) else None)"
| "weth_function W accepts sender v (Transfer dst wad) x =
     (if v = 0 then map_option (\<lambda>s. x\<lparr>weth := s\<rparr>) (transfer_weth sender dst wad (weth x)) else None)"
| "weth_function W accepts sender v (TransferFrom src dst wad) x =
     (if v = 0 then map_option (\<lambda>s. x\<lparr>weth := s\<rparr>) (transferFrom sender src dst wad (weth x)) else None)"

text \<open>A call: the value moves to the contract, then the function runs.\<close>

definition weth_call ::
  "eth_address \<Rightarrow> (eth_address \<Rightarrow> bool) \<Rightarrow> eth_address \<Rightarrow> u256 \<Rightarrow> weth_msg \<Rightarrow> ether_world \<Rightarrow> ether_world option" where
  "weth_call W accepts sender v msg x = Option.bind (pay sender W v x) (weth_function W accepts sender v msg)"

section \<open>Every balance is backed by ether\<close>

definition weth_total :: "weth9 \<Rightarrow> nat" where
  "weth_total s = (\<Sum>a\<in>UNIV. unat (balanceOf s a))"

definition solvent :: "eth_address \<Rightarrow> ether_world \<Rightarrow> bool" where
  "solvent W x \<longleftrightarrow> weth_total (weth x) \<le> ether x W \<and> (\<Sum>a\<in>UNIV. ether x a) < 2 ^ 256"

lemma sum_update: "(\<Sum>b\<in>UNIV. (f(a := v)) b) + f a = (\<Sum>b\<in>UNIV. f b) + (v :: nat)" for f :: "'a::finite \<Rightarrow> nat"
proof -
  have "(\<Sum>b\<in>UNIV. g b) = g a + (\<Sum>b\<in>UNIV - {a}. g b)" for g :: "'a \<Rightarrow> nat"
    by (rule sum.remove) simp_all
  moreover have "(\<Sum>b\<in>UNIV - {a}. (f(a := v)) b) = (\<Sum>b\<in>UNIV - {a}. f b)" by (intro sum.cong) auto
  ultimately show ?thesis by (metis add.assoc add.commute fun_upd_same)
qed

lemma le_sum_UNIV: "f a \<le> (\<Sum>b\<in>UNIV. f b :: nat)" for a :: "'a::finite"
  by (rule member_le_sum) simp_all

lemma pay_Some:
  assumes "pay from to v x = Some x'"
  shows "weth x' = weth x" and "(\<Sum>a\<in>UNIV. ether x' a) = (\<Sum>a\<in>UNIV. ether x a)" and "unat v \<le> ether x from"
    and "from \<noteq> to \<Longrightarrow> ether x' to = ether x to + unat v" and "from = to \<Longrightarrow> ether x' = ether x"
    and "a \<noteq> from \<Longrightarrow> ether x a \<le> ether x' a" and "from \<noteq> to \<Longrightarrow> ether x from = ether x' from + unat v"
proof -
  let ?e = "(ether x)(from := ether x from - unat v)"
  have v: "unat v \<le> ether x from" and x': "x' = x\<lparr>ether := ?e(to := ?e to + unat v)\<rparr>"
    using assms by (auto simp: pay_def Let_def split: if_splits)
  show "(\<Sum>a\<in>UNIV. ether x' a) = (\<Sum>a\<in>UNIV. ether x a)"
    using sum_update [of "ether x" "from" "ether x from - unat v"] sum_update [of ?e to "?e to + unat v"] v by (simp add: x')
qed (use assms in \<open>auto simp: pay_def Let_def split: if_splits\<close>)

lemma pay_weth: "pay from to v (x\<lparr>weth := s\<rparr>) = map_option (\<lambda>y. y\<lparr>weth := s\<rparr>) (pay from to v x)"
  by (simp add: pay_def Let_def)

lemma weth_total_update:
  "weth_total (s\<lparr>balanceOf := (balanceOf s)(a := v)\<rparr>) + unat (balanceOf s a) = weth_total s + unat v"
  using sum_update [of "\<lambda>a. unat (balanceOf s a)" a "unat v"] by (simp add: weth_total_def fun_upd_def if_distrib)

lemma weth_total_simps [simp]:
  "weth_total (emit_weth e s) = weth_total s" "weth_total (s\<lparr>weth_allowance := al\<rparr>) = weth_total s"
  "balanceOf (emit_weth e s) = balanceOf s" "weth_allowance (emit_weth e s) = weth_allowance s"
  by (simp_all add: weth_total_def emit_weth_def)

lemma balance_le_total: "unat (balanceOf s a) \<le> weth_total s"
  unfolding weth_total_def by (rule le_sum_UNIV)

lemma unat_plus: "unat (x :: u256) + unat y < 2 ^ 256 \<Longrightarrow> unat (x + y) = unat x + unat y"
  using unat_add_lem [of x y] by simp

lemma deposit_total:
  assumes "weth_total s + unat v < 2 ^ 256"
  shows "weth_total (deposit sender v s) = weth_total s + unat v"
    and "unat (balanceOf (deposit sender v s) sender) = unat (balanceOf s sender) + unat v"
proof -
  have sum: "unat (balanceOf s sender + v) = unat (balanceOf s sender) + unat v"
    using assms balance_le_total [of s sender] by (intro unat_plus) simp
  then show "unat (balanceOf (deposit sender v s) sender) = unat (balanceOf s sender) + unat v" by (simp add: deposit_def)
  show "weth_total (deposit sender v s) = weth_total s + unat v"
    using weth_total_update [of s sender "balanceOf s sender + v"] sum by (simp add: deposit_def)
qed

lemma transferFrom_Some:
  assumes "transferFrom sender src dst wad s = Some s'" and "weth_total s < 2 ^ 256"
  shows "weth_total s' = weth_total s"
    and "src \<noteq> dst \<Longrightarrow> unat (balanceOf s' dst) = unat (balanceOf s dst) + unat wad"
    and "a \<noteq> src \<Longrightarrow> unat (balanceOf s a) \<le> unat (balanceOf s' a)"
    and "src \<noteq> sender \<Longrightarrow> wad \<le> weth_allowance s src sender"
    and "weth_allowance s' a b \<noteq> 0 \<Longrightarrow> weth_allowance s a b \<noteq> 0"
proof -
  let ?al = "if src \<noteq> sender \<and> weth_allowance s src sender \<noteq> - 1
    then (weth_allowance s)(src := (weth_allowance s src)(sender := weth_allowance s src sender - wad)) else weth_allowance s"
  let ?b = "(balanceOf s)(src := balanceOf s src - wad)"
  have enough: "wad \<le> balanceOf s src"
    and allowed: "src \<noteq> sender \<Longrightarrow> weth_allowance s src sender \<noteq> - 1 \<Longrightarrow> wad \<le> weth_allowance s src sender"
    and s': "balanceOf s' = ?b(dst := ?b dst + wad)" "weth_allowance s' = ?al"
    using assms(1) by (auto simp: transferFrom_def Let_def split: if_splits)
  show "src \<noteq> sender \<Longrightarrow> wad \<le> weth_allowance s src sender"
    using allowed by (cases "weth_allowance s src sender = - 1") auto
  show "weth_allowance s' a b \<noteq> 0 \<Longrightarrow> weth_allowance s a b \<noteq> 0"
    using allowed by (auto simp: s'(2) split: if_splits)
  have less: "unat (balanceOf s src - wad) + unat wad = unat (balanceOf s src)"
    using enough by (simp add: unat_sub word_le_nat_alt)
  define s1 where "s1 = s\<lparr>balanceOf := ?b\<rparr>"
  have drop: "weth_total s1 + unat wad = weth_total s"
    using weth_total_update [of s src "balanceOf s src - wad"] less by (simp add: s1_def)
  have "unat (?b dst + wad) = unat (?b dst) + unat wad"
    using balance_le_total [of s1 dst] drop assms(2) by (intro unat_plus) (simp add: s1_def)
  moreover have "weth_total s' = weth_total (s1\<lparr>balanceOf := ?b(dst := ?b dst + wad)\<rparr>)"
    by (simp add: weth_total_def s'(1))
  ultimately show "weth_total s' = weth_total s"
    using weth_total_update [of s1 dst "?b dst + wad"] drop by (simp add: s1_def)
  show "src \<noteq> dst \<Longrightarrow> unat (balanceOf s' dst) = unat (balanceOf s dst) + unat wad"
    using \<open>unat (?b dst + wad) = unat (?b dst) + unat wad\<close> by (simp add: s'(1))
  show "a \<noteq> src \<Longrightarrow> unat (balanceOf s a) \<le> unat (balanceOf s' a)"
    using \<open>unat (?b dst + wad) = unat (?b dst) + unat wad\<close> by (auto simp: s'(1))
qed

lemma withdraw_Some:
  assumes "withdraw W accepts sender wad x = Some x'"
  shows "wad \<le> balanceOf (weth x) sender" and "accepts sender"
    and "balanceOf (weth x') = (balanceOf (weth x))(sender := balanceOf (weth x) sender - wad)"
    and "weth_allowance (weth x') = weth_allowance (weth x)"
    and "\<exists>y. pay W sender wad x = Some y \<and> ether x' = ether y"
  using assms by (auto simp: withdraw_def Let_def pay_weth dest: pay_Some(1) split: if_splits option.splits)

lemma withdraw_total:
  assumes "withdraw W accepts sender wad x = Some x'"
  shows "weth_total (weth x') + unat wad = weth_total (weth x)"
proof -
  have "weth_total (weth x') = weth_total ((weth x)\<lparr>balanceOf := (balanceOf (weth x))(sender := balanceOf (weth x) sender - wad)\<rparr>)"
    using withdraw_Some(3) [OF assms] by (simp add: weth_total_def)
  moreover have "unat (balanceOf (weth x) sender - wad) + unat wad = unat (balanceOf (weth x) sender)"
    using withdraw_Some(1) [OF assms] by (simp add: unat_sub word_le_nat_alt)
  ultimately show ?thesis using weth_total_update [of "weth x" sender "balanceOf (weth x) sender - wad"] by simp
qed

lemma solvent_pay:
  assumes "solvent W x" and "pay from to v x = Some x'" and "from \<noteq> W"
  shows "solvent W x'" and "to = W \<Longrightarrow> weth_total (weth x') + unat v \<le> ether x' W"
proof -
  note paid = pay_Some [OF assms(2)]
  show "solvent W x'" using assms(1) paid(1,2) paid(6) [of W] assms(3) by (simp add: solvent_def)
  show "weth_total (weth x') + unat v \<le> ether x' W" if "to = W"
    using assms(1,3) paid(1,4) that by (simp add: solvent_def)
qed

lemma solvent_bound: "solvent W x \<Longrightarrow> ether x W < 2 ^ 256" "solvent W x \<Longrightarrow> weth_total (weth x) < 2 ^ 256"
  using le_sum_UNIV [of "ether x" W] by (auto simp: solvent_def)

lemma solvent_weth:
  "solvent W x \<Longrightarrow> weth_total s \<le> ether x W \<Longrightarrow> solvent W (x\<lparr>weth := s\<rparr>)"
  by (simp add: solvent_def)

text \<open>
  Whoever else calls the contract, the balance of an account that has approved nobody does not go down, the
  account still has approved nobody, and every balance stays backed.
\<close>

definition safe_for :: "eth_address \<Rightarrow> eth_address \<Rightarrow> ether_world \<Rightarrow> bool" where
  "safe_for W b x \<longleftrightarrow> solvent W x \<and> (\<forall>a. weth_allowance (weth x) b a = 0)"

lemma weth_deposits:
  assumes "solvent W x" and "pay sender W v x = Some y" and "sender \<noteq> W"
  shows "solvent W (y\<lparr>weth := deposit sender v (weth y)\<rparr>)"
    and "unat (balanceOf (deposit sender v (weth y)) sender) = unat (balanceOf (weth x) sender) + unat v"
proof -
  have y: "solvent W y" "weth_total (weth y) + unat v \<le> ether y W" "weth y = weth x"
    using solvent_pay [OF assms(1,2,3)] pay_Some(1) [OF assms(2)] by simp_all
  then have room: "weth_total (weth y) + unat v < 2 ^ 256" using solvent_bound(1) [OF y(1)] by simp
  show "solvent W (y\<lparr>weth := deposit sender v (weth y)\<rparr>)"
    by (rule solvent_weth [OF y(1)]) (use deposit_total(1) [OF room, of sender] y(2) in simp)
  show "unat (balanceOf (deposit sender v (weth y)) sender) = unat (balanceOf (weth x) sender) + unat v"
    using deposit_total(2) [OF room, of sender] y(3) by simp
qed

lemma solvent_withdraw:
  assumes "solvent W x" and "withdraw W accepts sender wad x = Some x'" and "sender \<noteq> W"
  shows "solvent W x'"
proof -
  obtain y where y: "pay W sender wad x = Some y" "ether x' = ether y" using withdraw_Some(5) [OF assms(2)] by blast
  have "ether x W = ether y W + unat wad" using pay_Some(7) [OF y(1)] assms(3) by simp
  then show ?thesis using assms(1) pay_Some(2) [OF y(1)] withdraw_total [OF assms(2)] y(2) by (simp add: solvent_def)
qed

lemma withdraw_safe:
  assumes "safe_for W b x" and "withdraw W accepts sender wad x = Some x'" and "sender \<noteq> W"
  shows "safe_for W b x'"
  using assms solvent_withdraw [OF _ assms(2,3)] withdraw_Some(4) [OF assms(2)] by (simp add: safe_for_def)

lemma transferFrom_safe:
  assumes "safe_for W b x" and "transferFrom sender src dst wad (weth x) = Some s"
  shows "safe_for W b (x\<lparr>weth := s\<rparr>)"
proof -
  have sol: "solvent W x" and none: "weth_allowance (weth x) b a = 0" for a using assms(1) by (simp_all add: safe_for_def)
  note moved = transferFrom_Some(1,5) [OF assms(2) solvent_bound(2) [OF sol]]
  have "weth_allowance s b a = 0" for a using moved(2) none by blast
  then show ?thesis using sol moved(1) by (simp add: safe_for_def solvent_def)
qed

lemma weth_call_safe:
  assumes "safe_for W b x" and "weth_call W accepts sender v msg x = Some x'" and "sender \<noteq> W" and "sender \<noteq> b"
  shows "safe_for W b x'" and "unat (balanceOf (weth x) b) \<le> unat (balanceOf (weth x') b)"
proof -
  from assms(2) obtain y where y: "pay sender W v x = Some y" "weth_function W accepts sender v msg y = Some x'"
    by (auto simp: weth_call_def bind_eq_Some_conv)
  have weth: "weth y = weth x" using pay_Some(1) [OF y(1)] .
  have sol: "solvent W x" and none: "\<And>a. weth_allowance (weth x) b a = 0" using assms(1) by (simp_all add: safe_for_def)
  have safe: "safe_for W b y" using solvent_pay(1) [OF sol y(1) assms(3)] none weth by (simp add: safe_for_def)
  have moved: "safe_for W b x' \<and> unat (balanceOf (weth x) b) \<le> unat (balanceOf (weth x') b)"
    if "transferFrom sender src dst wad (weth y) = Some s" "x' = y\<lparr>weth := s\<rparr>" for src dst wad s
  proof -
    have total: "weth_total (weth y) < 2 ^ 256" using safe solvent_bound(2) by (auto simp: safe_for_def)
    have "unat (balanceOf (weth y) b) \<le> unat (balanceOf s b)"
    proof (cases "b = src")
      case True
      then have "wad = 0" using transferFrom_Some(4) [OF that(1) total] assms(4) none weth by simp
      then show ?thesis using that(1) by (auto simp: transferFrom_def Let_def split: if_splits)
    next
      case False
      then show ?thesis using transferFrom_Some(3) [OF that(1) total] by simp
    qed
    with transferFrom_safe [OF safe that(1)] that(2) weth show ?thesis by simp
  qed
  have "safe_for W b x' \<and> unat (balanceOf (weth x) b) \<le> unat (balanceOf (weth x') b)"
  proof (cases msg)
    case Deposit
    then show ?thesis using y(2) weth_deposits [OF sol y(1) assms(3)] none weth assms(4) by (auto simp: safe_for_def deposit_def)
  next
    case Fallback
    then show ?thesis using y(2) weth_deposits [OF sol y(1) assms(3)] none weth assms(4) by (auto simp: safe_for_def deposit_def)
  next
    case (Withdraw wad)
    then have out: "withdraw W accepts sender wad y = Some x'" using y(2) by (simp split: if_splits)
    then show ?thesis using withdraw_safe [OF safe out assms(3)] withdraw_Some(3) [OF out] weth assms(4) by simp
  next
    case (Approve guy wad)
    then show ?thesis using y(2) safe weth assms(4) by (auto simp: safe_for_def solvent_def approve_def split: if_splits)
  qed (use y(2) moved in \<open>auto simp: transfer_weth_def split: if_splits\<close>)
  then show "safe_for W b x'" "unat (balanceOf (weth x) b) \<le> unat (balanceOf (weth x') b)" by simp_all
qed

end
