(* ===== verification/Bridge_Supply.thy ===== *)
theory Bridge_Supply
  imports Most_Tokens Two_Chains
begin

text \<open>
  The value that crosses the bridge: for a wrapped token on Aleph Zero and its partner on Ethereum, what was
  locked, minted, burned and released, and that the supply of the wrapped token is covered.
\<close>

section \<open>Amounts on the logs and in the storage\<close>

type_synonym azero_transfer = "committee_id \<times> bytes32 \<times> u128 \<times> bytes32 \<times> u128"
type_synonym eth_transfer = "u256 \<times> bytes32 \<times> u256 \<times> bytes32 \<times> u256"

definition azero_transfer_hash :: "(u8 list \<Rightarrow> bytes32) \<Rightarrow> azero_transfer \<Rightarrow> bytes32" where
  "azero_transfer_hash K = (\<lambda>(c, t, a, r, n). hash_request_data K c t a r n)"

definition eth_transfer_hash :: "(u8 list \<Rightarrow> bytes32) \<Rightarrow> eth_transfer \<Rightarrow> bytes32" where
  "eth_transfer_hash K = (\<lambda>(c, t, a, r, n). eth_request_hash K c t a r n)"

text \<open>The amounts announced for a token, on either log.\<close>

fun locked_by :: "bytes32 \<Rightarrow> eth_event \<Rightarrow> nat" where
  "locked_by t (Eth_CrosschainTransferRequest c t' a r n) = (if t' = t then unat a else 0)"
| "locked_by t _ = 0"

fun sent_by :: "bytes32 \<Rightarrow> most_event \<Rightarrow> nat" where
  "sent_by t (CrosschainTransferRequest c t' a r n) = (if t' = t then unat a else 0)"
| "sent_by t _ = 0"

definition locked_total :: "bytes32 \<Rightarrow> eth_event list \<Rightarrow> nat" where
  "locked_total t es = (\<Sum>e\<leftarrow>es. locked_by t e)"

definition sent_total :: "bytes32 \<Rightarrow> most_event list \<Rightarrow> nat" where
  "sent_total t es = (\<Sum>e\<leftarrow>es. sent_by t e)"

text \<open>The amounts of the executed requests among \<open>D\<close>, on either chain.\<close>

definition minted_total :: "(u8 list \<Rightarrow> bytes32) \<Rightarrow> azero_transfer set \<Rightarrow> bytes32 \<Rightarrow> most \<Rightarrow> nat" where
  "minted_total K D t m =
     (\<Sum>x\<in>{x \<in> D. fst (snd x) = t \<and> processed_requests m (azero_transfer_hash K x) \<noteq> None}. unat (fst (snd (snd x))))"

definition released_total :: "(u8 list \<Rightarrow> bytes32) \<Rightarrow> eth_transfer set \<Rightarrow> bytes32 \<Rightarrow> 'oz eth_most \<Rightarrow> nat" where
  "released_total K D t m =
     (\<Sum>x\<in>{x \<in> D. fst (snd x) = t \<and> processedRequests m (eth_transfer_hash K x)}. unat (fst (snd (snd x))))"

section \<open>The steps\<close>

text \<open>
  The votes on Aleph Zero name requests among \<open>D\<close>, and only \<open>t\<close> is ever paired with \<open>T\<close>.  The bridge does not
  call itself.
\<close>

definition orderly :: "azero_transfer set \<Rightarrow> bytes32 \<Rightarrow> bytes32 \<Rightarrow> call_env \<Rightarrow> most_msg \<Rightarrow> bool" where
  "orderly D t T env msg \<longleftrightarrow> caller env \<noteq> self_account env \<and>
     (\<forall>h c t' a r n. msg = ReceiveRequest h c t' a r n \<longrightarrow> (c, t', a, r, n) \<in> D) \<and>
     (\<forall>src. msg = AddPair src T \<longrightarrow> src = t)"

text \<open>
  The steps of the two chains with one token library.  What happens on Aleph Zero outside of the bridge does
  not raise the supply of the token, which only the bridge may mint.
\<close>

inductive supply_step ::
  "'w eth_lib \<Rightarrow> ('p, 'w) eth_signed_lib \<Rightarrow> 'oz oz_lib \<Rightarrow> 'd psp22_lib \<Rightarrow> account_id set \<Rightarrow> eth_address set
    \<Rightarrow> azero_transfer set \<Rightarrow> bytes32 \<Rightarrow> bytes32
    \<Rightarrow> 'd chain \<times> ('oz, 'x) eth_world \<Rightarrow> 'd chain \<times> ('oz, 'x) eth_world \<Rightarrow> bool"
  for E :: "'w eth_lib" and S :: "('p, 'w) eth_signed_lib" and Z :: "'oz oz_lib" and L :: "'d psp22_lib" and Da De D t T where
  transaction: "id_headroom (bridge w) \<Longrightarrow> azero_voting E Da (emost e) env msg \<Longrightarrow> orderly D t T env msg \<Longrightarrow>
     supply_step E S Z L Da De D t T (w, e) (most_tx (eth_keccak E) L R env msg w, e)"
| elsewhere: "bridge w' = bridge w \<Longrightarrow> token_supply L t w' \<le> token_supply L t w \<Longrightarrow>
     supply_step E S Z L Da De D t T (w, e) (w', e)"
| on_ethereum: "eth_evolves (eth_keccak E) Z (eth_voting E S De (bridge w)) e e' \<Longrightarrow>
     supply_step E S Z L Da De D t T (w, e) (w, e')"

lemma supply_step_bridge_step: "supply_step E S Z L Da De D t T s s' \<Longrightarrow> bridge_step E S Z Da De s s'"
  by (induction rule: supply_step.induct) (auto intro: bridge_step.intros)

lemma supply_steps_bridge_steps:
  "(supply_step E S Z L Da De D t T)\<^sup>*\<^sup>* s s' \<Longrightarrow> (bridge_step E S Z Da De)\<^sup>*\<^sup>* s s'"
  by (induction rule: rtranclp_induct) (auto dest: supply_step_bridge_step)

section \<open>The supply on Aleph Zero\<close>

text \<open>The wrapped token is burned for what is sent and minted for what is executed, counting from a supply \<open>s0\<close>.\<close>

definition supply_inv ::
  "(u8 list \<Rightarrow> bytes32) \<Rightarrow> 'd psp22_lib \<Rightarrow> azero_transfer set \<Rightarrow> bytes32 \<Rightarrow> bytes32 \<Rightarrow> nat \<Rightarrow> 'd chain \<Rightarrow> bool" where
  "supply_inv K L D t T s0 w \<longleftrightarrow>
     token_supply L t w + sent_total T (most_events (bridge w)) \<le> s0 + minted_total K D t (bridge w) \<and>
     (\<forall>src. supported_pairs (bridge w) src = Some T \<longrightarrow> src = t)"

text \<open>One more executed request adds its amount, if it is for the token in question.\<close>

lemma sum_executed:
  fixes amount :: "'x \<Rightarrow> nat"
  assumes "finite D" and "inj_on hash D" and "x \<in> D" and "\<not> P (hash x)"
  shows "(\<Sum>y\<in>{y \<in> D. token y = t \<and> (hash y = hash x \<or> P (hash y))}. amount y) =
    (\<Sum>y\<in>{y \<in> D. token y = t \<and> P (hash y)}. amount y) + (if token x = t then amount x else 0)"
proof -
  have "hash y = hash x \<longleftrightarrow> y = x" if "y \<in> D" for y using inj_onD [OF assms(2) _ that assms(3)] by auto
  then have "{y \<in> D. token y = t \<and> (hash y = hash x \<or> P (hash y))} =
      (if token x = t then insert x {y \<in> D. token y = t \<and> P (hash y)} else {y \<in> D. token y = t \<and> P (hash y)})"
    using assms(3) by auto
  then show ?thesis using assms(1,4) by simp
qed

lemma minted_total_processed:
  assumes "finite D" and "inj_on (azero_transfer_hash K) D" and "(c, t', a, r, n) \<in> D"
    and "h = hash_request_data K c t' a r n" and "processed_requests m h = None"
    and "processed_requests m' = (processed_requests m)(h \<mapsto> ())"
  shows "minted_total K D t m' = minted_total K D t m + (if t' = t then unat a else 0)"
proof -
  have h: "azero_transfer_hash K (c, t', a, r, n) = h" using assms(4) by (simp add: azero_transfer_hash_def)
  have "processed_requests m' k \<noteq> None \<longleftrightarrow> k = h \<or> processed_requests m k \<noteq> None" for k using assms(6) by simp
  then show ?thesis
    using sum_executed [OF assms(1-3), where P = "\<lambda>k. processed_requests m k \<noteq> None" and token = "\<lambda>x. fst (snd x)" and t = t
        and amount = "\<lambda>x. unat (fst (snd (snd x)))"]
      assms(5) by (simp add: h minted_total_def)
qed

lemma run_message_supply_inv:
  assumes "supply_inv K L D t T s0 w" and "run_message K L R env msg w = Ok w'" and "orderly D t T env msg"
    and "psp22_laws L" and "finite D" and "inj_on (azero_transfer_hash K) D" and "data_cell (bridge w) = Some d"
  shows "supply_inv K L D t T s0 w'"
proof -
  have change: "token_supply L t w' + burned_by t msg = token_supply L t w + minted_by t msg w w'"
    using run_message_supply [OF assms(4,2)] assms(3) by (simp add: orderly_def)
  have old: "token_supply L t w + sent_total T (most_events (bridge w)) \<le> s0 + minted_total K D t (bridge w)"
    "\<And>src. supported_pairs (bridge w) src = Some T \<Longrightarrow> src = t"
    using assms(1) by (simp_all add: supply_inv_def)
  show ?thesis
  proof (cases msg)
    case (SendRequest s a r)
    then have "send_request L R env s a r w = Ok w'" using assms(2) by simp
    then show ?thesis
      by (rule send_request_bridge)
         (use SendRequest change old in \<open>auto simp: supply_inv_def sent_total_def minted_total_def split: if_splits\<close>)
  next
    case (ReceiveRequest h c s a r n)
    then have "receive_request K L R env h c s a r n w = Ok w'" and data: "(c, s, a, r, n) \<in> D"
      using assms(2,3) by (simp_all add: orderly_def)
    then show ?thesis
    proof (cases rule: receive_request_cases)
      case (executed data count threshold)
      then have "minted_total K D t (bridge w') = minted_total K D t (bridge w) + (if s = t then unat a else 0)"
        using minted_total_processed [OF assms(5,6) data executed(6,4)] by (simp add: processed_def signed_def emit_event_def)
      with executed ReceiveRequest change old show ?thesis
        by (auto simp: supply_inv_def processed_def signed_def emit_event_def sent_total_def split: if_splits)
    qed (use ReceiveRequest change old in \<open>auto simp: supply_inv_def minted_total_def signed_def emit_event_def sent_total_def\<close>)
  next
    case (AddPair f s)
    with assms(2,3) change old show ?thesis
      by (auto simp: supply_inv_def add_pair_def result_elims minted_total_def orderly_def split: option.splits if_splits)
  next
    case (PayoutRewards c a)
    then have "payout_rewards R env c a w = Ok w'" using assms(2) by simp
    then show ?thesis
      by (cases rule: payout_rewards_bridge) (use PayoutRewards change old in \<open>auto simp: supply_inv_def minted_total_def\<close>)
  next
    case (SetHalted b)
    with assms(2,7) have "bridge w' = bridge w \<or>
        bridge w' = emit_event (HaltedStateChanged (d_is_halted d) b (caller env)) (set_data (d\<lparr>d_is_halted := b\<rparr>) (bridge w))"
      by (auto simp: set_halted_def lift_bridge_def result_elims Let_def split: if_splits)
    with SetHalted change old show ?thesis
      by (elim disjE) (simp_all add: supply_inv_def set_data_def emit_event_def minted_total_def sent_total_def)
  next
    case (RecoverPsp22 s r a)
    with assms(2) have "bridge w' = bridge w" by (auto simp: recover_psp22_def result_elims dest: call_token_bridge)
    with RecoverPsp22 change old show ?thesis by (simp add: supply_inv_def)
  next
    case (RecoverAzero r a)
    with assms(2) have "bridge w' = bridge w" by (auto simp: recover_azero_def result_elims dest: transfer_native_bridge)
    with RecoverAzero change old show ?thesis by (simp add: supply_inv_def)
  qed (use assms(2) change old in \<open>auto simp: supply_inv_def message_defs set_committee_def lift_bridge_def result_elims Let_def
        set_data_def emit_event_def minted_total_def sent_total_def split: if_splits\<close>)
qed

lemma supply_inv_native: "supply_inv K L D t T s0 (w\<lparr>native := n\<rparr>) = supply_inv K L D t T s0 w"
  by (simp add: supply_inv_def token_supply_def)

lemma most_tx_supply_inv:
  assumes "supply_inv K L D t T s0 w" and "orderly D t T env msg" and "psp22_laws L" and "finite D"
    and "inj_on (azero_transfer_hash K) D" and "data_cell (bridge w) = Some d"
  shows "supply_inv K L D t T s0 (most_tx K L R env msg w)"
proof (cases rule: most_tx_cases [of K L R env msg w])
  case (ran n)
  show ?thesis by (rule run_message_supply_inv [OF _ ran assms(2-5)]) (use assms(1,6) in \<open>simp_all add: supply_inv_native\<close>)
qed (use assms(1) in simp)

lemma supply_inv_steps:
  assumes "(supply_step E S Z L Da De D t T)\<^sup>*\<^sup>* s s'" and "supply_inv (eth_keccak E) L D t T n (fst s)"
    and "psp22_laws L" and "finite D" and "inj_on (azero_transfer_hash (eth_keccak E)) D"
  shows "supply_inv (eth_keccak E) L D t T n (fst s')"
  using assms(1)
proof (induction rule: rtranclp_induct)
  case (step u v)
  from step(2,3) show ?case
  proof (induction rule: supply_step.induct)
    case (transaction w e env msg R)
    moreover obtain d where "data_cell (bridge w) = Some d"
      using transaction(1) by (auto simp: id_headroom_def split: option.splits)
    ultimately show ?case using most_tx_supply_inv assms(3-5) by (metis fst_conv)
  qed (simp_all add: supply_inv_def)
qed (use assms(2) in simp)

lemma supply_inv_new:
  "most_new code committee threshold pocket usage pmin pmax pdefault orc who = Ok (bridge w) \<Longrightarrow>
     supply_inv K L D t T (token_supply L t w) w"
  by (auto simp: most_new_def result_elims supply_inv_def sent_total_def minted_total_def dest: sym)

section \<open>What is executed on one chain was announced on the other\<close>

lemma sum_set_le_sum_list: "sum f (set xs) \<le> (\<Sum>x\<leftarrow>xs. f x :: nat)"
  by (induction xs) (auto simp: sum.insert_if)

text \<open>A sum over requests that all have their own entry in a log is at most the sum over the log.\<close>

lemma sum_le_log:
  fixes amount :: "'x \<Rightarrow> nat"
  assumes "X \<subseteq> widen ` Y" and "inj_on entry Y"
    and "\<And>y. y \<in> Y \<Longrightarrow> entry y \<in> set es \<and> amount (widen y) \<le> val (entry y)"
  shows "sum amount X \<le> (\<Sum>e\<leftarrow>es. val e)"
proof -
  have "entry ` Y \<subseteq> set es" using assms(3) by blast
  then have "finite Y" using assms(2) by (meson List.finite_set finite_imageD finite_subset)
  then have "sum amount X \<le> sum amount (widen ` Y)" using assms(1) by (intro sum_mono2) auto
  also have "\<dots> \<le> (\<Sum>y\<in>Y. amount (widen y))" using sum_image_le [OF \<open>finite Y\<close>, of amount widen] by (simp add: o_def)
  also have "\<dots> \<le> (\<Sum>y\<in>Y. val (entry y))" using assms(3) by (intro sum_mono) blast
  also have "\<dots> = sum val (entry ` Y)" using assms(2) by (simp add: sum.reindex)
  also have "\<dots> \<le> sum val (set es)" using \<open>entry ` Y \<subseteq> set es\<close> by (intro sum_mono2) auto
  also have "\<dots> \<le> (\<Sum>e\<leftarrow>es. val e)" by (rule sum_set_le_sum_list)
  finally show ?thesis .
qed

text \<open>The entry of a request in the log of the chain it comes from, and a request of Aleph Zero as Ethereum sees it.\<close>

definition eth_entry :: "azero_transfer \<Rightarrow> eth_event" where
  "eth_entry = (\<lambda>(c, t, a, r, n). Eth_CrosschainTransferRequest (ucast c) t (ucast a) r (ucast n))"

definition azero_entry :: "azero_transfer \<Rightarrow> most_event" where
  "azero_entry = (\<lambda>(c, t, a, r, n). CrosschainTransferRequest c t a r n)"

definition widened :: "azero_transfer \<Rightarrow> eth_transfer" where
  "widened = (\<lambda>(c, t, a, r, n). (ucast c, t, ucast a, r, ucast n))"

lemma ucast_u256: "unat (ucast (x :: u128) :: u256) = unat x" "(ucast (x :: u128) :: u256) = ucast y \<longleftrightarrow> x = y"
proof -
  show wide: "unat (ucast (x :: u128) :: u256) = unat x" for x
    by (simp add: unsigned_ucast_eq take_bit_nat_eq_self order_less_le_trans [OF unsigned_less])
  show "(ucast (x :: u128) :: u256) = ucast y \<longleftrightarrow> x = y" by (metis wide word_unat_eq_iff)
qed

lemma entries_inj: "inj_on eth_entry Y" "inj_on azero_entry Y"
  by (auto simp: inj_on_def eth_entry_def azero_entry_def ucast_u256)

lemma minted_le_locked:
  assumes "\<forall>h. processed_requests m h \<noteq> None \<longrightarrow> (\<exists>y. h = azero_transfer_hash K y \<and> eth_entry y \<in> set es)"
    and "\<forall>y. eth_entry y \<in> set es \<longrightarrow> y \<in> D" and "inj_on (azero_transfer_hash K) D"
  shows "minted_total K D t m \<le> locked_total t es"
  unfolding minted_total_def locked_total_def
proof (rule sum_le_log [where widen = "\<lambda>y. y" and Y = "{y. eth_entry y \<in> set es \<and> fst (snd y) = t}" and entry = eth_entry])
  show "{x \<in> D. fst (snd x) = t \<and> processed_requests m (azero_transfer_hash K x) \<noteq> None} \<subseteq>
      (\<lambda>y. y) ` {y. eth_entry y \<in> set es \<and> fst (snd y) = t}"
  proof
    fix x assume "x \<in> {x \<in> D. fst (snd x) = t \<and> processed_requests m (azero_transfer_hash K x) \<noteq> None}"
    then have x: "x \<in> D" "fst (snd x) = t" "processed_requests m (azero_transfer_hash K x) \<noteq> None" by auto
    with assms(1) obtain y where y: "azero_transfer_hash K x = azero_transfer_hash K y" "eth_entry y \<in> set es" by blast
    then have "x = y" using inj_onD [OF assms(3) _ x(1)] assms(2) by blast
    then show "x \<in> (\<lambda>y. y) ` {y. eth_entry y \<in> set es \<and> fst (snd y) = t}" using x(2) y(2) by simp
  qed
qed (rule entries_inj, auto simp: eth_entry_def ucast_u256)

lemma widened_le_sent:
  assumes "X \<subseteq> widened ` {y. azero_entry y \<in> set es \<and> fst (snd y) = t}"
  shows "(\<Sum>x\<in>X. unat (fst (snd (snd x)))) \<le> sent_total t es"
  unfolding sent_total_def
  by (rule sum_le_log [OF assms entries_inj(2)]) (auto simp: azero_entry_def widened_def ucast_u256)

lemma released_entries:
  assumes "\<forall>h. processedRequests m h \<longrightarrow> (\<exists>y. h = eth_transfer_hash K (widened y) \<and> azero_entry y \<in> set es)"
    and "\<forall>y. azero_entry y \<in> set es \<longrightarrow> widened y \<in> D" and "inj_on (eth_transfer_hash K) D"
  shows "{x \<in> D. fst (snd x) = t \<and> processedRequests m (eth_transfer_hash K x)} \<subseteq>
    widened ` {y. azero_entry y \<in> set es \<and> fst (snd y) = t}"
proof
  fix x assume "x \<in> {x \<in> D. fst (snd x) = t \<and> processedRequests m (eth_transfer_hash K x)}"
  then have x: "x \<in> D" "fst (snd x) = t" "processedRequests m (eth_transfer_hash K x)" by auto
  with assms(1) obtain y where y: "eth_transfer_hash K x = eth_transfer_hash K (widened y)" "azero_entry y \<in> set es" by blast
  then have "x = widened y" using inj_onD [OF assms(3) _ x(1)] assms(2) by blast
  moreover have "fst (snd (widened y)) = fst (snd y)" by (simp add: widened_def split: prod.split)
  ultimately show "x \<in> widened ` {y. azero_entry y \<in> set es \<and> fst (snd y) = t}" using x(2) y(2) by auto
qed

lemma released_le_sent:
  assumes "\<forall>h. processedRequests m h \<longrightarrow> (\<exists>y. h = eth_transfer_hash K (widened y) \<and> azero_entry y \<in> set es)"
    and "\<forall>y. azero_entry y \<in> set es \<longrightarrow> widened y \<in> D" and "inj_on (eth_transfer_hash K) D"
  shows "released_total K D t m \<le> sent_total t es"
  unfolding released_total_def by (rule widened_le_sent [OF released_entries [OF assms]])

text \<open>What is announced and not yet executed comes on top.\<close>

lemma released_pending_le_sent:
  assumes "\<forall>h. processedRequests m h \<longrightarrow> (\<exists>y. h = eth_transfer_hash K (widened y) \<and> azero_entry y \<in> set es)"
    and "\<forall>y. azero_entry y \<in> set es \<longrightarrow> widened y \<in> D" and "inj_on (eth_transfer_hash K) D" and "finite D"
    and "azero_entry (c, t, a, r, n) \<in> set es" and "\<not> processedRequests m (eth_transfer_hash K (widened (c, t, a, r, n)))"
  shows "released_total K D t m + unat a \<le> sent_total t es"
proof -
  define y where "y = (c, t, a, r, n)"
  let ?X = "{x \<in> D. fst (snd x) = t \<and> processedRequests m (eth_transfer_hash K x)}"
  have y: "azero_entry y \<in> set es" "fst (snd y) = t" "unat (fst (snd (snd (widened y)))) = unat a" "widened y \<notin> ?X"
    using assms(5,6) by (simp_all add: y_def widened_def ucast_u256)
  have "insert (widened y) ?X \<subseteq> widened ` {y. azero_entry y \<in> set es \<and> fst (snd y) = t}"
    using released_entries [OF assms(1-3), of t] y(1,2) by blast
  from widened_le_sent [OF this] show ?thesis
    using assms(4) y(3,4) by (simp add: released_total_def)
qed

lemma executed_entries:
  assumes "executed (abs_votes m) \<subseteq> announced_on_eth K m'" and "processed_requests m h \<noteq> None"
  shows "\<exists>y. h = azero_transfer_hash K y \<and> eth_entry y \<in> set (eth_events m')"
proof -
  have "h \<in> announced_on_eth K m'" using assms by (auto simp: abs_votes_def)
  then obtain c t a r n where "h = hash_request_data K c t a r n"
    "Eth_CrosschainTransferRequest (ucast c) t (ucast a) r (ucast n) \<in> set (eth_events m')"
    unfolding announced_on_eth_def by blast
  then show ?thesis by (intro exI [of _ "(c, t, a, r, n)"]) (simp add: azero_transfer_hash_def eth_entry_def)
qed

lemma executed_entries_eth:
  assumes "executed (abs_votes_eth m) \<subseteq> announced_on_azero K m'" and "processedRequests m h"
  shows "\<exists>y. h = eth_transfer_hash K (widened y) \<and> azero_entry y \<in> set (most_events m')"
proof -
  have "h \<in> announced_on_azero K m'" using assms by (auto simp: abs_votes_eth_def)
  then obtain c t a r n where "h = eth_request_hash K (ucast c) t (ucast a) r (ucast n)"
    "CrosschainTransferRequest c t a r n \<in> set (most_events m')"
    unfolding announced_on_azero_def by blast
  then show ?thesis by (intro exI [of _ "(c, t, a, r, n)"]) (simp add: eth_transfer_hash_def widened_def azero_entry_def)
qed

end
