(* ===== verification/Weth_Runs.thy ===== *)
theory Weth_Runs
  imports Weth9 Bridge_Supply
begin

text \<open>
  The Ethereum contract of the bridge together with WETH9: every call of the bridge to WETH runs the code of
  \<open>Weth9\<close>, every other contract is an adversary that may call both of them.  The bridge always holds as much
  WETH as was locked in it and not yet released.
\<close>

section \<open>The calls of the bridge to WETH\<close>

fun callee :: "ext_call \<Rightarrow> eth_address" where
  "callee (Low_Call to v gas d) = to"
| "callee (Safe_Transfer_From to src dst a) = to"
| "callee (Safe_Transfer to dst a) = to"

fun call_value :: "ext_call \<Rightarrow> u256" where
  "call_value (Low_Call to v gas d) = v"
| "call_value _ = 0"

fun weth_request :: "ext_call \<Rightarrow> weth_msg" where
  "weth_request (Low_Call to v gas Call_Deposit) = Deposit"
| "weth_request (Low_Call to v gas (Call_Withdraw a)) = Withdraw a"
| "weth_request (Low_Call to v gas (Call_Transfer dst a)) = Transfer dst a"
| "weth_request (Low_Call to v gas Call_Empty) = Fallback"
| "weth_request (Safe_Transfer_From to src dst a) = TransferFrom src dst a"
| "weth_request (Safe_Transfer to dst a) = Transfer dst a"

text \<open>Ether that WETH pays to the bridge runs its \<^verbatim>\<open>receive\<close> function.\<close>

definition takes_ether ::
  "eth_address \<Rightarrow> eth_address \<Rightarrow> (eth_address \<Rightarrow> bool) \<Rightarrow> ('oz, ether_world \<times> 'y) eth_world \<Rightarrow> eth_address \<Rightarrow> bool" where
  "takes_ether W B others u a =
     (if a = B then is_ok (receive_ether \<lparr>msg_sender = W, msg_value = 0, this_address = B\<rparr> u) else others a)"

definition set_ether :: "ether_world \<Rightarrow> ('oz, ether_world \<times> 'y) eth_world \<Rightarrow> ('oz, ether_world \<times> 'y) eth_world" where
  "set_ether x u = u\<lparr>outside := (x, snd (outside u))\<rparr>"

abbreviation ether_of :: "('oz, ether_world \<times> 'y) eth_world \<Rightarrow> ether_world" where
  "ether_of u \<equiv> fst (outside u)"

definition weth_answers ::
  "eth_address \<Rightarrow> eth_address \<Rightarrow> (eth_address \<Rightarrow> bool) \<Rightarrow> ext_call \<Rightarrow> ('oz, ether_world \<times> 'y) eth_world
    \<Rightarrow> ('oz, ether_world \<times> 'y) eth_world \<Rightarrow> bool" where
  "weth_answers W B others c u u' \<longleftrightarrow>
     (\<exists>x. weth_call W (takes_ether W B others u) B (call_value c) (weth_request c) (ether_of u) = Some x \<and> u' = set_ether x u)"

section \<open>Runs\<close>

text \<open>
  The bridge is at \<open>B\<close> and WETH at \<open>W\<close>.  Besides the messages of the bridge, anyone else may use WETH, pay ether
  and change the rest of the world, also in the middle of a call to a contract other than WETH.
\<close>

inductive weth_evolves ::
  "(u8 list \<Rightarrow> bytes32) \<Rightarrow> 'oz oz_lib \<Rightarrow> (eth_env \<Rightarrow> eth_msg \<Rightarrow> bool) \<Rightarrow> eth_address \<Rightarrow> eth_address \<Rightarrow> (eth_address \<Rightarrow> bool)
    \<Rightarrow> ('oz, ether_world \<times> 'y) eth_world \<Rightarrow> ('oz, ether_world \<times> 'y) eth_world \<Rightarrow> bool"
  for K :: "u8 list \<Rightarrow> bytes32" and Z :: "'oz oz_lib" and G :: "eth_env \<Rightarrow> eth_msg \<Rightarrow> bool" and W B others where
  still: "weth_evolves K Z G W B others w w"
| rest: "weth_evolves K Z G W B others w v \<Longrightarrow> weth_evolves K Z G W B others w (v\<lparr>outside := (ether_of v, y)\<rparr>)"
| payment: "weth_evolves K Z G W B others w v \<Longrightarrow> from \<noteq> W \<Longrightarrow> from \<noteq> B \<Longrightarrow> pay from to a (ether_of v) = Some x \<Longrightarrow>
     weth_evolves K Z G W B others w (set_ether x v)"
| weth_user: "weth_evolves K Z G W B others w v \<Longrightarrow> sender \<noteq> W \<Longrightarrow> sender \<noteq> B \<Longrightarrow>
     weth_call W (takes_ether W B others v) sender a k (ether_of v) = Some x \<Longrightarrow>
     weth_evolves K Z G W B others w (set_ether x v)"
| message: "weth_evolves K Z G W B others w v \<Longrightarrow> G env msg \<Longrightarrow>
     pay (msg_sender env) B (msg_value env) (ether_of v) = Some x \<Longrightarrow>
     (\<forall>c u data u'. external_call X c u = Some (data, u') \<longrightarrow>
        (callee c = W \<longrightarrow> weth_answers W B others c u u') \<and>
        (callee c \<noteq> W \<longrightarrow> (\<exists>y. pay B (callee c) (call_value c) (ether_of u) = Some y \<and>
           weth_evolves K Z G W B others (set_ether y u) u'))) \<Longrightarrow>
     eth_dispatch K Z X env msg (set_ether x v) = Ok v' \<Longrightarrow> weth_evolves K Z G W B others w v'"

lemma set_ether_simps [simp]: "emost (set_ether x u) = emost u" "ether_of (set_ether x u) = x"
  by (simp_all add: set_ether_def)

text \<open>They are runs of the bridge.\<close>

lemma set_ether_evolves: "eth_evolves K Z G u (set_ether x u)"
  by (rule eth_evolves.elsewhere [OF eth_evolves.still]) simp

lemma weth_evolves_eth_evolves:
  assumes "weth_evolves K Z G W B others w v"
  shows "eth_evolves K Z G w v"
  using assms
proof (induction rule: weth_evolves.induct)
  case (message w v env msg x X v')
  have "eth_evolves K Z G u u'" if call: "external_call X c u = Some (data, u')" for c u data u'
  proof (cases "callee c = W")
    case True
    then obtain x where "u' = set_ether x u" using message.IH(2) call unfolding weth_answers_def by blast
    then show ?thesis by (simp add: set_ether_evolves)
  next
    case False
    then obtain y where "eth_evolves K Z G (set_ether y u) u'" using message.IH(2) call by blast
    then show ?thesis using eth_evolves_trans set_ether_evolves by blast
  qed
  moreover have "eth_evolves K Z G w (set_ether x v)" by (rule eth_evolves.elsewhere [OF message.IH(1)]) simp
  ultimately show ?case
    by (intro eth_evolves.message [of K Z G w "set_ether x v" env msg X v'] message.hyps(2,4)) blast+
qed (auto intro: eth_evolves.still eth_evolves.elsewhere)

section \<open>The WETH of the bridge\<close>

text \<open>
  The votes name requests among \<open>D\<close>, only \<open>T\<close>, the key of WETH, is ever paired with \<open>t\<close>, the owner does not
  recover WETH, and neither the bridge nor WETH sends messages to the bridge.
\<close>

definition orderly_eth ::
  "eth_transfer set \<Rightarrow> bytes32 \<Rightarrow> bytes32 \<Rightarrow> eth_address \<Rightarrow> eth_address \<Rightarrow> eth_env \<Rightarrow> eth_msg \<Rightarrow> bool" where
  "orderly_eth D t T W B env msg \<longleftrightarrow>
     this_address env = B \<and> msg_sender env \<noteq> B \<and> msg_sender env \<noteq> W \<and>
     (\<forall>h c t' a r n. msg = ReceiveRequest_Eth h c t' a r n \<longrightarrow> (c, t', a, r, n) \<in> D) \<and>
     (\<forall>src. msg = AddPair_Eth src t \<longrightarrow> src = T) \<and> (\<forall>to a. msg \<noteq> RecoverERC20 W to a)"

definition weth_held :: "eth_address \<Rightarrow> ('oz, ether_world \<times> 'y) eth_world \<Rightarrow> nat" where
  "weth_held B u = unat (balanceOf (weth (ether_of u)) B)"

text \<open>
  What was locked for \<open>t\<close>, and \<open>n\<close> more, is held or was released; the rest is what keeps it so.
\<close>

definition weth_inv ::
  "(u8 list \<Rightarrow> bytes32) \<Rightarrow> ('oz \<Rightarrow> bool) \<Rightarrow> eth_transfer set \<Rightarrow> bytes32 \<Rightarrow> bytes32 \<Rightarrow> eth_address \<Rightarrow> eth_address \<Rightarrow> nat
    \<Rightarrow> ('oz, ether_world \<times> 'y) eth_world \<Rightarrow> bool" where
  "weth_inv K init D t T W B n u \<longleftrightarrow>
     safe_for W B (ether_of u) \<and> wethAddress (emost u) = W \<and> init (oz_state (emost u)) \<and>
     (\<forall>src. supportedPairs (emost u) src = t \<longrightarrow> src = T) \<and>
     locked_total t (eth_events (emost u)) + n \<le> weth_held B u + released_total K D T (emost u)"

text \<open>The requests \<open>D\<close> that pay out WETH name it by its key.\<close>

definition weth_requests :: "(u8 list \<Rightarrow> bytes32) \<Rightarrow> eth_transfer set \<Rightarrow> bytes32 \<Rightarrow> eth_address \<Rightarrow> bool" where
  "weth_requests K D T W \<longleftrightarrow> finite D \<and> inj_on (eth_transfer_hash K) D \<and> T = addressToBytes32 W \<and>
     (\<forall>(c, t', a, r, n)\<in>D. bytes32ToAddress t' = W \<longrightarrow> t' = T)"

lemma address_round_trip: "bytes32ToAddress (addressToBytes32 a) = a"
  by (rule bit_word_eqI) (simp add: bytes32ToAddress_def addressToBytes32_def bit_simps)

lemma released_total_settled:
  assumes "finite D" and "inj_on (eth_transfer_hash K) D" and "(c, t', a, r, n) \<in> D"
    and "h = eth_request_hash K c t' a r n" and "\<not> processedRequests m h"
    and "processedRequests m' = (processedRequests m)(h := True)"
  shows "released_total K D T m' = released_total K D T m + (if t' = T then unat a else 0)"
proof -
  have h: "eth_transfer_hash K (c, t', a, r, n) = h" using assms(4) by (simp add: eth_transfer_hash_def)
  have "processedRequests m' k \<longleftrightarrow> k = h \<or> processedRequests m k" for k using assms(6) by simp
  then show ?thesis
    using sum_executed [OF assms(1-3), where P = "processedRequests m" and token = "\<lambda>x. fst (snd x)" and t = T
        and amount = "\<lambda>x. unat (fst (snd (snd x)))"]
      assms(5) by (simp add: h released_total_def)
qed

section \<open>What the functions do to it\<close>

lemma weth_invD:
  assumes "weth_inv K init D t T W B n u"
  shows "safe_for W B (ether_of u)" and "solvent W (ether_of u)" and "wethAddress (emost u) = W" and "init (oz_state (emost u))"
    and "supportedPairs (emost u) src = t \<Longrightarrow> src = T"
  using assms by (auto simp: weth_inv_def safe_for_def)

text \<open>An update of the contract that concerns none of the amounts.\<close>

lemma weth_inv_quiet:
  assumes "weth_inv K init D t T W B n u" and "ether_of v = ether_of u" and "wethAddress (emost v) = wethAddress (emost u)"
    and "init (oz_state (emost v))" and "processedRequests (emost v) = processedRequests (emost u)"
    and "\<And>src. supportedPairs (emost v) src = t \<Longrightarrow> src = T"
    and "locked_total t (eth_events (emost v)) = locked_total t (eth_events (emost u))"
  shows "weth_inv K init D t T W B n v"
  using assms by (auto simp: weth_inv_def weth_held_def released_total_def)

lemma locked_total_simps [simp]:
  "locked_total t (es @ es') = locked_total t es + locked_total t es'" "locked_total t [e] = locked_by t e"
  by (simp_all add: locked_total_def)

lemma weth_inv_neutral:
  assumes "weth_inv K init D t T W B n u" and "locked_by t e = 0"
  shows "weth_inv K init D t T W B n (emit_eth e u)"
  by (rule weth_inv_quiet [OF assms(1)])
     (use assms weth_invD [OF assms(1)] in \<open>simp_all add: emit_eth_def on_most_def\<close>)

text \<open>Only the ether and WETH change.\<close>

lemma weth_inv_ether:
  assumes "weth_inv K init D t T W B n u" and "safe_for W B x" and "weth_held B u + m \<le> unat (balanceOf (weth x) B) + k"
    and "n' + k \<le> n + m"
  shows "weth_inv K init D t T W B n' (set_ether x u)"
  using assms by (auto simp: weth_inv_def weth_held_def)

lemma weth_inv_pay:
  assumes "weth_inv K init D t T W B n u" and "pay from to v (ether_of u) = Some x" and "from \<noteq> W"
  shows "weth_inv K init D t T W B n (set_ether x u)"
  by (rule weth_inv_ether [OF assms(1), of _ 0 0])
     (use assms(2) weth_invD(1,2) [OF assms(1)] solvent_pay(1) [OF _ assms(2,3)] pay_Some(1) [OF assms(2)]
       in \<open>simp_all add: safe_for_def weth_held_def\<close>)

lemma weth_inv_user:
  assumes "weth_inv K init D t T W B n u" and "weth_call W accepts sender v k (ether_of u) = Some x" and "sender \<noteq> W" "sender \<noteq> B"
  shows "weth_inv K init D t T W B n (set_ether x u)"
  by (rule weth_inv_ether [OF assms(1), of _ 0 0])
     (use weth_call_safe [OF weth_invD(1) [OF assms(1)] assms(2-4)] in \<open>simp_all add: weth_held_def\<close>)

section \<open>The bridge's own calls to WETH\<close>

lemma bridge_deposits:
  assumes "weth_inv K init D t T W B n u" and "weth_answers W B others c u u'" and "B \<noteq> W"
    and "weth_request c = Deposit \<or> weth_request c = Fallback"
  shows "weth_inv K init D t T W B (n + unat (call_value c)) u'" and "emost u' = emost u"
proof -
  from assms(2,4) obtain y where y: "pay B W (call_value c) (ether_of u) = Some y"
    "u' = set_ether (y\<lparr>weth := deposit B (call_value c) (weth y)\<rparr>) u"
    by (auto simp: weth_answers_def weth_call_def bind_eq_Some_conv)
  note dep = weth_deposits [OF weth_invD(2) [OF assms(1)] y(1) assms(3)]
  have "safe_for W B (y\<lparr>weth := deposit B (call_value c) (weth y)\<rparr>)"
    using dep(1) weth_invD(1) [OF assms(1)] pay_Some(1) [OF y(1)] by (simp add: safe_for_def deposit_def)
  then show "weth_inv K init D t T W B (n + unat (call_value c)) u'"
    unfolding y(2) by (rule weth_inv_ether [OF assms(1), of _ "unat (call_value c)" 0]) (use dep(2) in \<open>simp_all add: weth_held_def\<close>)
  show "emost u' = emost u" using y(2) by simp
qed

lemma bridge_withdraws:
  assumes "weth_inv K init D t T W B (n + unat a) u" and "weth_answers W B others c u u'" and "B \<noteq> W"
    and "weth_request c = Withdraw a"
  shows "weth_inv K init D t T W B n u'" and "emost u' = emost u"
proof -
  from assms(2,4) obtain y x where y: "pay B W (call_value c) (ether_of u) = Some y"
    "withdraw W (takes_ether W B others u) B a y = Some x" "u' = set_ether x u"
    by (auto simp: weth_answers_def weth_call_def bind_eq_Some_conv split: if_splits)
  have "weth_inv K init D t T W B (n + unat a) (set_ether y u)" using weth_inv_pay [OF assms(1) y(1) assms(3)] .
  then have safe: "safe_for W B y" using weth_invD(1) by fastforce
  have "unat (balanceOf (weth y) B) = unat (balanceOf (weth x) B) + unat a"
    using withdraw_Some(1,3) [OF y(2)] by (simp add: unat_sub word_le_nat_alt)
  then show "weth_inv K init D t T W B n u'"
    unfolding y(3) using withdraw_safe [OF safe y(2) assms(3)] pay_Some(1) [OF y(1)]
    by (intro weth_inv_ether [OF assms(1), of x 0 "unat a"]) (simp_all add: weth_held_def)
  show "emost u' = emost u" using y(3) by simp
qed

lemma bridge_collects:
  assumes "weth_inv K init D t T W B n u" and "weth_answers W B others c u u'" and "B \<noteq> W"
    and "weth_request c = TransferFrom src B a" and "src \<noteq> B"
  shows "weth_inv K init D t T W B (n + unat a) u'" and "emost u' = emost u"
proof -
  from assms(2,4) obtain y s where y: "pay B W (call_value c) (ether_of u) = Some y"
    "transferFrom B src B a (weth y) = Some s" "u' = set_ether (y\<lparr>weth := s\<rparr>) u"
    by (auto simp: weth_answers_def weth_call_def bind_eq_Some_conv split: if_splits)
  have "weth_inv K init D t T W B n (set_ether y u)" using weth_inv_pay [OF assms(1) y(1) assms(3)] .
  then have safe: "safe_for W B y" using weth_invD(1) by fastforce
  then have "weth_total (weth y) < 2 ^ 256" using solvent_bound(2) by (auto simp: safe_for_def)
  then have "unat (balanceOf s B) = unat (balanceOf (weth y) B) + unat a" using transferFrom_Some(2) [OF y(2)] assms(5) by simp
  then show "weth_inv K init D t T W B (n + unat a) u'"
    unfolding y(3) using transferFrom_safe [OF safe y(2)] pay_Some(1) [OF y(1)]
    by (intro weth_inv_ether [OF assms(1), of _ "unat a" 0]) (simp_all add: weth_held_def)
  show "emost u' = emost u" using y(3) by simp
qed

lemma weth_inv_less: "weth_inv K init D t T W B n u \<Longrightarrow> n' \<le> n \<Longrightarrow> weth_inv K init D t T W B n' u"
  by (auto simp: weth_inv_def)

section \<open>The functions of the bridge\<close>

text \<open>The other contracts keep the invariant, and WETH runs its code.\<close>

definition weth_evm ::
  "(('oz, ether_world \<times> 'y) eth_world \<Rightarrow> bool) \<Rightarrow> eth_address \<Rightarrow> eth_address \<Rightarrow> (eth_address \<Rightarrow> bool)
    \<Rightarrow> ('oz, ether_world \<times> 'y) evm \<Rightarrow> bool" where
  "weth_evm I W B others X \<longleftrightarrow>
     (\<forall>c u data u'. external_call X c u = Some (data, u') \<longrightarrow>
        (callee c = W \<longrightarrow> weth_answers W B others c u u') \<and> (callee c \<noteq> W \<longrightarrow> I u \<longrightarrow> I u'))"

lemma weth_evmD:
  assumes "weth_evm I W B others X" and "external_call X c u = Some (data, u')"
  shows "callee c = W \<Longrightarrow> weth_answers W B others c u u'" and "callee c \<noteq> W \<Longrightarrow> I u \<Longrightarrow> I u'"
  using assms unfolding weth_evm_def by blast+

text \<open>A call that sends ether without data, to WETH or to anyone else.\<close>

lemma plain_call_inv:
  assumes "weth_evm (weth_inv K init D t T W B n) W B others X" and "weth_inv K init D t T W B n u" and "B \<noteq> W"
    and "external_call X (Low_Call to a gas Call_Empty) u = Some (data, u')"
  shows "weth_inv K init D t T W B n u'"
proof (cases "to = W")
  case True
  then have "weth_answers W B others (Low_Call to a gas Call_Empty) u u'" using weth_evmD(1) [OF assms(1,4)] by simp
  from bridge_deposits(1) [OF assms(2) this assms(3)] show ?thesis by (auto intro: weth_inv_less)
next
  case False
  then show ?thesis using weth_evmD(2) [OF assms(1,4)] assms(2) by simp
qed

lemma announce_inv:
  assumes "weth_inv K init D t T W B (n + (if dest = t then unat a else 0)) v" and "announce dest a r v = Ok w'"
  shows "weth_inv K init D t T W B n w'"
proof -
  obtain nonce where "w' = on_most (\<lambda>m. m\<lparr>requestNonce := nonce\<rparr>)
      (emit_eth (Eth_CrosschainTransferRequest (committeeId (emost v)) dest a r (requestNonce (emost v))) v)"
    using assms(2) by (auto simp: announce_def result_elims log_event_def Let_def)
  then show ?thesis
    using assms(1) by (auto simp: weth_inv_def weth_held_def released_total_def emit_eth_def on_most_def)
qed

lemma sendRequest_inv:
  assumes "weth_evm (weth_inv K init D t T W B n) W B others X" and "weth_inv K init D t T W B n w" and "B \<noteq> W"
    and "sendRequest Z X env src a r w = Ok w'" and "this_address env = B" "msg_sender env \<noteq> B" and "T = addressToBytes32 W"
  shows "weth_inv K init D t T W B n w'"
proof -
  let ?c = "Safe_Transfer_From (bytes32ToAddress src) (msg_sender env) B a"
  obtain data v where call: "external_call X ?c w = Some (data, v)" and ann: "announce (supportedPairs (emost w) src) a r v = Ok w'"
    using assms(4,5) by (auto simp: sendRequest_def result_elims Let_def split: option.splits)
  have "weth_inv K init D t T W B (n + (if supportedPairs (emost w) src = t then unat a else 0)) v"
  proof (cases "bytes32ToAddress src = W")
    case True
    then have "weth_answers W B others ?c w v" using weth_evmD(1) [OF assms(1) call] by simp
    from bridge_collects(1) [OF assms(2) this assms(3)] assms(6) show ?thesis by (auto intro: weth_inv_less)
  next
    case False
    then have "supportedPairs (emost w) src \<noteq> t" using weth_invD(5) [OF assms(2)] assms(7) address_round_trip by blast
    then show ?thesis using weth_evmD(2) [OF assms(1) call] False assms(2) by simp
  qed
  then show ?thesis using ann by (rule announce_inv)
qed

lemma sendRequestNative_inv:
  assumes "weth_evm (weth_inv K init D t T W B n) W B others X" and "weth_inv K init D t T W B n w" and "B \<noteq> W"
    and "sendRequestNative Z X env r w = Ok w'"
  shows "weth_inv K init D t T W B n w'"
proof -
  let ?c = "Low_Call W (msg_value env) None Call_Deposit" and ?dest = "supportedPairs (emost w) (addressToBytes32 W)"
  obtain data v where call: "external_call X ?c w = Some (data, v)" and ann: "announce ?dest (msg_value env) r v = Ok w'"
    using assms(4) weth_invD(3) [OF assms(2)] by (auto simp: sendRequestNative_def result_elims Let_def split: option.splits)
  have "weth_answers W B others ?c w v" using weth_evmD(1) [OF assms(1) call] by simp
  from bridge_deposits(1) [OF assms(2) this assms(3)]
  have "weth_inv K init D t T W B (n + (if ?dest = t then unat (msg_value env) else 0)) v" by (auto intro: weth_inv_less)
  then show ?thesis using ann by (rule announce_inv)
qed

lemma return_locked_inv:
  assumes "weth_evm (weth_inv K init D t T W B n) W B others X" and "B \<noteq> W"
    and "weth_inv K init D t T W B (n + (if bytes32ToAddress t' = W then unat a else 0)) w"
    and "return_locked X h t' a r w = Ok w'"
  shows "weth_inv K init D t T W B n w'"
proof (cases "bytes32ToAddress t' = W")
  case True
  let ?c = "Low_Call W 0 None (Call_Withdraw a)"
  have weth: "wethAddress (emost w) = W" using weth_invD(3) [OF assms(3)] .
  obtain data v where call: "external_call X ?c w = Some (data, v)"
    and last: "(case external_call X (Low_Call (bytes32ToAddress r) a (Some GAS_LIMIT) Call_Empty) v of
        None \<Rightarrow> Ok (emit_eth (Eth_EthTransferFailed h) v) | Some (_, w2) \<Rightarrow> Ok w2) = Ok w'"
    using assms(4) True weth by (auto simp: return_locked_def Let_def split: option.splits)
  have "weth_answers W B others ?c w v" using weth_evmD(1) [OF assms(1) call] by simp
  then have v: "weth_inv K init D t T W B n v" using bridge_withdraws(1) [of K init D t T W B n a w] assms(2,3) True by simp
  show ?thesis
    using last plain_call_inv [OF assms(1) v assms(2)] weth_inv_neutral [OF v] by (auto split: option.splits)
next
  case False
  then have w: "weth_inv K init D t T W B n w" using assms(3) by simp
  obtain b v where "tokenTransferReturnSuccess X (bytes32ToAddress t') (bytes32ToAddress r) a w = Ok (b, v)"
    and w': "w' = (if \<not> b then emit_eth (Eth_TokenTransferFailed h) v else v)"
    using assms(4) False weth_invD(3) [OF assms(3)] by (auto simp: return_locked_def Let_def result_elims)
  then have "v = w \<or> (\<exists>data. external_call X (Low_Call (bytes32ToAddress t') 0 None (Call_Transfer (bytes32ToAddress r) a)) w = Some (data, v))"
    by (auto simp: tokenTransferReturnSuccess_def result_elims split: option.splits)
  then have v: "weth_inv K init D t T W B n v" using weth_evmD(2) [OF assms(1)] False w by auto
  then show ?thesis using w' weth_inv_neutral [OF v, of "Eth_TokenTransferFailed h"] by simp
qed

lemma receiveRequest_inv:
  assumes "weth_evm (weth_inv K init D t T W B n) W B others X" and "B \<noteq> W" and "weth_inv K init D t T W B n w"
    and "receiveRequest K Z X env h c t' a r m w = Ok w'" and "(c, t', a, r, m) \<in> D" and "weth_requests K D T W"
  shows "weth_inv K init D t T W B n w'"
proof -
  let ?h = "eth_request_hash K c t' a r m" and ?s = "msg_sender env"
  have D: "finite D" "inj_on (eth_transfer_hash K) D" "bytes32ToAddress t' = W \<longleftrightarrow> t' = T"
    using assms(5,6) address_round_trip by (auto simp: weth_requests_def)
  consider (early) e where "locked_by t e = 0" "w' = emit_eth e w"
    | (vote) "\<not> processedRequests (emost w) h" "\<not> hasSignedRequest ?s ?h (emost w)"
  proof (cases "processedRequests (emost w) h \<or> hasSignedRequest ?s ?h (emost w)")
    case True
    then have "w' = emit_eth (Eth_ProcessedRequestSigned h ?s) w \<or> w' = emit_eth (Eth_RequestAlreadySigned ?h ?s) w"
      using assms(4) by (auto simp: receiveRequest_def result_elims hasSignedRequest_def Let_def split: if_splits)
    then show thesis using early by (metis locked_by.simps(4,5))
  qed (use vote in blast)
  then show ?thesis
  proof cases
    case early
    then show ?thesis using weth_inv_neutral [OF assms(3)] by simp
  next
    case vote
    from assms(4) vote show ?thesis
    proof (cases rule: receiveRequest_counts)
      case (counted count)
      show ?thesis unfolding counted(4)
        by (rule weth_inv_quiet [OF assms(3)]) (use weth_invD [OF assms(3)] in \<open>simp_all add: voted_def on_most_def\<close>)
    next
      case (executed count v)
      let ?w = "on_most (\<lambda>m. settled h (voted h ?s count m)) w"
      have "released_total K D T (emost ?w) = released_total K D T (emost w) + (if t' = T then unat a else 0)"
        by (rule released_total_settled [OF D(1,2) assms(5) executed(1) vote(1)]) (simp add: settled_def voted_def)
      then have "weth_inv K init D t T W B (n + (if bytes32ToAddress t' = W then unat a else 0)) ?w"
        using assms(3) D(3) by (auto simp: weth_inv_def weth_held_def settled_def voted_def on_most_def)
      from return_locked_inv [OF assms(1,2) this executed(4)] show ?thesis
        unfolding executed(5) by (rule weth_inv_neutral) simp
    qed
  qed
qed

lemma on_oz_inv:
  assumes "weth_inv K init D t T W B n w" and "on_oz f w = Ok w'"
    and "\<And>s'. init (oz_state (emost w)) \<Longrightarrow> f (oz_state (emost w)) = Ok s' \<Longrightarrow> init s'"
  shows "weth_inv K init D t T W B n w'"
proof -
  obtain s' where s': "f (oz_state (emost w)) = Ok s'" "w' = on_most (\<lambda>m. m\<lparr>oz_state := s'\<rparr>) w"
    using assms(2) by (auto simp: on_oz_def result_elims)
  show ?thesis unfolding s'(2)
    by (rule weth_inv_quiet [OF assms(1)])
       (use weth_invD [OF assms(1)] assms(3) [OF _ s'(1)] in \<open>simp_all add: on_most_def\<close>)
qed

lemma eth_dispatch_weth_inv:
  assumes ok: "eth_dispatch K Z X env msg w = Ok w'" and inv: "weth_inv K init D t T W B n w" and law: "initializer_law Z init"
    and evm: "weth_evm (weth_inv K init D t T W B n) W B others X" and BW: "B \<noteq> W" and "t \<noteq> 0"
    and guard: "orderly_eth D t T W B env msg" and D: "weth_requests K D T W"
  shows "weth_inv K init D t T W B n w'"
proof -
  have run: "eth_function K Z X env msg w = Ok w'" using ok by (auto simp: eth_dispatch_def result_elims)
  have sender: "this_address env = B" "msg_sender env \<noteq> B" using guard by (simp_all add: orderly_eth_def)
  note laws = initializer_lawD [OF law] and invD = weth_invD [OF inv]
  show ?thesis
  proof (cases msg)
    case (Initialize accounts threshold owner weth)
    then show ?thesis using run laws(2) [OF invD(4)] by (auto simp: initialize_most_def result_elims)
  next
    case (SendRequest_Eth src a r)
    then show ?thesis using run sendRequest_inv [OF evm inv BW _ sender] D by (simp add: weth_requests_def)
  next
    case (SendRequestNative r)
    then show ?thesis using run sendRequestNative_inv [OF evm inv BW] by simp
  next
    case (ReceiveRequest_Eth h c t' a r m)
    then have "(c, t', a, r, m) \<in> D" using guard by (simp add: orderly_eth_def)
    then show ?thesis using run receiveRequest_inv [OF evm BW inv _ _ D] ReceiveRequest_Eth by simp
  next
    case (SetCommittee_Eth accounts threshold)
    then obtain c members where "w' = emit_eth (Eth_CommitteeUpdated c) (w\<lparr>emost := (emost w)\<lparr>committeeId := c, eth_committee := members,
         committeeSize := (committeeSize (emost w))(c := of_nat (length accounts)),
         signatureThreshold := (signatureThreshold (emost w))(c := threshold)\<rparr>\<rparr>)"
      using run by (auto simp: setCommittee_def result_elims)
    then show ?thesis
      by (intro weth_inv_quiet [OF inv]) (use invD in \<open>simp_all add: emit_eth_def on_most_def\<close>)
  next
    case (RecoverERC20 token to a)
    then obtain data where call: "external_call X (Safe_Transfer token to a) w = Some (data, w')"
      using run by (auto simp: recoverERC20_def result_elims split: option.splits)
    moreover have "token \<noteq> W" using guard RecoverERC20 by (auto simp: orderly_eth_def)
    ultimately show ?thesis using weth_evmD(2) [OF evm call] inv by simp
  next
    case (RecoverNative to a)
    then obtain data where "external_call X (Low_Call to a (Some GAS_LIMIT) Call_Empty) w = Some (data, w')"
      using run by (auto simp: recoverNative_def result_elims split: option.splits)
    then show ?thesis using plain_call_inv [OF evm inv BW] by blast
  next
    case (AddPair_Eth src to)
    then have "w' = on_most (\<lambda>m. m\<lparr>supportedPairs := (supportedPairs m)(src := to)\<rparr>) w" "to = t \<longrightarrow> src = T"
      using run guard by (auto simp: addPair_def result_elims orderly_eth_def)
    then show ?thesis
      by (intro weth_inv_quiet [OF inv]) (use invD in \<open>auto simp: on_most_def split: if_splits\<close>)
  next
    case (RemovePair_Eth src)
    then have "w' = on_most (\<lambda>m. m\<lparr>supportedPairs := (supportedPairs m)(src := 0)\<rparr>) w"
      using run by (auto simp: removePair_def result_elims)
    then show ?thesis
      by (intro weth_inv_quiet [OF inv]) (use invD \<open>t \<noteq> 0\<close> in \<open>auto simp: on_most_def split: if_splits\<close>)
  next
    case (TransferOwnership_Eth a)
    then show ?thesis using run on_oz_inv [OF inv] laws(6) by auto
  next
    case AcceptOwnership_Eth
    then show ?thesis using run on_oz_inv [OF inv] laws(5) by auto
  next
    case Pause_Eth
    then show ?thesis using run on_oz_inv [OF inv] laws(3) by (auto simp: pause_most_def result_elims)
  next
    case Unpause_Eth
    then show ?thesis using run on_oz_inv [OF inv] laws(4) by (auto simp: unpause_most_def result_elims)
  qed (use run inv in \<open>auto simp: renounceOwnership_def receive_ether_def result_elims\<close>)
qed

text \<open>Every run keeps it.\<close>

lemma weth_evolves_inv:
  assumes "weth_evolves K Z G W B others w v" and "weth_inv K init D t T W B n w" and "initializer_law Z init"
    and "B \<noteq> W" and "t \<noteq> 0" and "\<And>env msg. G env msg \<Longrightarrow> orderly_eth D t T W B env msg" and "weth_requests K D T W"
  shows "weth_inv K init D t T W B n v"
  using assms(1,2)
proof (induction rule: weth_evolves.induct)
  case (rest w v y)
  then show ?case by (auto intro: weth_inv_quiet [OF rest.IH] simp: weth_invD)
next
  case (payment w v "from" to a x)
  then show ?case using weth_inv_pay by blast
next
  case (weth_user w v sender a k x)
  then show ?case using weth_inv_user by blast
next
  case (message w v env msg x X v')
  have "msg_sender env \<noteq> W" using assms(6) [OF message.hyps(2)] by (simp add: orderly_eth_def)
  then have start: "weth_inv K init D t T W B n (set_ether x v)"
    using weth_inv_pay [OF message.IH(1) [OF message.prems] message.hyps(3)] by blast
  have "weth_evm (weth_inv K init D t T W B n) W B others X"
    unfolding weth_evm_def using message.IH(2) weth_inv_pay assms(4) by blast
  from eth_dispatch_weth_inv [OF message.hyps(4) start assms(3) this assms(4,5) assms(6) [OF message.hyps(2)] assms(7)]
  show ?case .
qed

end
