(* ===== verification/Bridge_Collateral.thy ===== *)
theory Bridge_Collateral
  imports Weth_Runs
begin

text \<open>
  Both chains with WETH9: the wrapped ether on Aleph Zero and the requests that are on their way back are
  covered by the WETH the bridge holds on Ethereum.
\<close>

section \<open>The steps\<close>

definition weth_voting ::
  "'w eth_lib \<Rightarrow> ('p, 'w) eth_signed_lib \<Rightarrow> eth_address set \<Rightarrow> eth_transfer set \<Rightarrow> bytes32 \<Rightarrow> bytes32 \<Rightarrow> eth_address \<Rightarrow> eth_address
    \<Rightarrow> most \<Rightarrow> eth_env \<Rightarrow> eth_msg \<Rightarrow> bool" where
  "weth_voting E S De D' t T W B m env msg \<longleftrightarrow> eth_voting E S De m env msg \<and> orderly_eth D' t T W B env msg"

inductive collateral_step ::
  "'w eth_lib \<Rightarrow> ('p, 'w) eth_signed_lib \<Rightarrow> 'oz oz_lib \<Rightarrow> 'd psp22_lib \<Rightarrow> account_id set \<Rightarrow> eth_address set
    \<Rightarrow> azero_transfer set \<Rightarrow> eth_transfer set \<Rightarrow> bytes32 \<Rightarrow> bytes32 \<Rightarrow> eth_address \<Rightarrow> eth_address \<Rightarrow> (eth_address \<Rightarrow> bool)
    \<Rightarrow> 'd chain \<times> ('oz, ether_world \<times> 'y) eth_world \<Rightarrow> 'd chain \<times> ('oz, ether_world \<times> 'y) eth_world \<Rightarrow> bool"
  for E :: "'w eth_lib" and S :: "('p, 'w) eth_signed_lib" and Z :: "'oz oz_lib" and L :: "'d psp22_lib"
    and Da De D D' t T W B others where
  on_azero: "supply_step E S Z L Da De D t T (w, e) (w', e) \<Longrightarrow>
     collateral_step E S Z L Da De D D' t T W B others (w, e) (w', e)"
| with_weth: "weth_evolves (eth_keccak E) Z (weth_voting E S De D' t T W B (bridge w)) W B others e e' \<Longrightarrow>
     collateral_step E S Z L Da De D D' t T W B others (w, e) (w, e')"

lemma collateral_step_supply_step:
  "collateral_step E S Z L Da De D D' t T W B others s s' \<Longrightarrow> supply_step E S Z L Da De D t T s s'"
proof (induction rule: collateral_step.induct)
  case (with_weth w e e')
  then have "eth_evolves (eth_keccak E) Z (weth_voting E S De D' t T W B (bridge w)) e e'" by (rule weth_evolves_eth_evolves)
  then have "eth_evolves (eth_keccak E) Z (eth_voting E S De (bridge w)) e e'"
    by (rule eth_evolves_mono) (simp add: weth_voting_def)
  then show ?case by (rule supply_step.on_ethereum)
qed

lemma collateral_steps_supply_steps:
  "(collateral_step E S Z L Da De D D' t T W B others)\<^sup>*\<^sup>* s s' \<Longrightarrow> (supply_step E S Z L Da De D t T)\<^sup>*\<^sup>* s s'"
  by (induction rule: rtranclp_induct) (auto dest: collateral_step_supply_step)

section \<open>The WETH of the bridge along a run\<close>

lemma collateral_inv:
  assumes "(collateral_step E S Z L Da De D D' t T W B others)\<^sup>*\<^sup>* s s'" and "weth_inv (eth_keccak E) init D' t T W B n (snd s)"
    and "initializer_law Z init" and "B \<noteq> W" and "t \<noteq> 0" and "weth_requests (eth_keccak E) D' T W"
  shows "weth_inv (eth_keccak E) init D' t T W B n (snd s')"
  using assms(1)
proof (induction rule: rtranclp_induct)
  case (step u v)
  from step(2,3) show ?case
  proof (induction rule: collateral_step.induct)
    case (with_weth w e e')
    show ?case
      using weth_evolves_inv [OF with_weth(1) _ assms(3-5) _ assms(6)] with_weth(2) by (simp add: weth_voting_def)
  qed simp
qed (use assms(2) in simp)

lemma eth_deployed_blank:
  assumes "eth_deployed K Z m" and "initializer_law Z init"
  shows "init (oz_state m)" and "supportedPairs m = (\<lambda>_. 0)" and "eth_events m = []"
  using assms(1) initializer_lawD(1) [OF assms(2)]
  by (auto simp: eth_deployed_def initialize_most_def result_elims blank_most_def)

lemma weth_inv_deployed:
  assumes "eth_deployed K Z (emost u)" and "initializer_law Z init" and "wethAddress (emost u) = W"
    and "safe_for W B (ether_of u)" and "t \<noteq> 0"
  shows "weth_inv K init D t T W B 0 u"
  using eth_deployed_blank [OF assms(1,2)] assms(3-5) by (simp add: weth_inv_def locked_total_def)

text \<open>A payout the bridge can cover does not fail in WETH.\<close>

lemma withdraw_succeeds:
  assumes "weth_inv K init D t T W B n u" and "unat a \<le> weth_held B u" and "B \<noteq> W"
  shows "withdraw W (takes_ether W B others u) B a (ether_of u) \<noteq> None"
proof -
  have "solvent W (ether_of u)" "wethAddress (emost u) = W" using weth_invD(2,3) [OF assms(1)] by simp_all
  moreover have "unat a \<le> weth_total (weth (ether_of u))"
    using assms(2) balance_le_total [of "weth (ether_of u)" B] by (simp add: weth_held_def)
  ultimately show ?thesis
    using assms(2)
    by (auto simp: withdraw_def pay_def Let_def solvent_def weth_held_def takes_ether_def receive_ether_def require_def
        word_le_nat_alt split: option.splits)
qed

end
