(* ===== verification/Sample_Bridge.thy ===== *)
theory Sample_Bridge
  imports Most_Properties Sample_Eth Bridge_Collateral
begin

text \<open>
  Sample runs of both chains, with one dishonest guardian on each side: a user announces a request on
  Ethereum, the guardians 1 and 2 execute it on Aleph Zero, a user announces one there, and 11 and 12 execute
  it on Ethereum.  In the first run the token on Ethereum is an ordinary one, in the second it is WETH.
\<close>

section \<open>Aleph Zero\<close>

definition sent_chain :: "ledger chain" where
  "sent_chain = sample_tx 50 500 (SendRequest 7 30 99) done_chain"

lemma sent_chain_eval:
  "bridge sent_chain = (bridge done_chain)\<lparr>data_cell := Some (sample_data\<lparr>d_request_nonce := 1, d_is_halted := False\<rparr>),
     collected_committee_rewards := [0 \<mapsto> 300],
     most_events := most_events (bridge done_chain) @ [CrosschainTransferRequest 0 77 30 99 0]\<rparr>"
  "token_supply ledger_lib 7 sent_chain = 500"
  by (simp_all add: sent_chain_def send_defs run_defs callee_env_def sample_defs done_chain_def voted_chain_def minted_token_def
      token_supply_def token_total_supply_def)

lemma sent_chain_views:
  "CrosschainTransferRequest 0 77 30 99 0 \<in> set (most_events (bridge sent_chain))"
  "processed_requests (bridge sent_chain) = [112 \<mapsto> ()]" "signature_thresholds (bridge sent_chain) = [0 \<mapsto> 2]"
  by (simp_all add: sent_chain_eval done_chain_def voted_chain_def on_bridge_def sample_defs)

lemma sample_eth_keccak: "eth_keccak sample_eth = sample_keccak"
  by (simp add: sample_eth_def)

lemma ledger_laws: "psp22_laws ledger_lib"
  using ledger_mint_law ledger_burn_law ledger_transfer_from_law
  by (auto simp: psp22_laws_def psp22_transfer_law_def ledger_lib_def ledger_move_def split: if_splits option.splits)

abbreviation sample_minted :: "azero_transfer set" where
  "sample_minted \<equiv> {(0, 7, 30, 60, 0)}"

abbreviation sample_released :: "eth_transfer set" where
  "sample_released \<equiv> {(0, 77, 30, 99, 0)}"

abbreviation sample_supply ::
  "ledger chain \<times> (oz, 'x) eth_world \<Rightarrow> ledger chain \<times> (oz, 'x) eth_world \<Rightarrow> bool" where
  "sample_supply \<equiv> supply_step sample_eth sample_signed sample_oz ledger_lib {3} {13} sample_minted 7 77"

lemma sample_azero_votes:
  assumes "Eth_CrosschainTransferRequest 0 7 30 60 0 \<in> set (eth_events m)"
  shows "azero_voting sample_eth {3} m env vote_msg"
proof -
  have hash: "eth_keccak sample_eth (eth_request_bytes 0 7 30 60 0) = 112"
    by (simp add: sample_eth_keccak eth_request_bytes_eq sample_keccak_def length_request_data)
  have narrow: "as_u128 sample_eth 0 = Some 0" "as_u128 sample_eth 30 = Some 30" by (simp_all add: sample_eth_def)
  have "relayer_vote_azero sample_eth m vote_msg"
    unfolding relayer_vote_azero_def vote_msg_def
    by (rule exI [of _ 0], rule exI [of _ 7], rule exI [of _ 30], rule exI [of _ 60], rule exI [of _ 0],
        rule exI [of _ 0], rule exI [of _ 30], rule exI [of _ 0]) (simp add: hash narrow assms)
  then show ?thesis by (simp add: azero_voting_def)
qed

lemma sample_supply_tx:
  assumes "(\<lambda>w w'. sample_supply (w, e) (w', e))\<^sup>*\<^sup>* s w" and "id_headroom (bridge w)"
    and "azero_voting sample_eth {3} (emost e) (sample_env who v) msg" and "orderly sample_minted 7 77 (sample_env who v) msg"
  shows "(\<lambda>w w'. sample_supply (w, e) (w', e))\<^sup>*\<^sup>* s (sample_tx who v msg w)"
  using assms(1) supply_step.transaction [OF assms(2-4), of sample_signed sample_oz ledger_lib "{13}" sample_runtime]
  unfolding sample_tx_def sample_eth_keccak by (rule rtranclp.rtrancl_into_rtrancl)

lemma sample_azero_run:
  assumes "Eth_CrosschainTransferRequest 0 7 30 60 0 \<in> set (eth_events (emost e))"
  shows "(\<lambda>w w'. sample_supply (w, e) (w', e))\<^sup>*\<^sup>* sample_chain sent_chain"
proof -
  let ?runs = "(\<lambda>w w'. sample_supply (w, e) (w', e))\<^sup>*\<^sup>*"
  have quiet: "azero_voting sample_eth {3} (emost e) env msg" if "\<And>h c t a r n. msg \<noteq> ReceiveRequest h c t a r n" for env msg
    using that by (simp add: azero_voting_def)
  have fine: "orderly sample_minted 7 77 (sample_env who v) msg"
    if "who \<noteq> 1000" "msg \<in> {AddPair 7 77, SetHalted False, vote_msg, SendRequest 7 30 99}" for who v msg
    using that by (auto simp: orderly_def sample_env_def vote_msg_def)
  have head: "id_headroom (bridge sample_chain)" "id_headroom (bridge (sample_tx 100 0 (AddPair 7 77) sample_chain))"
    by (simp_all add: id_headroom_def sample_tx_def most_tx_def add_pair_def owner_only_def ensure_owner_def
        ensure_halted_def is_halted_def read_data_def read_ownable_data_def ownable_ensure_owner_def
        on_bridge_def token_minter_def sample_defs)
  have "?runs sample_chain (sample_tx 100 0 (AddPair 7 77) sample_chain)"
    by (rule sample_supply_tx [OF rtranclp.rtrancl_refl head(1)]) (simp_all add: quiet fine)
  then have "?runs sample_chain (sample_tx 100 0 (SetHalted False) (sample_tx 100 0 (AddPair 7 77) sample_chain))"
    by (rule sample_supply_tx [OF _ head(2)]) (simp_all add: quiet fine)
  then have "?runs sample_chain open_chain" by (simp add: sample_tx_def open_chain_txs)
  from sample_supply_tx [OF this sample_headroom(1) sample_azero_votes [OF assms], of 1 0]
  have "?runs sample_chain voted_chain" by (simp add: first_vote fine)
  from sample_supply_tx [OF this sample_headroom(2) sample_azero_votes [OF assms], of 2 0]
  have "?runs sample_chain done_chain" by (simp add: second_vote fine)
  from sample_supply_tx [OF this sample_headroom(3) quiet fine, of "SendRequest 7 30 99" 50 500] show ?thesis
    by (simp add: sent_chain_def)
qed

lemma steps_beside:
  assumes "(\<lambda>w w'. step (w, e) (w', e))\<^sup>*\<^sup>* w w'"
  shows "step\<^sup>*\<^sup>* (w, e) (w', e)"
  using assms by (induction rule: rtranclp_induct) auto

section \<open>An ordinary token\<close>

lemma sample_eth_votes: "eth_voting sample_eth sample_signed {13} (bridge sent_chain) env (ReceiveRequest_Eth 160 0 77 30 99 0)"
proof -
  have "abi_law sample_signed" by (simp add: abi_law_def sample_signed_def)
  then have "ReceiveRequest_Eth 160 0 77 30 99 0 = call_message (azero_vote_call sample_eth sample_signed sample_config 0 azero_request 0)"
    by (simp add: call_message_widened sample_eth_keccak widened_vote_def azero_request_hash) (simp add: azero_request_def)
  moreover have "CrosschainTransferRequest (tr_committee_id azero_request) (tr_dest_token_address azero_request)
      (tr_amount azero_request) (tr_dest_receiver_address azero_request) (tr_request_nonce azero_request)
      \<in> set (most_events (bridge sent_chain))"
    using sent_chain_views(1) by (simp add: azero_request_def)
  ultimately have "relayer_vote_eth sample_eth sample_signed (bridge sent_chain) (ReceiveRequest_Eth 160 0 77 30 99 0)"
    unfolding relayer_vote_eth_def by blast
  then show ?thesis by (simp add: eth_voting_def genuine_vote_def)
qed

lemma sample_supply_eth:
  assumes "sample_supply\<^sup>*\<^sup>* s (w, e)"
    and "eth_evolves sample_keccak sample_oz (eth_voting sample_eth sample_signed {13} (bridge w)) e e'"
  shows "sample_supply\<^sup>*\<^sup>* s (w, e')"
  using rtranclp.rtrancl_into_rtrancl [OF assms(1) supply_step.on_ethereum] assms(2) by (simp add: sample_eth_keccak)

lemma sample_supply_run: "sample_supply\<^sup>*\<^sup>* (sample_chain, in_world eth_new) (sent_chain, in_world (eth_paid (eth_half eth_sent)))"
proof -
  have announced: "sample_supply\<^sup>*\<^sup>* (sample_chain, in_world eth_new) (sample_chain, in_world eth_sent)"
    by (rule sample_supply_eth [OF rtranclp.rtrancl_refl eth_sent_evolves(2)]) (simp add: eth_voting_def genuine_vote_def)
  have crossed: "sample_supply\<^sup>*\<^sup>* (sample_chain, in_world eth_sent) (sent_chain, in_world eth_sent)"
    by (rule steps_beside [OF sample_azero_run]) (simp add: eth_sent_def)
  show ?thesis
    by (rule sample_supply_eth [OF rtranclp_trans [OF announced crossed]])
       (rule sample_eth_step [OF sample_eth_step [OF eth_evolves.still eth_votes(1)] eth_votes(2)], simp_all add: sample_eth_votes)
qed

lemma sample_both_deployed: "both_deployed (eth_keccak sample_eth) sample_oz (sample_chain, in_world eth_new)"
  unfolding both_deployed_def sample_eth_keccak
  using eth_new_deployed sample_deployed by (fastforce simp: sample_chain_def)

section \<open>WETH\<close>

text \<open>
  WETH is at 77, its key is paired with the token 7, and the user 50 has 100 wei.  After the payout the
  receiver 99 has the 30 wei that were sent with the request.
\<close>

definition weth_new :: "oz eth_most" where
  "weth_new = eth_new\<lparr>wethAddress := 77\<rparr>"

definition weth_open :: "oz eth_most" where
  "weth_open = eth_open\<lparr>wethAddress := 77, supportedPairs := (\<lambda>_. 0)(77 := 7)\<rparr>"

definition weth_sent :: "oz eth_most" where
  "weth_sent = weth_open\<lparr>requestNonce := 1, eth_events := [Eth_CrosschainTransferRequest 0 7 30 60 0]\<rparr>"

definition no_weth :: weth9 where
  "no_weth = \<lparr>balanceOf = (\<lambda>_. 0), weth_allowance = (\<lambda>_ _. 0), weth_events = []\<rparr>"

definition ether_start :: ether_world where
  "ether_start = \<lparr>weth = no_weth, ether = (\<lambda>_. 0)(50 := 100)\<rparr>"

definition ether_locked :: ether_world where
  "ether_locked = \<lparr>weth = no_weth\<lparr>balanceOf := (\<lambda>_. 0)(1000 := 30), weth_events := [Weth_Deposit 1000 30]\<rparr>,
     ether = (\<lambda>_. 0)(50 := 70, 77 := 30)\<rparr>"

definition ether_paid :: ether_world where
  "ether_paid = \<lparr>weth = no_weth\<lparr>weth_events := [Weth_Deposit 1000 30, Weth_Withdrawal 1000 30]\<rparr>,
     ether = (\<lambda>_. 0)(50 := 70, 99 := 30)\<rparr>"

definition with_ether :: "oz eth_most \<Rightarrow> ether_world \<Rightarrow> (oz, ether_world \<times> unit) eth_world" where
  "with_ether m x = \<lparr>emost = m, outside = (x, ())\<rparr>"

definition sample_weth_evm :: "(oz, ether_world \<times> unit) evm" where
  "sample_weth_evm = \<lparr>external_call = (\<lambda>c u.
     map_option (\<lambda>x. ([], set_ether x u))
       (if callee c = 77 then weth_call 77 (takes_ether 77 1000 (\<lambda>_. True) u) 1000 (call_value c) (weth_request c) (ether_of u)
        else pay 1000 (callee c) (call_value c) (ether_of u))), code_length = (\<lambda>_ _. 1)\<rparr>"

definition eth_paying :: "eth_address \<Rightarrow> u256 \<Rightarrow> eth_env" where
  "eth_paying who v = \<lparr>msg_sender = who, msg_value = v, this_address = 1000\<rparr>"

lemma with_ether_simps [simp]:
  "emost (with_ether m x) = m" "ether_of (with_ether m x) = x" "set_ether y (with_ether m x) = with_ether m y"
  "on_most f (with_ether m x) = with_ether (f m) x" "emit_eth e (with_ether m x) = with_ether (log_event e m) x"
  by (simp_all add: with_ether_def set_ether_def on_most_def emit_eth_def log_event_def)

abbreviation sample_weth_evolves ::
  "(eth_env \<Rightarrow> eth_msg \<Rightarrow> bool) \<Rightarrow> (oz, ether_world \<times> unit) eth_world \<Rightarrow> (oz, ether_world \<times> unit) eth_world \<Rightarrow> bool" where
  "sample_weth_evolves G \<equiv> weth_evolves sample_keccak sample_oz G 77 1000 (\<lambda>_. True)"

lemma sample_weth_step:
  assumes "sample_weth_evolves G w (with_ether m x)" and "G (eth_paying who v) msg" and "pay who 1000 v x = Some y"
    and "eth_dispatch sample_keccak sample_oz sample_weth_evm (eth_paying who v) msg (with_ether m y) = Ok u"
  shows "sample_weth_evolves G w u"
proof (rule weth_evolves.message [OF assms(1), where env = "eth_paying who v" and msg = msg and x = y and X = sample_weth_evm])
  show "\<forall>c u data u'. external_call sample_weth_evm c u = Some (data, u') \<longrightarrow>
      (callee c = 77 \<longrightarrow> weth_answers 77 1000 (\<lambda>_. True) c u u') \<and>
      (callee c \<noteq> 77 \<longrightarrow> (\<exists>y. pay 1000 (callee c) (call_value c) (ether_of u) = Some y \<and> sample_weth_evolves G (set_ether y u) u'))"
    by (auto simp: sample_weth_evm_def weth_answers_def weth_evolves.still)
qed (use assms in \<open>simp_all add: eth_paying_def\<close>)

lemmas weth_sample_defs = eth_paying_def sample_weth_evm_def weth_new_def weth_open_def weth_sent_def no_weth_def
  ether_start_def ether_locked_def ether_paid_def weth_call_def withdraw_def deposit_def emit_weth_def pay_def takes_ether_def
  receive_ether_def eth_new_def eth_open_def sample_oz_def

lemma pay_nothing: "pay a b 0 x = Some x"
  by (simp add: pay_def Let_def)

lemma weth_messages:
  "eth_dispatch sample_keccak sample_oz sample_weth_evm (eth_paying 100 0) (AddPair_Eth 77 7) (with_ether weth_new ether_start) =
     Ok (with_ether (weth_new\<lparr>supportedPairs := (\<lambda>_. 0)(77 := 7)\<rparr>) ether_start)"
  "eth_dispatch sample_keccak sample_oz sample_weth_evm (eth_paying 100 0) Unpause_Eth
     (with_ether (weth_new\<lparr>supportedPairs := (\<lambda>_. 0)(77 := 7)\<rparr>) ether_start) = Ok (with_ether weth_open ether_start)"
  by (simp_all add: eth_run_defs addPair_def unpause_most_def on_oz_def weth_sample_defs)

lemma weth_sends:
  "eth_dispatch sample_keccak sample_oz sample_weth_evm (eth_paying 50 30) (SendRequestNative 60)
     (with_ether weth_open (ether_start\<lparr>ether := (\<lambda>_. 0)(50 := 70, 1000 := 30)\<rparr>)) = Ok (with_ether weth_sent ether_locked)"
  by (simp add: eth_run_defs sendRequestNative_def announce_def addressToBytes32_def Let_def log_event_def
      weth_sample_defs) (simp add: with_ether_def fun_eq_iff)

lemma weth_votes:
  "eth_dispatch sample_keccak sample_oz sample_weth_evm (eth_paying 11 0) (ReceiveRequest_Eth 160 0 77 30 99 0)
     (with_ether weth_sent ether_locked) = Ok (with_ether (eth_half weth_sent) ether_locked)"
  "eth_dispatch sample_keccak sample_oz sample_weth_evm (eth_paying 12 0) (ReceiveRequest_Eth 160 0 77 30 99 0)
     (with_ether (eth_half weth_sent) ether_locked) = Ok (with_ether (eth_paid (eth_half weth_sent)) ether_paid)"
proof -
  show "eth_dispatch sample_keccak sample_oz sample_weth_evm (eth_paying 11 0) (ReceiveRequest_Eth 160 0 77 30 99 0)
     (with_ether weth_sent ether_locked) = Ok (with_ether (eth_half weth_sent) ether_locked)"
    by (simp add: eth_run_defs receiveRequest_vote hasSignedRequest_def sample_member_id eth_half_def weth_sample_defs)
  have "\<not> processedRequests (eth_half weth_sent) 160" "\<not> hasSignedRequest 12 160 (eth_half weth_sent)"
    by (simp_all add: eth_half_def voted_def hasSignedRequest_def weth_sample_defs)
  then show "eth_dispatch sample_keccak sample_oz sample_weth_evm (eth_paying 12 0) (ReceiveRequest_Eth 160 0 77 30 99 0)
     (with_ether (eth_half weth_sent) ether_locked) = Ok (with_ether (eth_paid (eth_half weth_sent)) ether_paid)"
    by (simp add: eth_run_defs receiveRequest_vote sample_member_id eth_half_def eth_paid_def return_locked_def
        bytes32ToAddress_def voted_def settled_def log_event_def Let_def weth_sample_defs)
       (simp add: with_ether_def fun_eq_iff)
qed

lemma weth_new_deployed: "eth_deployed sample_keccak sample_oz weth_new"
proof -
  have "initialize_most sample_keccak sample_oz (eth_at 100) [11, 12, 13] 2 100 77
      (blank_most \<lparr>oz_owner = 0, oz_pending = 0, oz_paused = False, oz_initialized = False\<rparr>) = Ok weth_new"
    by (simp add: initialize_most_def setCommittee_internal_def require_def sample_oz_def blank_most_def sample_member_id
        weth_new_def eth_new_def Let_def)
  then show ?thesis unfolding eth_deployed_def by blast
qed

lemma ether_start_safe: "safe_for 77 1000 ether_start"
proof -
  have "(\<Sum>a\<in>UNIV. ((\<lambda>_ :: eth_address. 0)(50 := 100 :: nat)) a) = 100"
    using sum_update [of "\<lambda>_ :: eth_address. 0" 50 100] by simp
  then show ?thesis by (simp add: safe_for_def solvent_def ether_start_def no_weth_def weth_total_def)
qed

lemma weth_sent_run:
  assumes "\<And>who v msg. msg \<in> {AddPair_Eth 77 7, Unpause_Eth, SendRequestNative 60} \<Longrightarrow> who \<in> {100, 50} \<Longrightarrow> G (eth_paying who v) msg"
  shows "sample_weth_evolves G (with_ether weth_new ether_start) (with_ether weth_sent ether_locked)"
proof -
  have "sample_weth_evolves G (with_ether weth_new ether_start)
      (with_ether (weth_new\<lparr>supportedPairs := (\<lambda>_. 0)(77 := 7)\<rparr>) ether_start)"
    by (rule sample_weth_step [OF weth_evolves.still _ pay_nothing weth_messages(1)]) (simp add: assms)
  then have opened: "sample_weth_evolves G (with_ether weth_new ether_start) (with_ether weth_open ether_start)"
    by (rule sample_weth_step [OF _ _ pay_nothing weth_messages(2)]) (simp add: assms)
  have "pay 50 1000 30 ether_start = Some (ether_start\<lparr>ether := (\<lambda>_. 0)(50 := 70, 1000 := 30)\<rparr>)"
    by (simp add: pay_def ether_start_def)
  from sample_weth_step [OF opened _ this weth_sends] show ?thesis by (simp add: assms)
qed

lemma weth_paid_run:
  assumes "\<And>who. who \<in> {11, 12} \<Longrightarrow> G (eth_paying who 0) (ReceiveRequest_Eth 160 0 77 30 99 0)"
  shows "sample_weth_evolves G (with_ether weth_sent ether_locked) (with_ether (eth_paid (eth_half weth_sent)) ether_paid)"
proof -
  have "sample_weth_evolves G (with_ether weth_sent ether_locked) (with_ether (eth_half weth_sent) ether_locked)"
    by (rule sample_weth_step [OF weth_evolves.still _ pay_nothing weth_votes(1)]) (simp add: assms)
  then show ?thesis by (rule sample_weth_step [OF _ _ pay_nothing weth_votes(2)]) (simp add: assms)
qed

abbreviation sample_collateral ::
  "ledger chain \<times> (oz, ether_world \<times> unit) eth_world \<Rightarrow> ledger chain \<times> (oz, ether_world \<times> unit) eth_world \<Rightarrow> bool" where
  "sample_collateral \<equiv> collateral_step sample_eth sample_signed sample_oz ledger_lib {3} {13} sample_minted sample_released 7 77
     77 1000 (\<lambda>_. True)"

lemma sample_collateral_run:
  "sample_collateral\<^sup>*\<^sup>* (sample_chain, with_ether weth_new ether_start)
     (sent_chain, with_ether (eth_paid (eth_half weth_sent)) ether_paid)"
proof -
  have orderly: "orderly_eth sample_released 7 77 77 1000 (eth_paying who v) msg"
    if "who \<in> {100, 50, 11, 12}" "msg \<in> {AddPair_Eth 77 7, Unpause_Eth, SendRequestNative 60, ReceiveRequest_Eth 160 0 77 30 99 0}"
    for who v msg
    using that by (auto simp: orderly_eth_def eth_paying_def)
  have "sample_collateral (sample_chain, with_ether weth_new ether_start) (sample_chain, with_ether weth_sent ether_locked)"
    by (rule collateral_step.with_weth, unfold sample_eth_keccak, rule weth_sent_run)
       (auto simp: weth_voting_def eth_voting_def genuine_vote_def orderly)
  moreover have "(\<lambda>w w'. sample_supply (w, with_ether weth_sent ether_locked) (w', with_ether weth_sent ether_locked))\<^sup>*\<^sup>* sample_chain sent_chain"
    by (rule sample_azero_run) (simp add: weth_sent_def)
  then have "(\<lambda>w w'. sample_collateral (w, with_ether weth_sent ether_locked) (w', with_ether weth_sent ether_locked))\<^sup>*\<^sup>* sample_chain sent_chain"
    by (rule rtranclp_mono [THEN predicate2D, rotated]) (blast intro: collateral_step.on_azero)
  then have "sample_collateral\<^sup>*\<^sup>* (sample_chain, with_ether weth_sent ether_locked) (sent_chain, with_ether weth_sent ether_locked)"
    by (rule steps_beside)
  moreover have "sample_collateral (sent_chain, with_ether weth_sent ether_locked)
      (sent_chain, with_ether (eth_paid (eth_half weth_sent)) ether_paid)"
    by (rule collateral_step.with_weth, unfold sample_eth_keccak, rule weth_paid_run)
       (auto simp: weth_voting_def sample_eth_votes orderly)
  ultimately show ?thesis by (rule converse_rtranclp_into_rtranclp [OF _ rtranclp.rtrancl_into_rtrancl])
qed

section \<open>What occurs in the runs\<close>

lemma sample_eth_entries:
  assumes "eth_events m = [Eth_CrosschainTransferRequest 0 7 30 60 0]"
  shows "\<forall>y. eth_entry y \<in> set (eth_events (eth_paid (eth_half m))) \<longrightarrow> y \<in> sample_minted"
proof -
  have "(ucast x :: u256) = 0 \<longleftrightarrow> x = 0" "(ucast x :: u256) = 30 \<longleftrightarrow> x = 30" for x :: u128
    using ucast_u256(2) [of x 0] ucast_u256(2) [of x 30] by simp_all
  then show ?thesis using assms by (auto simp: eth_entry_def eth_paid_def eth_half_def voted_def settled_def log_event_def)
qed

lemma sample_azero_entries: "\<forall>y. azero_entry y \<in> set (most_events (bridge sent_chain)) \<longrightarrow> widened y \<in> sample_released"
  by (auto simp: azero_entry_def widened_def sent_chain_eval done_chain_def voted_chain_def on_bridge_def sample_defs)

lemma sample_thresholds:
  "\<forall>c q. signature_thresholds (bridge sent_chain) c = Some q \<longrightarrow> card {3 :: account_id} < unat q"
  "m = eth_sent \<or> m = weth_sent \<Longrightarrow> \<forall>c \<le> committeeId (eth_paid (eth_half m)).
     card {13 :: eth_address} < unat (signatureThreshold (eth_paid (eth_half m)) c)"
  by (auto simp: sent_chain_views eth_paid_def eth_half_def eth_sent_def weth_sent_def weth_open_def eth_open_def eth_new_def)

lemma sample_abi: "abi_law sample_signed"
  by (simp add: abi_law_def sample_signed_def)

end
