(* ===== verification/Advisory_Contract.thy ===== *)
theory Advisory_Contract
  imports Bridge_Prelude
begin

text \<open>
  The advisory contract (\<^verbatim>\<open>azero/contracts/advisory\<close>), whose flag pauses the relayers, and the
  migrations contract (\<^verbatim>\<open>azero/contracts/migrations\<close>), which records how far a deployment got.
  Both have a single owner account that is replaced or fixed without a second step.
\<close>

section \<open>Advisory\<close>

datatype advisory_error = Advisory_InkEnvError string | NotOwner account_id

datatype advisory_event =
    EmergencyChanged bool bool account_id
  | OwnershipTransferred account_id account_id

record advisory =
  advisory_owner :: account_id
  emergency :: bool
  advisory_events :: "advisory_event list"

definition advisory_new :: "account_id \<Rightarrow> advisory" where
  "advisory_new owner_account =
     \<lparr>advisory_owner = owner_account, emergency = False, advisory_events = []\<rparr>"

definition advisory_ensure_owner :: "call_env \<Rightarrow> advisory \<Rightarrow> (unit, advisory_error) result" where
  "advisory_ensure_owner env a =
     (case caller env = advisory_owner a of
        True \<Rightarrow> Ok ()
      | False \<Rightarrow> Err (NotOwner (caller env)))"

definition advisory_set_emergency ::
  "call_env \<Rightarrow> bool \<Rightarrow> advisory \<Rightarrow> (advisory, advisory_error) result" where
  "advisory_set_emergency env new_state a =
     try_res (advisory_ensure_owner env a) (\<lambda>_.
       if new_state \<noteq> emergency a then
         Ok (a\<lparr>advisory_events := advisory_events a @
                 [EmergencyChanged (emergency a) new_state (caller env)],
               emergency := new_state\<rparr>)
       else Ok a)"

definition advisory_is_emergency :: "advisory \<Rightarrow> bool" where
  "advisory_is_emergency a = emergency a"

definition advisory_transfer_ownership ::
  "call_env \<Rightarrow> account_id \<Rightarrow> advisory \<Rightarrow> (advisory, advisory_error) result" where
  "advisory_transfer_ownership env new_owner a =
     try_res (advisory_ensure_owner env a) (\<lambda>_.
       Ok (a\<lparr>advisory_events := advisory_events a @ [OwnershipTransferred (advisory_owner a) new_owner],
             advisory_owner := new_owner\<rparr>))"

definition advisory_get_owner :: "advisory \<Rightarrow> account_id" where
  "advisory_get_owner a = advisory_owner a"

lemma advisory_ensure_owner_Ok [result_elims]:
  "advisory_ensure_owner env a = Ok u \<longleftrightarrow> caller env = advisory_owner a"
  by (auto simp: advisory_ensure_owner_def split: bool.splits)

text \<open>The flag as the event log tells it: the state the last change announced.\<close>

fun last_emergency :: "bool \<Rightarrow> advisory_event list \<Rightarrow> bool" where
  "last_emergency b [] = b"
| "last_emergency b (EmergencyChanged old new c # evs) = last_emergency new evs"
| "last_emergency b (OwnershipTransferred p n # evs) = last_emergency b evs"

lemma last_emergency_append:
  "last_emergency b (xs @ ys) = last_emergency (last_emergency b xs) ys"
  by (induction b xs rule: last_emergency.induct) auto

definition advisory_log_inv :: "advisory \<Rightarrow> bool" where
  "advisory_log_inv a \<longleftrightarrow> emergency a = last_emergency False (advisory_events a)"

lemma advisory_log_inv_new: "advisory_log_inv (advisory_new a)"
  by (simp add: advisory_log_inv_def advisory_new_def)

lemma advisory_log_inv_set_emergency:
  "advisory_log_inv a \<Longrightarrow> advisory_set_emergency env b a = Ok a' \<Longrightarrow>
     advisory_log_inv a' \<and> emergency a' = b"
  by (auto simp: advisory_log_inv_def advisory_set_emergency_def last_emergency_append result_elims
      split: if_splits)

lemma advisory_log_inv_transfer:
  "advisory_log_inv a \<Longrightarrow> advisory_transfer_ownership env n a = Ok a' \<Longrightarrow>
     advisory_log_inv a' \<and> emergency a' = emergency a"
  by (auto simp: advisory_log_inv_def advisory_transfer_ownership_def last_emergency_append
      result_elims)

datatype advisory_msg = SetEmergency bool | AdvisoryTransferOwnership account_id

definition advisory_call :: "call_env \<times> advisory_msg \<Rightarrow> advisory \<Rightarrow> advisory" where
  "advisory_call c a = commit a (case snd c of
      SetEmergency b \<Rightarrow> advisory_set_emergency (fst c) b a
    | AdvisoryTransferOwnership n \<Rightarrow> advisory_transfer_ownership (fst c) n a)"

lemma advisory_call_inv: "advisory_log_inv a \<Longrightarrow> advisory_log_inv (advisory_call c a)"
  unfolding advisory_call_def
  by (rule commit_preserves, assumption)
    (auto split: advisory_msg.splits dest: advisory_log_inv_set_emergency advisory_log_inv_transfer)

lemma advisory_calls_inv: "advisory_log_inv a \<Longrightarrow> advisory_log_inv (fold advisory_call cs a)"
  by (induction cs arbitrary: a) (simp_all add: advisory_call_inv)

section \<open>Migrations\<close>

datatype migrations_error =
    Migrations_InkEnvError string
  | Migrations_CallerNotOwner account_id

record migrations =
  last_completed_migration :: u32
  migrations_owner :: account_id

definition migrations_new :: "account_id \<Rightarrow> migrations" where
  "migrations_new owner_account =
     \<lparr>last_completed_migration = 0, migrations_owner = owner_account\<rparr>"

definition migrations_ensure_owner ::
  "call_env \<Rightarrow> migrations \<Rightarrow> (unit, migrations_error) result" where
  "migrations_ensure_owner env m =
     (if caller env \<noteq> migrations_owner m then Err (Migrations_CallerNotOwner (caller env))
      else Ok ())"

definition migrations_set_completed ::
  "call_env \<Rightarrow> u32 \<Rightarrow> migrations \<Rightarrow> (migrations, migrations_error) result" where
  "migrations_set_completed env completed m =
     try_res (migrations_ensure_owner env m) (\<lambda>_.
       Ok (m\<lparr>last_completed_migration := completed\<rparr>))"

definition migrations_last_completed :: "migrations \<Rightarrow> u32" where
  "migrations_last_completed m = last_completed_migration m"

text \<open>\<^verbatim>\<open>own_code_hash\<close> is a host function: its answer is an argument.\<close>

definition migrations_code_hash ::
  "(bytes32, ink_env_error) result \<Rightarrow> migrations \<Rightarrow> (bytes32, migrations_error) result" where
  "migrations_code_hash own_code_hash m = map_err Migrations_InkEnvError own_code_hash"

lemma migrations_set_completed_eq:
  "migrations_set_completed env n m =
     (if caller env = migrations_owner m then Ok (m\<lparr>last_completed_migration := n\<rparr>)
      else Err (Migrations_CallerNotOwner (caller env)))"
  by (simp add: migrations_set_completed_def migrations_ensure_owner_def)

end
