(* ===== verification/Signer_Tester.thy ===== *)
theory Signer_Tester
  imports Connections
begin

text \<open>
  The tool \<^verbatim>\<open>relayer/signer_tester\<close>: it connects to a signer, asks for both accounts and prints them.
  Every \<^verbatim>\<open>expect\<close> is a panic.
\<close>

record tester_arguments =
  tester_cid :: u32
  tester_port :: u32

definition default_tester_arguments :: tester_arguments where
  "default_tester_arguments = \<lparr>tester_cid = 2, tester_port = 1234\<rparr>"

fun expect :: "('a, 'e) result \<Rightarrow> ('a, 'f) result" where
  "expect (Ok a) = Ok a"
| "expect (Err e) = Panic"
| "expect Panic = Panic"

text \<open>The two lines that are printed, as the values they show.\<close>

definition signer_tester_main ::
  "(u32 \<Rightarrow> u32 \<Rightarrow> ('s, string) result) \<Rightarrow> 's frames \<Rightarrow> ('tx, 'asig, 'esig) codec \<Rightarrow> tester_arguments
    \<Rightarrow> (account_id \<times> eth_address, unit) result" where
  "signer_tester_main connect F K args =
     try_res (expect (connect (tester_cid args) (tester_port args))) (\<lambda>client.
       case azero_account_id F K client of (r, client1) \<Rightarrow>
       try_res (expect r) (\<lambda>account_id.
         case eth_address_request F K client1 of (r, client2) \<Rightarrow>
         try_res (expect r) (\<lambda>address. Ok (account_id, address))))"

lemma expect_Ok [result_elims]: "expect r = Ok a \<longleftrightarrow> r = Ok a"
  by (cases r) simp_all

lemma expect_not_Err [simp]: "expect r \<noteq> Err e"
  by (cases r) simp_all

text \<open>Against a signer, the tool prints the two accounts of the keys the server holds.\<close>

lemma signer_tester_prints_keys:
  assumes "codec_law K strip" and "connect (tester_cid args) (tester_port args) = Ok ([], [])"
  shows "signer_tester_main connect (client_side K keys) K args = Ok (azero_public keys, eth_wallet_address keys)"
proof -
  have "client_request (client_side K keys) K AccountIdAzero ([], []) = (Ok (Resp_AccountIdAzero (azero_public keys)), ([], []))"
    "client_request (client_side K keys) K EthAddress ([], []) = (Ok (Resp_EthAddress (eth_wallet_address keys)), ([], []))"
    using request_served [OF assms(1), of keys AccountIdAzero] request_served [OF assms(1), of keys EthAddress]
    by (simp_all add: serve_command_def)
  then show ?thesis
    by (simp add: signer_tester_main_def assms(2) azero_account_id_def eth_address_request_def and_then_def)
qed

text \<open>Without a connection, or with an answer that is an error, it prints nothing and panics.\<close>

lemma signer_tester_panics:
  "signer_tester_main connect F K args = Panic \<or>
     (\<exists>client account_id client1 address client2. connect (tester_cid args) (tester_port args) = Ok client \<and>
        azero_account_id F K client = (Ok account_id, client1) \<and> eth_address_request F K client1 = (Ok address, client2) \<and>
        signer_tester_main connect F K args = Ok (account_id, address))"
proof (cases "connect (tester_cid args) (tester_port args)")
  case (Ok client)
  obtain r client1 where first: "azero_account_id F K client = (r, client1)" by fastforce
  obtain r' client2 where second: "eth_address_request F K client1 = (r', client2)" by fastforce
  show ?thesis
    using Ok first second by (cases r; cases r') (simp_all add: signer_tester_main_def)
qed (simp_all add: signer_tester_main_def)

end
