(* ===== verification/Eth_Scaffolding.thy ===== *)
theory Eth_Scaffolding
  imports Bridge_Prelude
begin

text \<open>
  The remaining Solidity sources of the repository: \<^verbatim>\<open>Migrations.sol\<close>, which records deployment steps, and the
  test token \<^verbatim>\<open>Token.sol\<close> over the ERC20 contract of OpenZeppelin, which is a parameter.
\<close>

section \<open>Migrations\<close>

record sol_migrations =
  sol_owner :: eth_address
  last_completed_migration :: u256

definition sol_migrations_new :: "eth_address \<Rightarrow> sol_migrations" where
  "sol_migrations_new sender = \<lparr>sol_owner = sender, last_completed_migration = 0\<rparr>"

text \<open>The modifier skips the body for anyone but the owner, and does not revert.\<close>

definition restricted :: "eth_address \<Rightarrow> ('s \<Rightarrow> 's) \<Rightarrow> sol_migrations \<Rightarrow> 's \<Rightarrow> 's" where
  "restricted sender body m s = (if sender = sol_owner m then body s else s)"

definition setCompleted :: "eth_address \<Rightarrow> u256 \<Rightarrow> sol_migrations \<Rightarrow> sol_migrations" where
  "setCompleted sender n m = restricted sender (\<lambda>m. m\<lparr>last_completed_migration := n\<rparr>) m m"

text \<open>\<open>upgrade\<close> at the address \<open>this\<close> calls the new contract, which sees \<open>this\<close> as the sender.\<close>

definition upgrade_migrations ::
  "eth_address \<Rightarrow> eth_address \<Rightarrow> eth_address \<Rightarrow> (eth_address \<Rightarrow> sol_migrations) \<Rightarrow> eth_address \<Rightarrow> sol_migrations" where
  "upgrade_migrations this sender new_address ms =
     restricted sender (\<lambda>ms. ms(new_address := setCompleted this (last_completed_migration (ms this)) (ms new_address))) (ms this) ms"

lemma setCompleted_owner:
  "last_completed_migration (setCompleted sender n m) = (if sender = sol_owner m then n else last_completed_migration m)"
  "sol_owner (setCompleted sender n m) = sol_owner m"
  by (simp_all add: setCompleted_def restricted_def)

text \<open>
  The number is carried over only if the old contract owns the new one.  A contract that was deployed from an
  ordinary account, as the scripts do, does not change.
\<close>

lemma upgrade_carries_over:
  assumes "new_address \<noteq> this"
  shows "last_completed_migration (upgrade_migrations this sender new_address ms new_address) =
    (if sender = sol_owner (ms this) \<and> this = sol_owner (ms new_address)
     then last_completed_migration (ms this) else last_completed_migration (ms new_address))"
  using assms by (simp add: upgrade_migrations_def restricted_def setCompleted_owner)

section \<open>The test token\<close>

record 'e erc20_lib =
  erc20_new :: "string \<Rightarrow> string \<Rightarrow> 'e"
  erc20_mint :: "eth_address \<Rightarrow> u256 \<Rightarrow> 'e \<Rightarrow> 'e option"
  erc20_balance :: "'e \<Rightarrow> eth_address \<Rightarrow> u256"

record 'e sol_token =
  erc20 :: 'e
  sol_decimals :: u8

definition sol_token_new :: "'e erc20_lib \<Rightarrow> eth_address \<Rightarrow> u256 \<Rightarrow> u8 \<Rightarrow> string \<Rightarrow> string \<Rightarrow> 'e sol_token option" where
  "sol_token_new L sender supply0 decimals0 name0 symbol0 =
     map_option (\<lambda>e. \<lparr>erc20 = e, sol_decimals = decimals0\<rparr>) (erc20_mint L sender supply0 (erc20_new L name0 symbol0))"

definition decimals :: "'e sol_token \<Rightarrow> u8" where
  "decimals t = sol_decimals t"

text \<open>The documented effect of \<^verbatim>\<open>_mint\<close>.\<close>

definition erc20_mint_law :: "'e erc20_lib \<Rightarrow> bool" where
  "erc20_mint_law L \<longleftrightarrow> (\<forall>s n a v e. erc20_balance L (erc20_new L s n) a = 0 \<and>
     (erc20_mint L a v (erc20_new L s n) = Some e \<longrightarrow> erc20_balance L e = (\<lambda>_. 0)(a := v)))"

lemma sol_token_new_balances:
  assumes "erc20_mint_law L" and "sol_token_new L sender v d name0 symbol0 = Some t"
  shows "erc20_balance L (erc20 t) = (\<lambda>_. 0)(sender := v)" and "decimals t = d"
  using assms by (auto simp: sol_token_new_def erc20_mint_law_def decimals_def)

end
