(* ===== verification/Spec2Isabelle.thy ===== *)
theory Spec2Isabelle
  imports Most_Properties Eth_Properties Relayer_Properties Sample_Bridge Advisory_Contract Signer_Tester Eth_Scaffolding
begin

text \<open>
  A verification development for the MOST bridge between Aleph Zero and Ethereum: the ink! contracts
  under \<^verbatim>\<open>src/azero/contracts\<close>, the relayer under \<^verbatim>\<open>src/relayer\<close> and the Solidity contracts \<^verbatim>\<open>Most.sol\<close>,
  \<^verbatim>\<open>WETH9.sol\<close>, \<^verbatim>\<open>Migrations.sol\<close> and \<^verbatim>\<open>Token.sol\<close> under \<^verbatim>\<open>src/eth/contracts\<close>.

  \<^bold>\<open>The program.\<close>  A user who wants to move tokens to Ethereum calls \<^verbatim>\<open>send_request\<close> of the bridge
  contract \<^verbatim>\<open>most\<close>, which burns the wrapped tokens and emits \<^verbatim>\<open>CrosschainTransferRequest\<close>.  Every guardian
  runs a relayer, whose Aleph Zero listener reads these events from finalized blocks and votes on
  Ethereum with \<^verbatim>\<open>receiveRequest\<close>; the vote that completes the quorum pays out the locked tokens.  In the other
  direction \<^verbatim>\<open>sendRequest\<close> locks tokens on Ethereum, the Ethereum listener votes with \<^verbatim>\<open>receive_request\<close> on Aleph
  Zero, and the vote that completes the quorum mints the tokens.  The token, the two-step ownership, the gas price
  oracle, the advisory and the migrations contracts serve the bridge; the remote signer holds the keys of
  a relayer.

  \<^bold>\<open>Theories and sources.\<close>
  \<^item> \<open>Bridge_Prelude\<close>: machine integers as words, \<^verbatim>\<open>Result\<close> with panics, \<^verbatim>\<open>?\<close>, checked arithmetic, byte views of
    integers and arrays, the call environment; the collections \<open>result_elims\<close>, \<open>result_errors\<close> and
    \<open>checked_arith\<close>.
  \<^item> \<open>Ownable2Step\<close> (\<^verbatim>\<open>ownable2step/lib.rs\<close>): the ownership data, and the trait as the locale
    \<open>ownable2step\<close>, interpreted by the data itself, the token, the oracle and the bridge.
  \<^item> \<open>Token_Contract\<close> (\<^verbatim>\<open>token/lib.rs\<close>): all messages of the wrapped token over the \<^verbatim>\<open>psp22\<close> crate, which is a
    parameter with named laws; the mint and burn roles as the locale \<open>supply_role\<close>.
  \<^item> \<open>Gas_Oracle\<close>, \<open>Advisory_Contract\<close> (with the migrations contract), \<open>Shared_Hash\<close>: the oracle, the advisory
    contract and the request hash; Keccak-256 is a parameter.
  \<^item> \<open>Most_Contract\<close> (\<^verbatim>\<open>most/lib.rs\<close>): the storage as the record \<open>most\<close>, every message and helper as one
    definition, and the transaction \<open>most_tx\<close>, which reverts on an error or a trap.  \<open>Most_Effects\<close> describes
    what each message does to the storage and gathers it in the relation \<open>bridge_effect\<close>; \<open>Most_Tokens\<close>
    describes what it does to the supply of the tokens;
    \<open>Most_Invariants\<close> proves the invariants of the votes, the event log, the nonces, the committees and the
    rewards for all reachable states; \<open>Most_Properties\<close> states its properties.
  \<^item> \<open>Eth_Most\<close> (\<^verbatim>\<open>eth/contracts/Most.sol\<close>): the storage as the record \<open>eth_most\<close>, every function and modifier as one
    definition, and \<open>eth_dispatch\<close>.  A call to another contract is an argument that may change the whole
    world.  \<open>Eth_Runs\<close> gives the runs \<open>eth_evolves\<close>: transactions of anyone, in which every called contract may in turn
    call any function of the bridge, to any depth; it describes each function by the atomic effects
    \<open>eth_effect\<close>.  \<open>Eth_Invariants\<close> proves the invariants of the votes, the log, the nonces and the committees
    over these runs, \<open>Eth_Properties\<close> states the properties.
  \<^item> \<open>Vote_Ledger\<close>: what either contract promises, as a ledger of votes on which one ballot is cast after the
    other, and the locale \<open>vote_counter\<close> with the argument that a quorum contains an honest guardian.
    \<open>Vote_Refinement\<close> has the abstractions of both contracts onto it and shows that every transaction is a
    sequence of ballots.
  \<^item> \<open>Two_Chains\<close>: both contracts and the messages the relayers build, as the step relation \<open>bridge_step\<close>; both
    contracts are interpretations of \<open>vote_counter\<close>.
  \<^item> \<open>Bridge_Supply\<close>: the amounts locked, minted, burned and released for a pair of tokens, as sums over the logs
    and the executed requests, and the invariant \<open>supply_inv\<close> of the wrapped supply over the steps \<open>supply_step\<close>.
  \<^item> \<open>Weth9\<close> (\<^verbatim>\<open>eth/contracts/WETH9.sol\<close>): the contract with the ether of all accounts; whoever calls it, its
    balances stay backed by ether (\<open>solvent\<close>).  \<open>Weth_Runs\<close> runs it beside the bridge: the calls of the bridge to
    WETH run that code, every other contract is an adversary, and \<open>weth_inv\<close> says that what was locked is held or
    was released.  \<open>Bridge_Collateral\<close> joins this to both chains.  \<open>Eth_Scaffolding\<close> has \<^verbatim>\<open>Migrations.sol\<close> and
    \<^verbatim>\<open>Token.sol\<close>.
  \<^item> \<open>Relayer_Config\<close> (\<^verbatim>\<open>config.rs\<close>, \<^verbatim>\<open>connections/redis_helpers.rs\<close>): the configuration, the parsing of starting
    blocks, the cursors in Redis, and the promise both listeners make of their cursor as the locale \<open>block_cursor\<close>.
  \<^item> \<open>Polling\<close>: the polling loops as the partial function \<open>poll\<close>, with an exact description of when they return, and
    the windows of blocks both listeners walk in.
  \<^item> \<open>Contracts_Azero\<close> (\<^verbatim>\<open>contracts/azero.rs\<close>): the wrappers of the contracts and the decoding of events.
  \<^item> \<open>Eth_Listener\<close> (\<^verbatim>\<open>listeners/eth.rs\<close>): one round of the main loop, the retry loop and the run, with the
    invariant of the cursor over all reachable states.
  \<^item> \<open>Azero_Listener\<close> (\<^verbatim>\<open>listeners/azero.rs\<close>): the operations, and the main loop with the semaphore, one task per
    event and one sealing task per block as the step relation \<open>azero_step\<close>; \<open>Azero_Runs\<close> has its invariants: the
    pending set and its frontier, the permits, the event tasks of every block, the cursor and the relayed events;
    \<open>Azero_Progress\<close> shows that a step is always possible and that every window ends, \<open>Emergency_Stop\<close> how both
    listeners come to rest in an emergency.
  \<^item> \<open>Advisory_Listener\<close> (\<^verbatim>\<open>listeners/advisory.rs\<close>); \<open>Signer\<close> (\<^verbatim>\<open>signer_client\<close> and the command loop of \<^verbatim>\<open>signer\<close>);
    \<open>Signer_Server\<close> (\<^verbatim>\<open>signer\<close>: the server, its accept loop and its concurrent client tasks, over one network, as \<open>server_step\<close>);
    \<open>Connections\<close> (\<^verbatim>\<open>connections/azero.rs\<close>, \<^verbatim>\<open>connections/eth.rs\<close>); \<open>Relayer_Main\<close> (\<^verbatim>\<open>main.rs\<close>); \<open>Signer_Tester\<close>
    (\<^verbatim>\<open>signer_tester\<close>).
  \<^item> \<open>Bridge_Network\<close>: relayers and bridge contract together.  The chain evolves by anyone's transactions, a
    relayer's successful call is one of them, and the invariant \<open>tally\<close> follows the votes of the guardians.
    \<open>Eth_Network\<close> does the same for the contract on Ethereum, with \<open>below_quorum\<close>.  \<open>Halt_Recovery\<close> follows the
    Ethereum listener through the halts of the contract on Aleph Zero.
  \<^item> \<open>Sample_Chain\<close>, \<open>Sample_Relayer\<close>, \<open>Sample_Network\<close>, \<open>Sample_Eth\<close>, \<open>Sample_Bridge\<close>: concrete instances of the
    parameters and runs of them, on which the witnesses are evaluated.
  \<^item> \<open>Relayer_Properties\<close> states the properties of the relayer; in this theory are those that span components.

  \<^bold>\<open>Conventions.\<close>  A message takes its call environment and the state and returns the new state, an error, or
  \<open>Panic\<close>.  The contracts are built without overflow checks and the relayer in release mode, so a plain
  sum wraps, as it does on words; Solidity's own arithmetic is checked.  Third-party code is an argument: the
  token library, the host functions, the OpenZeppelin modules, the contracts called on Ethereum, the client
  libraries of both chains, Redis, the codec and the key libraries; what is relied on is a named hypothesis (\<open>psp22_mint_law\<close>, \<open>redis_law\<close>, \<open>query_law\<close>, \<open>fetch_law\<close>, \<open>narrowing_law\<close>,
  \<open>abi_law\<close>, \<open>codec_law\<close>, \<open>socket_law\<close>, \<open>message_law\<close>, \<open>submission_law\<close>, \<open>halt_read_law\<close>, \<open>initializer_law\<close>, \<open>eth_submission_law\<close>
  and the like), which the sample instances satisfy.  The type \<open>'w\<close> of the relayer theories is the state of the outside world, which every call may move.
  A write to Redis that reports an error is taken to have left the store as it was.

  \<^bold>\<open>What is shown.\<close>  C1 to C3 are the promises of the bridge as a whole: with fewer dishonest guardians than any
  threshold, whatever is executed on one chain was announced on the other with the same values; the supply of
  a wrapped token is covered by what was locked on Ethereum; and wrapped ether, with all that is on its way back,
  is covered by the WETH the bridge holds, so that its payouts do not fail.  C4, C5, C8 (Aleph Zero) and C6, C7
  (Ethereum, with callbacks): a request is executed only with a quorum of distinct committee members, and at
  most once; C13, C14 and C18 refine both contracts to the vote ledger.  C9, C10, C15: executing mints exactly
  what was requested, sending burns or locks exactly what it announces; C16, C17: nonces are consecutive.  C11
  and C12: a quorum of relayers gets a request executed exactly once, in either direction.  C19 to C23 and C33:
  the relayer never moves a cursor past a block whose requests were not all handled, whatever the interleaving
  of its tasks, its main loop is never stuck and every window ends, and the cursor of the Aleph Zero listener is
  exactly the end of the sealed prefix.  C24, C25: the votes of the relayer match what the contracts compute and
  announce.  C26 to C32: rewards within what was collected, fee bounds, well-formed storage, committees, halting,
  and the deviations found on the way (a threshold nobody can reach is accepted, later committees are never
  paid).  C34 to C37: requests that are too large, votes delayed by halts, rest during an emergency, supervision of
  the listeners.  C38 to C40: the remote signer, which answers every client its own commands.  Theorems without a number, on ownership, administration, token
  pairs, the supply role, payouts, hash inputs, the semaphore, polling and the advisory listener, belong to the
  libraries of their components.

  \<^bold>\<open>Bounds.\<close>  Loops that may run for ever are partial functions into \<open>option\<close> (\<open>poll\<close>, \<open>eth_retry_event\<close>,
  \<open>eth_loop\<close>, \<open>wait_for_eth_tx_finality\<close>, \<open>advisory_loop\<close>, \<open>do_handle_client\<close>) or step relations; no fuel is
  used.  The cursor properties assume that the finalized heads stay below a bound \<open>B\<close> with
  \<open>B + sync_step < 2 ^ 32\<close> (\<open>window_room\<close>), since the window arithmetic wraps beyond it.  The runs on Aleph Zero
  assume that committee ids have not reached their last value (\<open>id_headroom\<close>), since they wrap too.  Membership
  on Ethereum is looked up by a hash, so the votes of C1 to C3 and C13 leave out those that use a collision of
  member ids (\<open>genuine_vote\<close>), and C7 names the collision.  C2 and C3 sum over the requests that occur, on which
  Keccak is assumed to be injective.

  \<^bold>\<open>Not modelled.\<close>  The upgrade of the Ethereum contract by \<^verbatim>\<open>upgradeToAndCall\<close> (its authorization is), gas accounting,
  the vendored Gnosis safe, the deployment scripts, logging, sleeping, command-line parsing other than of
  starting blocks, opening of sockets and connections, the generated contract bindings, and the test crates
  (\<^verbatim>\<open>drink-tests\<close>, \<^verbatim>\<open>e2e-tests\<close> and the unit tests), which drive deployed contracts and hold no logic of the program.
\<close>

section \<open>Relayer and bridge contract together\<close>

lemma receive_request_hash_ok:
  "receive_request keccak P R env (hash_request_data keccak c t a r n) c t a r n chain \<noteq> Err HashDoesNotMatchData"
proof -
  have "execute_request P R env h t a r data w \<noteq> Err HashDoesNotMatchData" for h data w
    by (auto simp: execute_request_def result_errors Let_def)
  then show ?thesis
    by (auto simp: receive_request_def result_errors Let_def ensure_not_halted_def is_halted_def
        only_committee_member_def read_data_def split: if_splits bool.splits)
qed

text \<open>
  C24.  The hash the Ethereum listener votes for is the hash the contract on Aleph Zero computes: a
  handled transfer request was submitted with the values of the event, unchanged by the narrowing to
  128 bits, and with a hash for which \<^verbatim>\<open>receive_request\<close>, in any state of the bridge and for any caller,
  does not answer \<^verbatim>\<open>HashDoesNotMatchData\<close>.
\<close>

theorem relayer_vote_matches_contract:
  assumes "eth_handle_event L E cfg (CrosschainTransferRequestFilter committee t amount r nonce) w = (Ok (), w')"
    and "narrowing_law E"
  shows "\<exists>c a n inst info. unat c = unat committee \<and> unat a = unat amount \<and> unat n = unat nonce \<and>
    send_receive_request L inst (hash_request_data (eth_keccak E) c t a r n) c t a r n w = (Ok info, w') \<and>
    (\<forall>(P :: 'd psp22_lib) R env chain.
       receive_request (eth_keccak E) P R env (hash_request_data (eth_keccak E) c t a r n) c t a r n chain
         \<noteq> Err HashDoesNotMatchData)"
proof -
  obtain c a n inst info where vote: "as_u128 E committee = Some c" "as_u128 E amount = Some a" "as_u128 E nonce = Some n"
    "send_receive_request L inst (eth_keccak E (request_data c t a r n)) c t a r n w = (Ok info, w')"
    using eth_handle_event_Ok [OF assms(1)] by metis
  have narrow: "unat y = unat x" if "as_u128 E x = Some y" for x y
    using that assms(2) by (auto simp: narrowing_law_def unsigned_ucast_eq take_bit_nat_eq_self split: if_splits)
  have "send_receive_request L inst (hash_request_data (eth_keccak E) c t a r n) c t a r n w = (Ok info, w')"
    using vote(4) by (simp add: hash_request_data_def keccak256_def)
  with narrow [OF vote(1)] narrow [OF vote(2)] narrow [OF vote(3)] show ?thesis
    using receive_request_hash_ok by blast
qed

theorem relayer_vote_matches_contract_witness:
  "\<exists>c a n inst info. unat c = 0 \<and> unat a = 100 \<and> unat n = 0 \<and>
    send_receive_request sample_aleph inst (hash_request_data sample_keccak c 1 a 2 n) c 1 a 2 n 0 = (Ok info, 1)"
proof -
  have keccak: "eth_keccak sample_eth = sample_keccak" by (simp add: sample_eth_def)
  have "eth_handle_event sample_aleph sample_eth sample_config (CrosschainTransferRequestFilter 0 1 100 2 0) 0 = (Ok (), 1)"
    using sample_vote [of 0] by (simp add: sample_eth_request_def)
  from relayer_vote_matches_contract [OF this sample_narrowing, where 'd = ledger] show ?thesis
    unfolding keccak by simp blast
qed



section \<open>End to end\<close>

text \<open>
  C11.  From Ethereum to Aleph Zero: once as many guardians as the threshold of the committee in office
  have each had their relayer handle a transfer request successfully, in any order and with any other
  transactions of anyone in between, the request is processed in the bridge contract, and exactly once.
  The request starts out unknown to the contract, and the committee in office is the same at the end.
\<close>

theorem quorum_of_relayers_executes:
  assumes "guardians_vote view E event w0 relayers w" and "event \<noteq> Other_Event" and "narrowing_law E"
    and "reachable (eth_keccak E) (view w0)"
    and "request_status (narrowed_hash (eth_keccak E) event) (bridge (view w0)) = RequestHashNotKnown"
    and "get_current_committee_id (bridge (view w0)) = Ok cid" and "get_current_committee_id (bridge (view w)) = Ok cid"
    and "signature_thresholds (bridge (view w0)) cid = Some threshold"
    and "distinct (map fst relayers)" and "unat threshold \<le> length relayers"
  shows "request_status (narrowed_hash (eth_keccak E) event) (bridge (view w)) = Processed \<and>
    count_list (processed_log (most_events (bridge (view w)))) (narrowed_hash (eth_keccak E) event) = 1"
proof -
  let ?K = "eth_keccak E" and ?h = "narrowed_hash (eth_keccak E) event"
  have inv0: "bridge_inv ?K (bridge (view w0))" using reachable_inv [OF assms(4)] .
  have "signers (bridge (view w0)) ?h = {}"
    using inv0 assms(5) by (auto simp: request_status_unknown bridge_inv_def vote_inv_def)
  moreover have "threshold \<noteq> 0" using inv0 assms(8) by (auto simp: bridge_inv_def committee_inv_def)
  ultimately have "tally ?h cid threshold {} (bridge (view w0))"
    using assms(6,8) by (auto simp: tally_def get_current_committee_id_def result_elims unat_gt_0)
  from guardians_vote_tally [OF assms(1-4) this]
  have w: "bridge_inv ?K (bridge (view w))" "tally ?h cid threshold (fst ` set relayers) (bridge (view w))"
    using reachable_inv by auto
  have "card (fst ` set relayers) = length relayers" using distinct_card [OF assms(9)] by simp
  then have "processed_requests (bridge (view w)) ?h \<noteq> None"
    using tally_complete [OF w(2) _ _ assms(7), of "?K"] w(1) assms(10) by (simp add: bridge_inv_def)
  moreover from this have "?h \<in> set (processed_log (most_events (bridge (view w))))"
    "distinct (processed_log (most_events (bridge (view w))))"
    using w(1) by (auto simp: bridge_inv_def log_inv_def)
  then have "count_list (processed_log (most_events (bridge (view w)))) ?h = 1"
    by (simp add: count_list_distinct)
  ultimately show ?thesis by (simp add: request_status_def)
qed

theorem quorum_of_relayers_executes_witness:
  "request_status 112 (bridge done_chain) = Processed \<and>
   count_list (processed_log (most_events (bridge done_chain))) 112 = 1"
proof -
  have first: "receive_request sample_keccak ledger_lib sample_runtime (sample_env 1 0) 112 0 7 30 60 0 open_chain = Ok voted_chain"
    by (simp add: run_defs voted_chain_def sample_defs)
  have second: "receive_request sample_keccak ledger_lib sample_runtime (sample_env 2 0) 112 0 7 30 60 0 voted_chain = Ok done_chain"
    by (simp add: run_defs voted_chain_def done_chain_def minted_token_def sample_defs fun_upd_twist fun_eq_iff)
  note laws = guardian_message_law guardian_submission_law [folded network_eth_laws(2)]
  have "guardians_vote (\<lambda>w. w) network_eth network_request open_chain
      [(2, guardian_client 2, sample_config), (1, guardian_client 1, sample_config)] done_chain"
    using guardians_vote.vote [OF guardians_vote.vote [OF guardians_vote.start laws
        guardian_handles [OF first sample_headroom(1)]] laws guardian_handles [OF second sample_headroom(2)]] .
  moreover have "network_request \<noteq> Other_Event" "unat (2 :: u128) \<le> 2"
    "reachable (eth_keccak network_eth) open_chain"
    "request_status (narrowed_hash (eth_keccak network_eth) network_request) (bridge open_chain) = RequestHashNotKnown"
    "get_current_committee_id (bridge open_chain) = Ok 0" "get_current_committee_id (bridge done_chain) = Ok 0"
    "signature_thresholds (bridge open_chain) 0 = Some 2"
    using open_reachable
    by (simp_all add: network_request_def network_eth_laws network_hash [unfolded network_request_def] request_status_unknown
        get_current_committee_id_def read_data_def done_chain_def voted_chain_def on_bridge_def sample_defs)
  ultimately show ?thesis
    using quorum_of_relayers_executes [of "\<lambda>w. w" network_eth network_request open_chain _ done_chain 0 2] network_eth_laws(1)
    by (fastforce simp: network_eth_laws(2) network_hash)
qed

text \<open>
  C12.  From Aleph Zero to Ethereum: once as many guardians as the threshold of the request's own committee
  have each had their relayer handle the event successfully, in any order, with any other transactions and
  any callbacks in between and even if another committee takes over, the request is processed by the
  Ethereum contract, exactly once.  The request starts out unknown to the contract, and all votes for its
  hash name its committee.
\<close>

theorem quorum_of_relayers_executes_eth:
  assumes "guardians_vote_eth view E Z G most_address event w0 relayers w"
    and "event_name event = Some ''CrosschainTransferRequest''" and "get_request_event_data (event_data event) = Ok d"
    and "initializer_law Z init" and "eth_reachable (eth_keccak E) Z G (view w0)"
    and "\<forall>env c t a r n. G env (ReceiveRequest_Eth (widened_hash (eth_keccak E) d) c t a r n) \<longrightarrow> c = ucast (tr_committee_id d)"
    and "\<not> processedRequests (emost (view w0)) (widened_hash (eth_keccak E) d)"
    and "\<forall>a. \<not> hasSignedRequest a (widened_hash (eth_keccak E) d) (emost (view w0))"
    and "ucast (tr_committee_id d) \<le> committeeId (emost (view w0))"
    and "distinct (map fst relayers)"
    and "unat (signatureThreshold (emost (view w0)) (ucast (tr_committee_id d))) \<le> length relayers"
  shows "processedRequests (emost (view w)) (widened_hash (eth_keccak E) d) \<and>
    count_list (eth_processed_log (eth_events (emost (view w)))) (widened_hash (eth_keccak E) d) = 1"
proof -
  let ?K = "eth_keccak E" and ?h = "widened_hash (eth_keccak E) d" and ?c = "ucast (tr_committee_id d) :: u256"
  let ?q = "signatureThreshold (emost (view w0)) ?c"
  have inv0: "eth_most_inv ?K {} (emost (view w0))" and init: "init (oz_state (emost (view w0)))"
    using eth_reachable_inv [OF assms(5,4)] eth_reachable_init [OF assms(5,4)] by simp_all
  have run: "eth_evolves ?K Z G (view w0) (view w)" and seen: "\<forall>g\<in>fst ` set relayers. seen ?h g (emost (view w))"
    using guardians_vote_eth_seen [OF assms(1-5)] by blast+
  have inv: "eth_vote_inv ?K (emost (view w))" "eth_log_inv {} (emost (view w))"
    using eth_reachable_inv [OF eth_reachable_evolves [OF assms(5) run] assms(4)] by (simp_all add: eth_most_inv_def)
  have "?q \<noteq> 0" using inv0 assms(9) by (simp add: eth_most_inv_def eth_committee_inv_def)
  then have "below_quorum ?h ?c ?q (emost (view w0))"
    using assms(8,9) by (simp add: below_quorum_def eth_signers_def unat_gt_0)
  moreover have "one_committee G ?h ?c" using assms(6) unfolding one_committee_def by blast
  ultimately have "below_quorum ?h ?c ?q (emost (view w))"
    using below_quorum_evolves [OF run assms(4) init inv0] by blast
  moreover have "unat ?q \<le> card (fst ` set relayers)" using assms(10,11) distinct_card [OF assms(10)] by simp
  ultimately have "processedRequests (emost (view w)) ?h" using below_quorum_complete [OF _ inv(1) seen] by blast
  moreover from this have "count_list (eth_processed_log (eth_events (emost (view w)))) ?h = 1"
    using inv(2) by (simp add: eth_log_inv_def count_list_distinct)
  ultimately show ?thesis by simp
qed

theorem quorum_of_relayers_executes_eth_witness:
  "processedRequests (eth_paid (eth_half eth_open)) 160 \<and>
   count_list (eth_processed_log (eth_events (eth_paid (eth_half eth_open)))) 160 = 1"
proof -
  note laws = client_laws(1) client_laws(3) [where G = first_committee] client_laws(4) [folded client_laws(2)]
  have address: "parse_address client_eth (cfg_eth_contract_address sample_config) = Ok 1000" by (simp add: client_eth_def)
  have votes: "guardians_vote_eth (\<lambda>w. w) client_eth sample_oz first_committee 1000 azero_event (in_world eth_open)
      [(12, client_signed 12, sample_config), (11, client_signed 11, sample_config)] (in_world (eth_paid (eth_half eth_open)))"
    by (rule guardians_vote_eth.vote [OF guardians_vote_eth.vote [OF guardians_vote_eth.start laws address
          client_handles [OF eth_votes(1)]] laws address client_handles [OF eth_votes(2)]]) simp_all
  have "eth_reachable (eth_keccak client_eth) sample_oz first_committee (in_world eth_open)"
    unfolding eth_reachable_def client_laws(2)
    using eth_new_deployed eth_sent_evolves(1) [of first_committee]
    by (intro exI [of _ "in_world eth_new"]) (auto simp: first_committee_def)
  moreover have "event_name azero_event = Some ''CrosschainTransferRequest''"
    "get_request_event_data (event_data azero_event) = Ok azero_request"
    by (simp_all add: azero_event_def request_fields_decode)
  ultimately have "processedRequests (emost (in_world (eth_paid (eth_half eth_open)))) (widened_hash (eth_keccak client_eth) azero_request) \<and>
      count_list (eth_processed_log (eth_events (emost (in_world (eth_paid (eth_half eth_open))))))
        (widened_hash (eth_keccak client_eth) azero_request) = 1"
    by (intro quorum_of_relayers_executes_eth [OF votes _ _ sample_oz_law])
       (auto simp: first_committee_def azero_request_def eth_open_def eth_new_def hasSignedRequest_def)
  then show ?thesis by (simp add: client_laws(2) azero_request_hash)
qed

text \<open>
  C25.  From Aleph Zero to Ethereum: when a relayer has handled the event a successful \<^verbatim>\<open>send_request\<close>
  emitted, it sent a transaction to the configured contract with exactly the pair, the amount, the receiver,
  the nonce and the committee of that call, widened without loss, and with the Keccak hash of the packed
  encoding of these values, which \<^verbatim>\<open>receiveRequest\<close> of the Ethereum contract recomputes.
\<close>

theorem announced_request_relayed:
  assumes "send_request P R env src amount receiver w = Ok w'"
    and "last (most_events (bridge w')) = CrosschainTransferRequest committee token sent dest nonce"
    and "event_name event = Some ''CrosschainTransferRequest''"
    and "event_data event = request_fields \<lparr>tr_committee_id = committee, tr_dest_token_address = token, tr_amount = sent,
           tr_dest_receiver_address = dest, tr_request_nonce = nonce\<rparr>"
    and "azero_handle_event E S cfg event v = Some (Ok (), v')" and "abi_law S"
  shows "\<exists>call p u u'. send_tx S call u = (Ok p, u') \<and>
    parse_address E (cfg_eth_contract_address cfg) = Ok (call_to call) \<and>
    supported_pairs (bridge w) src = Some (call_dest_token_address call) \<and>
    unat (call_amount call) = unat amount \<and> call_dest_receiver_address call = receiver \<and>
    get_request_nonce (bridge w) = Ok nonce \<and> unat (call_request_nonce call) = unat nonce \<and>
    get_current_committee_id (bridge w) = Ok committee \<and> unat (call_committee_id call) = unat committee \<and>
    call_request_hash call = eth_keccak E
      (array_bytes (call_committee_id call) @ array_bytes (call_dest_token_address call) @ array_bytes (call_amount call) @
       array_bytes (call_dest_receiver_address call) @ array_bytes (call_request_nonce call))"
proof -
  have wide: "unat (ucast (x :: u128) :: u256) = unat x" for x
    by (simp add: unsigned_ucast_eq take_bit_nat_eq_self order_less_le_trans [OF unsigned_less])
  obtain d where announced: "data_cell (bridge w) = Some d" "supported_pairs (bridge w) src = Some token"
    "sent = amount" "dest = receiver" "committee = d_committee_id d" "nonce = d_request_nonce d"
    using assms(1,2) by (auto elim!: send_request_bridge)
  have "get_request_event_data (event_data event) = Ok \<lparr>tr_committee_id = committee, tr_dest_token_address = token,
      tr_amount = sent, tr_dest_receiver_address = dest, tr_request_nonce = nonce\<rparr>"
    unfolding assms(4) by (rule request_fields_decode)
  from azero_handle_event_sends [OF assms(5,3) this] obtain address tx_nonce p u u' where "send_tx S (azero_vote_call E S cfg address
      \<lparr>tr_committee_id = committee, tr_dest_token_address = token, tr_amount = sent,
       tr_dest_receiver_address = dest, tr_request_nonce = nonce\<rparr> tx_nonce) u = (Ok p, u')"
    "parse_address E (cfg_eth_contract_address cfg) = Ok address" by metis
  then show ?thesis
    using announced azero_request_bytes_eq [OF assms(6)]
    by (intro exI conjI) (auto simp: azero_vote_call_def wide get_request_nonce_def get_current_committee_id_def read_data_def)
qed


theorem announced_request_relayed_witness:
  "\<exists>w'. sent_result = Ok w' \<and> (\<exists>call p u u'. send_tx sample_signed call u = (Ok p, u') \<and> call_dest_token_address call = 77 \<and>
     unat (call_amount call) = 30 \<and> call_dest_receiver_address call = 99 \<and> unat (call_request_nonce call) = 0)"
proof -
  obtain w' where w': "sent_result = Ok w'" using sent_ok by (auto simp: is_ok_iff)
  then have send: "send_request ledger_lib sample_runtime (sample_env 50 500) 7 30 99 open_chain = Ok w'"
    by (simp add: sent_result_def)
  then have "last (most_events (bridge w')) = CrosschainTransferRequest 0 77 30 99 0"
    by (rule send_request_bridge) (auto simp: sample_defs)
  moreover define event :: "unit contract_event" where
    "event = \<lparr>event_name = Some ''CrosschainTransferRequest'', event_data = request_fields
       \<lparr>tr_committee_id = 0, tr_dest_token_address = 77, tr_amount = 30, tr_dest_receiver_address = 99, tr_request_nonce = 0\<rparr>\<rparr>"
  moreover have "abi_law sample_signed" by (simp add: abi_law_def sample_signed_def)
  moreover have "azero_handle_event sample_eth sample_signed sample_config event 0 = Some (Ok (), 1)"
    using sample_request_handled [of event _ 0] by (simp add: event_def)
  ultimately have "\<exists>call p u u'. send_tx sample_signed call u = (Ok p, u') \<and>
      parse_address sample_eth (cfg_eth_contract_address sample_config) = Ok (call_to call) \<and>
      supported_pairs (bridge open_chain) 7 = Some (call_dest_token_address call) \<and>
      unat (call_amount call) = unat (30 :: u128) \<and> call_dest_receiver_address call = 99 \<and>
      get_request_nonce (bridge open_chain) = Ok 0 \<and> unat (call_request_nonce call) = unat (0 :: u128) \<and>
      get_current_committee_id (bridge open_chain) = Ok 0 \<and> unat (call_committee_id call) = unat (0 :: u128) \<and>
      call_request_hash call = eth_keccak sample_eth
        (array_bytes (call_committee_id call) @ array_bytes (call_dest_token_address call) @ array_bytes (call_amount call) @
         array_bytes (call_dest_receiver_address call) @ array_bytes (call_request_nonce call))"
    by (intro announced_request_relayed [OF send]) (simp_all add: event_def)
  moreover have "supported_pairs (bridge open_chain) 7 = Some 77" by (simp add: sample_defs)
  ultimately show ?thesis using w' by auto
qed

section \<open>Both directions\<close>

text \<open>
  C1.  No forged transfers.  Let the two contracts run from their deployment, in any interleaving of
  transactions, callbacks and relayers.  Guardians that run the relayer vote only with the message the
  relayer builds from an event in the log of the other chain; the others, \<open>Da\<close> on Aleph Zero and \<open>De\<close> on
  Ethereum, vote as they like.  As long as there are fewer of the latter than any threshold of their chain,
  every request processed on Aleph Zero has the hash of a request that was announced on Ethereum, with
  exactly its committee, token, amount, receiver and nonce, and every request processed on Ethereum that of
  a request announced on Aleph Zero.  The runs leave out votes on Ethereum by a collision of committee member
  ids, and transactions on Aleph Zero once the committee id has its last value.
\<close>

theorem no_forged_transfers:
  assumes "(bridge_step E S Z Da De)\<^sup>*\<^sup>* s0 (w, e)" and "both_deployed (eth_keccak E) Z s0"
    and "narrowing_law E" and "abi_law S" and "initializer_law Z init" and "finite Da" and "finite De"
    and "\<forall>c q. signature_thresholds (bridge w) c = Some q \<longrightarrow> card Da < unat q"
    and "\<forall>c \<le> committeeId (emost e). card De < unat (signatureThreshold (emost e) c)"
  shows "(\<forall>h. processed_requests (bridge w) h \<noteq> None \<longrightarrow>
      (\<exists>c t a r n. h = hash_request_data (eth_keccak E) c t a r n \<and>
         Eth_CrosschainTransferRequest (ucast c) t (ucast a) r (ucast n) \<in> set (eth_events (emost e)))) \<and>
    (\<forall>h. processedRequests (emost e) h \<longrightarrow>
      (\<exists>c t a r n. h = eth_request_hash (eth_keccak E) (ucast c) t (ucast a) r (ucast n) \<and>
         CrosschainTransferRequest c t a r n \<in> set (most_events (bridge w))))"
proof -
  have "\<forall>q\<in>quorums_azero (bridge (fst (w, e))). card Da < q" "\<forall>q\<in>quorums_eth (emost (snd (w, e))). card De < q"
    using assms(8,9) by (auto simp: quorums_azero_def quorums_eth_def)
  from executed_announced_both [OF assms(1-7) this] show ?thesis
    by (auto simp: abs_votes_def abs_votes_eth_def announced_on_eth_def announced_on_azero_def dom_def subset_iff)
qed

theorem no_forged_transfers_witness:
  "(\<exists>c t a r n. 112 = hash_request_data sample_keccak c t a r n \<and>
      Eth_CrosschainTransferRequest (ucast c) t (ucast a) r (ucast n) \<in> set (eth_events (eth_paid (eth_half eth_sent)))) \<and>
   (\<exists>c t a r n. 160 = eth_request_hash sample_keccak (ucast c) t (ucast a) r (ucast n) \<and>
      CrosschainTransferRequest c t a r n \<in> set (most_events (bridge sent_chain)))"
proof -
  have "processed_requests (bridge sent_chain) 112 \<noteq> None" by (simp add: sent_chain_views)
  moreover have "processedRequests (emost (in_world (eth_paid (eth_half eth_sent)))) 160" by (simp add: eth_paid_def)
  ultimately show ?thesis
    using no_forged_transfers [OF supply_steps_bridge_steps [OF sample_supply_run] sample_both_deployed sample_narrowing
        sample_abi sample_oz_law] sample_thresholds unfolding sample_eth_keccak in_world_simps(1) by blast
qed

section \<open>The value that crosses the bridge\<close>

text \<open>
  C2.  Wrapped tokens are backed.  In the same runs, let only the token \<open>t\<close> of Aleph Zero ever be paired with the
  token \<open>T\<close> of Ethereum, and let no supply be created outside of the bridge.  Then what was minted of \<open>t\<close> is at
  most what was locked for it on Ethereum, what was released of \<open>T\<close> is at most what was burned for it on Aleph
  Zero, and so the supply of \<open>t\<close>, together with all that was released, never exceeds the supply it started with
  and what was locked.  \<open>D\<close> and \<open>D'\<close> are the requests that occur, on which Keccak has no collision.
\<close>

theorem wrapped_supply_backed:
  assumes "(supply_step E S Z L Da De D t T)\<^sup>*\<^sup>* s0 (w, e)" and "both_deployed (eth_keccak E) Z s0"
    and "narrowing_law E" and "abi_law S" and "initializer_law Z init" and "psp22_laws L" and "finite Da" and "finite De"
    and "\<forall>c q. signature_thresholds (bridge w) c = Some q \<longrightarrow> card Da < unat q"
    and "\<forall>c \<le> committeeId (emost e). card De < unat (signatureThreshold (emost e) c)"
    and "finite D" and "inj_on (azero_transfer_hash (eth_keccak E)) D" and "inj_on (eth_transfer_hash (eth_keccak E)) D'"
    and "\<forall>y. eth_entry y \<in> set (eth_events (emost e)) \<longrightarrow> y \<in> D"
    and "\<forall>y. azero_entry y \<in> set (most_events (bridge w)) \<longrightarrow> widened y \<in> D'"
  shows "minted_total (eth_keccak E) D t (bridge w) \<le> locked_total t (eth_events (emost e)) \<and>
    released_total (eth_keccak E) D' T (emost e) \<le> sent_total T (most_events (bridge w)) \<and>
    token_supply L t w + released_total (eth_keccak E) D' T (emost e) \<le>
      token_supply L t (fst s0) + locked_total t (eth_events (emost e))"
proof -
  have quorums: "\<forall>q\<in>quorums_azero (bridge (fst (w, e))). card Da < q" "\<forall>q\<in>quorums_eth (emost (snd (w, e))). card De < q"
    using assms(9,10) by (auto simp: quorums_azero_def quorums_eth_def)
  note executed = executed_announced_both [OF supply_steps_bridge_steps [OF assms(1)] assms(2-5,7,8) quorums, simplified]
  have minted: "minted_total (eth_keccak E) D t (bridge w) \<le> locked_total t (eth_events (emost e))"
    using executed_entries [OF executed(1)] by (intro minted_le_locked [OF _ assms(14,12)]) blast
  have released: "released_total (eth_keccak E) D' T (emost e) \<le> sent_total T (most_events (bridge w))"
    using executed_entries_eth [OF executed(2)] by (intro released_le_sent [OF _ assms(15,13)]) blast
  have "supply_inv (eth_keccak E) L D t T (token_supply L t (fst s0)) (fst s0)"
    using assms(2) supply_inv_new by (auto simp: both_deployed_def)
  from supply_inv_steps [OF assms(1) this assms(6,11,12)] minted released show ?thesis by (auto simp: supply_inv_def)
qed

theorem wrapped_supply_backed_witness:
  "token_supply ledger_lib 7 sent_chain + released_total sample_keccak sample_released 77 (eth_paid (eth_half eth_sent)) \<le>
     token_supply ledger_lib 7 sample_chain + locked_total 7 (eth_events (eth_paid (eth_half eth_sent)))"
  using wrapped_supply_backed [OF sample_supply_run sample_both_deployed sample_narrowing sample_abi sample_oz_law ledger_laws,
      of sample_released] sample_thresholds sample_eth_entries [of eth_sent] sample_azero_entries
  by (simp add: sample_eth_keccak eth_sent_def)

text \<open>
  C3.  Wrapped ether is collateralised.  Let \<open>T\<close> be the key of WETH, whose contract runs beside the bridge, and let
  the owner recover no WETH.  Then the wrapped ether that circulates on Aleph Zero and all that was burned there
  and not yet released is covered by the WETH the bridge holds, whatever the other contracts and accounts do,
  beyond the supply the wrapped token started with.  If that was none, \<^verbatim>\<open>withdraw\<close> of WETH succeeds for every
  announced request that is not yet processed, so that \<^verbatim>\<open>receiveRequest\<close> does not revert with \<^verbatim>\<open>UnwrappingEth\<close>.
\<close>

theorem wrapped_ether_collateralised:
  assumes "(collateral_step E S Z L Da De D D' t T W B others)\<^sup>*\<^sup>* s0 (w, e)" and "both_deployed (eth_keccak E) Z s0"
    and "narrowing_law E" and "abi_law S" and "initializer_law Z init" and "psp22_laws L" and "finite Da" and "finite De"
    and "\<forall>c q. signature_thresholds (bridge w) c = Some q \<longrightarrow> card Da < unat q"
    and "\<forall>c \<le> committeeId (emost e). card De < unat (signatureThreshold (emost e) c)"
    and "finite D" and "inj_on (azero_transfer_hash (eth_keccak E)) D" and "weth_requests (eth_keccak E) D' T W"
    and "\<forall>y. eth_entry y \<in> set (eth_events (emost e)) \<longrightarrow> y \<in> D"
    and "\<forall>y. azero_entry y \<in> set (most_events (bridge w)) \<longrightarrow> widened y \<in> D'"
    and "wethAddress (emost (snd s0)) = W" and "safe_for W B (ether_of (snd s0))" and "B \<noteq> W" and "t \<noteq> 0"
  shows "token_supply L t w + sent_total T (most_events (bridge w)) \<le>
      token_supply L t (fst s0) + weth_held B e + released_total (eth_keccak E) D' T (emost e) \<and>
    (token_supply L t (fst s0) = 0 \<longrightarrow>
      (\<forall>c a r n. CrosschainTransferRequest c T a r n \<in> set (most_events (bridge w)) \<longrightarrow>
         \<not> processedRequests (emost e) (eth_request_hash (eth_keccak E) (ucast c) T (ucast a) r (ucast n)) \<longrightarrow>
         withdraw W (takes_ether W B others e) B (ucast a) (ether_of e) \<noteq> None))"
proof -
  have run: "(supply_step E S Z L Da De D t T)\<^sup>*\<^sup>* s0 (w, e)" using collateral_steps_supply_steps [OF assms(1)] .
  have quorums: "\<forall>q\<in>quorums_azero (bridge (fst (w, e))). card Da < q" "\<forall>q\<in>quorums_eth (emost (snd (w, e))). card De < q"
    using assms(9,10) by (auto simp: quorums_azero_def quorums_eth_def)
  note executed = executed_announced_both [OF supply_steps_bridge_steps [OF run] assms(2-5,7,8) quorums, simplified]
  have "weth_inv (eth_keccak E) init D' t T W B 0 (snd s0)"
    using weth_inv_deployed [OF _ assms(5,16,17,19)] assms(2) by (simp add: both_deployed_def)
  from collateral_inv [OF assms(1) this assms(5,18,19,13)] have inv: "weth_inv (eth_keccak E) init D' t T W B 0 e" by simp
  have "minted_total (eth_keccak E) D t (bridge w) \<le> locked_total t (eth_events (emost e))"
    using executed_entries [OF executed(1)] by (intro minted_le_locked [OF _ assms(14,12)]) blast
  moreover have "supply_inv (eth_keccak E) L D t T (token_supply L t (fst s0)) (fst s0)"
    using assms(2) supply_inv_new by (auto simp: both_deployed_def)
  from supply_inv_steps [OF run this assms(6,11,12)]
  have "token_supply L t w + sent_total T (most_events (bridge w)) \<le> token_supply L t (fst s0) + minted_total (eth_keccak E) D t (bridge w)"
    by (simp add: supply_inv_def)
  ultimately have cover: "token_supply L t w + sent_total T (most_events (bridge w)) \<le>
      token_supply L t (fst s0) + weth_held B e + released_total (eth_keccak E) D' T (emost e)"
    using inv by (simp add: weth_inv_def)
  moreover have "withdraw W (takes_ether W B others e) B (ucast a) (ether_of e) \<noteq> None"
    if none: "token_supply L t (fst s0) = 0" and sent: "CrosschainTransferRequest c T a r n \<in> set (most_events (bridge w))"
      and pending: "\<not> processedRequests (emost e) (eth_request_hash (eth_keccak E) (ucast c) T (ucast a) r (ucast n))" for c a r n
  proof -
    have "released_total (eth_keccak E) D' T (emost e) + unat a \<le> sent_total T (most_events (bridge w))"
      by (rule released_pending_le_sent [where c = c and r = r and n = n])
         (use executed_entries_eth [OF executed(2)] assms(13,15) sent pending in
           \<open>auto simp: weth_requests_def azero_entry_def widened_def eth_transfer_hash_def\<close>)
    then have "unat (ucast a :: u256) \<le> weth_held B e" using cover none by (simp add: ucast_u256)
    then show ?thesis by (rule withdraw_succeeds [OF inv _ assms(18)])
  qed
  ultimately show ?thesis by blast
qed

theorem wrapped_ether_collateralised_witness:
  "token_supply ledger_lib 7 sent_chain + sent_total 77 (most_events (bridge sent_chain)) \<le>
     token_supply ledger_lib 7 sample_chain + weth_held 1000 (with_ether (eth_paid (eth_half weth_sent)) ether_paid) +
     released_total sample_keccak sample_released 77 (eth_paid (eth_half weth_sent))"
proof -
  have "both_deployed (eth_keccak sample_eth) sample_oz (sample_chain, with_ether weth_new ether_start)"
    using sample_both_deployed weth_new_deployed by (simp add: both_deployed_def sample_eth_keccak)
  moreover have "weth_requests (eth_keccak sample_eth) sample_released 77 77"
    by (simp add: weth_requests_def addressToBytes32_def)
  ultimately show ?thesis
    using wrapped_ether_collateralised [OF sample_collateral_run _ sample_narrowing sample_abi sample_oz_law ledger_laws]
      ether_start_safe sample_thresholds sample_eth_entries [of weth_sent] sample_azero_entries
    by (simp add: sample_eth_keccak weth_new_def weth_sent_def)
qed

section \<open>Token\<close>

text \<open>
  Only the holder of the minter role changes the supply of a wrapped token: any sequence of mint
  and burn calls by other accounts leaves the token, its balances and its role untouched.
\<close>

theorem strangers_never_change_supply:
  assumes "\<forall>k\<in>set ks. case k of Mint_Call c to v \<Rightarrow> c \<noteq> token_minter t | Burn_Call c v \<Rightarrow> c \<noteq> token_minter t"
  shows "fold (\<lambda>k t. case k of
      Mint_Call c to v \<Rightarrow> commit t (token_mint L (env\<lparr>caller := c\<rparr>) to v t)
    | Burn_Call c v \<Rightarrow> commit t (token_burn L (env\<lparr>caller := c\<rparr>) v t)) ks t = t"
  using supply_token.runs_supply_refused [OF assms] unfolding supply_token.run_supply_def .

theorem strangers_never_change_supply_witness:
  "commit sample_token (token_mint ledger_lib (sample_env 0 0\<lparr>caller := 66\<rparr>) 66 5 sample_token) = sample_token"
  using strangers_never_change_supply [of "[Mint_Call 66 66 5]" sample_token ledger_lib "sample_env 0 0"]
  by (simp add: token_minter_def sample_token_def)

end
